(* ===== verification/Prelude.thy ===== *)
theory Prelude
  imports Main "HOL-Library.Word" "HOL-Library.Char_ord" "HOL-Library.List_Lexorder"
    "HOL-Library.Product_Lexorder" "HOL-Library.AList"
begin

text \<open>
  Shared vocabulary of the development: the result type of code that may raise, loops and
  comprehensions that may raise, tables as lists of rows with the SQL fragments the
  repositories use (select by key, update in place, count, order by), and the facts about
  them that carry the component proofs.
\<close>

section \<open>Types shared by the components\<close>

text \<open>
  A \<open>UUID\<close> is a 128-bit value; PostgreSQL orders UUIDs by their bytes, which is the
  unsigned order of the word. A time-zone aware \<open>datetime\<close> is its instant in microseconds.
  A Python \<open>str\<close> is a list of code points; the model covers code points below 256.
\<close>

type_synonym uuid = "128 word"
type_synonym timestamp = int

named_theorems tx_defs \<open>definitions of transactions, to be unfolded together\<close>
named_theorems frame \<open>what an operation leaves unchanged\<close>

section \<open>Code that may raise\<close>

fun bind_res :: "'e + 'a \<Rightarrow> ('a \<Rightarrow> 'e + 'b) \<Rightarrow> 'e + 'b" where
  "bind_res (Inl e) f = Inl e"
| "bind_res (Inr x) f = f x"

definition require :: "bool \<Rightarrow> 'e \<Rightarrow> 'e + unit" where
  "require b e = (if b then Inr () else Inl e)"

text \<open>A \<open>for\<close> loop whose body may raise, and a comprehension whose element may raise.\<close>

fun for_each :: "('a \<Rightarrow> 'e + unit) \<Rightarrow> 'a list \<Rightarrow> 'e + unit" where
  "for_each f [] = Inr ()"
| "for_each f (x # xs) = bind_res (f x) (\<lambda>_. for_each f xs)"

fun map_res :: "('a \<Rightarrow> 'e + 'b) \<Rightarrow> 'a list \<Rightarrow> 'e + 'b list" where
  "map_res f [] = Inr []"
| "map_res f (x # xs) = bind_res (f x) (\<lambda>y. bind_res (map_res f xs) (\<lambda>ys. Inr (y # ys)))"

text \<open>
  \<open>with session.begin():\<close> commits the block's effects when it returns and discards them
  when it raises; the caller sees the exception either way.
\<close>

fun transaction :: "('s \<Rightarrow> 'e + ('r \<times> 's)) \<Rightarrow> 's \<Rightarrow> ('e + 'r) \<times> 's" where
  "transaction body s = (case body s of Inl e \<Rightarrow> (Inl e, s) | Inr (r, s') \<Rightarrow> (Inr r, s'))"

section \<open>Tables\<close>

definition find_by :: "('r \<Rightarrow> 'k) \<Rightarrow> 'k \<Rightarrow> 'r list \<Rightarrow> 'r option" where
  "find_by key k rows = List.find (\<lambda>r. key r = k) rows"

definition update_by :: "('r \<Rightarrow> 'k) \<Rightarrow> 'k \<Rightarrow> ('r \<Rightarrow> 'r) \<Rightarrow> 'r list \<Rightarrow> 'r list" where
  "update_by key k f rows = map (\<lambda>r. if key r = k then f r else r) rows"

definition count_where :: "('r \<Rightarrow> bool) \<Rightarrow> 'r list \<Rightarrow> nat" where
  "count_where P rows = length (filter P rows)"

definition paginate :: "nat \<Rightarrow> nat \<Rightarrow> 'r list \<Rightarrow> 'r list" where
  "paginate limit offset rows = take limit (drop offset rows)"

text \<open>The first row of a result, as \<open>session.scalar\<close> returns it.\<close>

fun first_of :: "'r list \<Rightarrow> 'r option" where
  "first_of [] = None"
| "first_of (r # _) = Some r"

section \<open>Facts about results\<close>

lemma bind_res_Inr_iff [simp]: "bind_res m f = Inr y \<longleftrightarrow> (\<exists>x. m = Inr x \<and> f x = Inr y)"
  by (cases m) auto

lemma bind_res_Inl_iff: "bind_res m f = Inl e \<longleftrightarrow> m = Inl e \<or> (\<exists>x. m = Inr x \<and> f x = Inl e)"
  by (cases m) auto

lemma bind_res_assoc: "bind_res (bind_res m f) g = bind_res m (\<lambda>x. bind_res (f x) g)"
  by (cases m) auto

lemma require_Inr_iff [simp]: "require b e = Inr u \<longleftrightarrow> b"
  by (auto simp: require_def)

lemma require_Inl_iff [simp]: "require b e = Inl e' \<longleftrightarrow> \<not> b \<and> e' = e"
  by (auto simp: require_def)

lemma require_True [simp]: "require True e = Inr ()"
  by (simp add: require_def)

lemma require_False [simp]: "require False e = Inl e"
  by (simp add: require_def)

lemma for_each_Inr_iff: "for_each f xs = Inr u \<longleftrightarrow> (\<forall>x \<in> set xs. f x = Inr ())"
  by (induction xs) auto

lemma map_res_Inr_iff: "map_res f xs = Inr ys \<longleftrightarrow> list_all2 (\<lambda>x y. f x = Inr y) xs ys"
proof (induction xs arbitrary: ys)
  case Nil
  then show ?case by auto
next
  case (Cons x xs)
  then show ?case by (cases ys) auto
qed

lemma map_res_InlD: "map_res f xs = Inl e \<Longrightarrow> \<exists>x \<in> set xs. f x = Inl e"
  by (induction xs) (auto simp: bind_res_Inl_iff)

lemma map_res_map: "(\<And>x. x \<in> set xs \<Longrightarrow> f x = Inr (g x)) \<Longrightarrow> map_res f xs = Inr (map g xs)"
  by (induction xs) auto

lemma transaction_rollback: "fst (transaction body s) = Inl e \<Longrightarrow> snd (transaction body s) = s"
  by (auto split: sum.splits prod.splits)

lemma transaction_commit:
  "transaction body s = (Inr r, s') \<longleftrightarrow> body s = Inr (r, s')"
  by (auto split: sum.splits prod.splits)

lemma transaction_raise:
  "transaction body s = (Inl e, s') \<longleftrightarrow> body s = Inl e \<and> s' = s"
  by (auto split: sum.splits prod.splits)

declare transaction.simps [simp del]

section \<open>Facts about tables\<close>

lemma find_by_Some: "find_by key k rows = Some r \<Longrightarrow> r \<in> set rows \<and> key r = k"
  by (auto simp: find_by_def find_Some_iff)

lemma find_by_None: "find_by key k rows = None \<longleftrightarrow> k \<notin> key ` set rows"
  by (auto simp: find_by_def find_None_iff)

lemma find_by_distinct:
  assumes "distinct (map key rows)" and "r \<in> set rows"
  shows "find_by key (key r) rows = Some r"
  using assms by (induction rows) (auto simp: find_by_def)

lemma find_by_simps [simp]:
  "find_by key k [] = None" "find_by key k (r # rows) = (if key r = k then Some r else find_by key k rows)"
  by (simp_all add: find_by_def)

lemma find_by_append:
  "find_by key k (xs @ ys) = (case find_by key k xs of None \<Rightarrow> find_by key k ys | Some r \<Rightarrow> Some r)"
  by (induction xs) (auto simp: find_by_def)

lemma update_by_keys:
  assumes "\<And>r. key (f r) = key r"
  shows "map key (update_by key k f rows) = map key rows"
  using assms by (induction rows) (auto simp: update_by_def)

lemma set_update_by:
  "set (update_by key k f rows) = {r \<in> set rows. key r \<noteq> k} \<union> f ` {r \<in> set rows. key r = k}"
  by (auto simp: update_by_def)

lemma map_update_by:
  assumes "\<And>r. g (f r) = g r"
  shows "map g (update_by key k f rows) = map g rows"
  using assms by (induction rows) (auto simp: update_by_def)

lemma find_by_update_by:
  assumes "\<And>r. key (f r) = key r"
  shows "find_by key j (update_by key k f rows)
    = map_option (\<lambda>r. if key r = k then f r else r) (find_by key j rows)"
  using assms by (induction rows) (auto simp: find_by_def update_by_def)

lemma count_where_append [simp]: "count_where P (xs @ ys) = count_where P xs + count_where P ys"
  by (simp add: count_where_def)

lemma count_where_Nil [simp]: "count_where P [] = 0"
  by (simp add: count_where_def)

lemma count_where_Cons [simp]: "count_where P (x # xs) = (if P x then 1 else 0) + count_where P xs"
  by (simp add: count_where_def)

lemma count_where_mono: "(\<And>x. x \<in> set xs \<Longrightarrow> P x \<Longrightarrow> Q x) \<Longrightarrow> count_where P xs \<le> count_where Q xs"
  by (induction xs) auto

lemma count_where_update_notin: "k \<notin> key ` set rows \<Longrightarrow> update_by key k f rows = rows"
  by (induction rows) (auto simp: update_by_def)

text \<open>
  Updating the one row with a given key changes a count by what the row itself contributes.
\<close>

lemma count_where_update_by:
  assumes "distinct (map key rows)" and "r \<in> set rows"
  shows "count_where P (update_by key (key r) f rows) + of_bool (P r)
    = count_where P rows + of_bool (P (f r))"
  using assms
proof (induction rows)
  case Nil
  then show ?case by simp
next
  case (Cons x rows)
  show ?case
  proof (cases "x = r")
    case True
    with Cons.prems have "key r \<notin> key ` set rows" by auto
    then have "update_by key (key r) f rows = rows" by (rule count_where_update_notin)
    with True show ?thesis by (simp add: update_by_def)
  next
    case False
    with Cons have "key x \<noteq> key r" by auto
    with False Cons show ?thesis by (simp add: update_by_def)
  qed
qed

lemma first_of_Some: "first_of rows = Some r \<Longrightarrow> r \<in> set rows"
  by (cases rows) auto

lemma first_of_None [simp]: "first_of rows = None \<longleftrightarrow> rows = []"
  by (cases rows) auto

lemma first_of_sorted:
  assumes "first_of (sort_key key rows) = Some r" and "x \<in> set rows"
  shows "key r \<le> key x"
proof -
  obtain t where t: "sort_key key rows = r # t" using assms(1) by (cases "sort_key key rows") auto
  have "sorted (map key (r # t))" unfolding t [symmetric] by simp
  moreover have "x \<in> set (r # t)" unfolding t [symmetric] using assms(2) by simp
  ultimately show ?thesis by auto
qed

lemma sort_key_Nil_iff [simp]: "sort_key key rows = [] \<longleftrightarrow> rows = []"
  by (metis length_0_conv length_sort)

lemma first_of_sort: "x \<in> set rows \<Longrightarrow> \<exists>r. first_of (sort_key key rows) = Some r"
  by (cases "first_of (sort_key key rows)") auto

lemma set_map_filter: "set (List.map_filter f xs) = {y. \<exists>x \<in> set xs. f x = Some y}"
  by (induction xs) (auto simp: List.map_filter_def)

lemma paginate_length: "length (paginate limit offset rows) \<le> limit"
  by (simp add: paginate_def)

lemma set_paginate: "set (paginate limit offset rows) \<subseteq> set rows"
  by (auto simp: paginate_def dest: in_set_takeD in_set_dropD)

end
