(* ===== verification/PyText.thy ===== *)
theory PyText
  imports Prelude
begin

text \<open>
  The parts of Python's string library the code calls: \<open>str.strip\<close>, \<open>str.replace\<close>,
  \<open>re.fullmatch\<close> on the patterns of the repository, \<open>PurePosixPath\<close>,
  \<open>PureWindowsPath.drive\<close>, \<open>int(s, 16)\<close>, \<open>str(int)\<close> and \<open>uuid.UUID\<close> in both
  directions. The theory models the language, so its definitions have no counterpart in
  the repository; \<open>uuid_roundtrip\<close> is the fact the components rest on.
\<close>

section \<open>Characters and whitespace\<close>

abbreviation ord :: "char \<Rightarrow> nat" where
  "ord c \<equiv> of_char c"

text \<open>\<open>str.isspace\<close> for code points below 256, which is also what \<open>\s\<close> matches.\<close>

definition py_space :: "char \<Rightarrow> bool" where
  "py_space c \<longleftrightarrow> (let n = ord c in 9 \<le> n \<and> n \<le> 13 \<or> 28 \<le> n \<and> n \<le> 32 \<or> n = 133 \<or> n = 160)"

definition strip_by :: "(char \<Rightarrow> bool) \<Rightarrow> string \<Rightarrow> string" where
  "strip_by p s = rev (dropWhile p (rev (dropWhile p s)))"

abbreviation py_strip :: "string \<Rightarrow> string" where
  "py_strip s \<equiv> strip_by py_space s"

definition lower_alnum :: "char \<Rightarrow> bool" where
  "lower_alnum c \<longleftrightarrow> (let n = ord c in 97 \<le> n \<and> n \<le> 122 \<or> 48 \<le> n \<and> n \<le> 57)"

definition lower_hex :: "char \<Rightarrow> bool" where
  "lower_hex c \<longleftrightarrow> (let n = ord c in 97 \<le> n \<and> n \<le> 102 \<or> 48 \<le> n \<and> n \<le> 57)"

section \<open>Regular expressions\<close>

text \<open>
  A pattern is read as the set of strings it matches in full. \<open>Rep p m n\<close> is
  \<open>[p]{m,n}\<close>, with \<open>None\<close> for no upper bound.
\<close>

datatype rx =
    Cls "char \<Rightarrow> bool"
  | Rep "char \<Rightarrow> bool" nat "nat option"
  | Lit string
  | Seq rx rx
  | Opt rx
  | Alt rx rx

fun fullmatch :: "rx \<Rightarrow> string \<Rightarrow> bool" where
  "fullmatch (Cls p) s \<longleftrightarrow> (case s of [c] \<Rightarrow> p c | _ \<Rightarrow> False)"
| "fullmatch (Rep p m n) s \<longleftrightarrow> list_all p s \<and> m \<le> length s
     \<and> (case n of None \<Rightarrow> True | Some k \<Rightarrow> length s \<le> k)"
| "fullmatch (Lit t) s \<longleftrightarrow> s = t"
| "fullmatch (Seq a b) s \<longleftrightarrow>
     list_ex (\<lambda>i. fullmatch a (take i s) \<and> fullmatch b (drop i s)) [0..<Suc (length s)]"
| "fullmatch (Opt a) s \<longleftrightarrow> s = [] \<or> fullmatch a s"
| "fullmatch (Alt a b) s \<longleftrightarrow> fullmatch a s \<or> fullmatch b s"

section \<open>Splitting, joining and replacing\<close>

fun split_on :: "char \<Rightarrow> string \<Rightarrow> string list" where
  "split_on c [] = [[]]"
| "split_on c (x # xs) =
     (if x = c then [] # split_on c xs
      else case split_on c xs of [] \<Rightarrow> [[x]] | y # ys \<Rightarrow> (x # y) # ys)"

fun join_with :: "string \<Rightarrow> string list \<Rightarrow> string" where
  "join_with sep [] = []"
| "join_with sep [x] = x"
| "join_with sep (x # xs) = x @ sep @ join_with sep xs"

definition starts_with :: "string \<Rightarrow> string \<Rightarrow> bool" where
  "starts_with s p \<longleftrightarrow> take (length p) s = p"

text \<open>\<open>s.replace(pat, '')\<close> for a nonempty pattern, from left to right.\<close>

function remove_all :: "string \<Rightarrow> string \<Rightarrow> string" where
  "remove_all pat s =
     (if s = [] \<or> pat = [] then s
      else if starts_with s pat then remove_all pat (drop (length pat) s)
      else hd s # remove_all pat (tl s))"
  by pat_completeness auto
termination
  by (relation "measure (\<lambda>(pat, s). length s)") auto

declare remove_all.simps [simp del]

section \<open>Paths\<close>

text \<open>
  \<open>PurePosixPath(s)\<close>: two leading slashes, and no more, are a root of their own; empty
  and \<open>"."\<close> components are dropped.
\<close>

definition posix_root :: "string \<Rightarrow> string" where
  "posix_root s =
     (if starts_with s ''//'' \<and> \<not> starts_with s ''///'' then ''//''
      else if starts_with s ''/'' then ''/'' else [])"

definition posix_tail :: "string \<Rightarrow> string list" where
  "posix_tail s = filter (\<lambda>p. p \<noteq> [] \<and> p \<noteq> ''.'') (split_on (CHR ''/'') s)"

definition posix_parts :: "string \<Rightarrow> string list" where
  "posix_parts s = (if posix_root s = [] then posix_tail s else posix_root s # posix_tail s)"

definition posix_is_absolute :: "string \<Rightarrow> bool" where
  "posix_is_absolute s = starts_with s ''/''"

definition posix_str :: "string \<Rightarrow> string" where
  "posix_str s =
     (let t = posix_root s @ join_with ''/'' (posix_tail s) in if t = [] then ''.'' else t)"

definition posix_name :: "string \<Rightarrow> string" where
  "posix_name s = (if posix_tail s = [] then [] else last (posix_tail s))"

text \<open>Whether \<open>PureWindowsPath(s).drive\<close> is nonempty: a letter and a colon, or a UNC root.\<close>

definition windows_sep :: "char \<Rightarrow> bool" where
  "windows_sep c \<longleftrightarrow> c = CHR ''/'' \<or> c = CHR 0x5C"

definition has_windows_drive :: "string \<Rightarrow> bool" where
  "has_windows_drive s =
     (case s of a # b # _ \<Rightarrow> if windows_sep a then windows_sep b else b = CHR '':'' | _ \<Rightarrow> False)"

section \<open>Numbers as text\<close>

definition digit_char :: "nat \<Rightarrow> char" where
  "digit_char n = (if n < 10 then char_of (48 + n) else char_of (87 + n))"

fun hex_digits :: "nat \<Rightarrow> nat \<Rightarrow> string" where
  "hex_digits 0 n = []"
| "hex_digits (Suc k) n = hex_digits k (n div 16) @ [digit_char (n mod 16)]"

fun show_nat :: "nat \<Rightarrow> string" where
  "show_nat n = (if n < 10 then [digit_char n] else show_nat (n div 10) @ [digit_char (n mod 10)])"

declare show_nat.simps [simp del]

definition show_int :: "int \<Rightarrow> string" where
  "show_int i = (if i < 0 then CHR ''-'' # show_nat (nat (- i)) else show_nat (nat i))"

definition hex_val :: "char \<Rightarrow> nat option" where
  "hex_val c = (let n = ord c in
     if 48 \<le> n \<and> n \<le> 57 then Some (n - 48)
     else if 97 \<le> n \<and> n \<le> 102 then Some (n - 87)
     else if 65 \<le> n \<and> n \<le> 70 then Some (n - 55)
     else None)"

text \<open>
  \<open>int(s, 16)\<close>: surrounding whitespace, a sign, a \<open>0x\<close> prefix, and single underscores
  between digits are accepted.
\<close>

fun hex_scan :: "bool \<Rightarrow> nat \<Rightarrow> string \<Rightarrow> nat option" where
  "hex_scan prev acc [] = (if prev then Some acc else None)"
| "hex_scan prev acc (c # cs) =
     (case hex_val c of
        Some d \<Rightarrow> hex_scan True (acc * 16 + d) cs
      | None \<Rightarrow> if c = CHR ''_'' \<and> prev then hex_scan False acc cs else None)"

definition hex_body :: "string \<Rightarrow> nat option" where
  "hex_body s =
     (case s of
        z # x # r \<Rightarrow>
          if z = CHR ''0'' \<and> (x = CHR ''x'' \<or> x = CHR ''X'')
          then hex_scan False 0 (case r of u # r' \<Rightarrow> if u = CHR ''_'' then r' else r | [] \<Rightarrow> r)
          else hex_scan False 0 s
      | _ \<Rightarrow> hex_scan False 0 s)"

definition py_int16 :: "string \<Rightarrow> int option" where
  "py_int16 s =
     (let t = py_strip s in
      case t of
        c # r \<Rightarrow> if c = CHR ''-'' then map_option (\<lambda>n. - int n) (hex_body r)
                else if c = CHR ''+'' then map_option int (hex_body r)
                else map_option int (hex_body t)
      | [] \<Rightarrow> None)"

section \<open>UUIDs as text\<close>

definition uuid_hex :: "uuid \<Rightarrow> string" where
  "uuid_hex u = hex_digits 32 (unat u)"

definition uuid_str :: "uuid \<Rightarrow> string" where
  "uuid_str u =
     (let h = uuid_hex u in
      take 8 h @ ''-'' @ take 4 (drop 8 h) @ ''-'' @ take 4 (drop 12 h) @ ''-''
      @ take 4 (drop 16 h) @ ''-'' @ drop 20 h)"

text \<open>\<open>UUID(s)\<close>; \<open>None\<close> is \<open>ValueError\<close>.\<close>

definition uuid_parse :: "string \<Rightarrow> uuid option" where
  "uuid_parse s =
     (let h = remove_all ''-'' (strip_by (\<lambda>c. c = CHR ''{'' \<or> c = CHR ''}'')
                (remove_all ''uuid:'' (remove_all ''urn:'' s))) in
      if length h \<noteq> 32 then None
      else case py_int16 h of
        None \<Rightarrow> None
      | Some i \<Rightarrow> if 0 \<le> i \<and> i < 2 ^ 128 then Some (of_int i) else None)"

section \<open>Facts about text\<close>

lemma fullmatch_SeqI: "fullmatch a s \<Longrightarrow> fullmatch b t \<Longrightarrow> fullmatch (Seq a b) (s @ t)"
  by (auto simp: list_ex_iff intro!: bexI [where x = "length s"])

lemma fullmatch_SeqE:
  assumes "fullmatch (Seq a b) s"
  obtains u v where "s = u @ v" and "fullmatch a u" and "fullmatch b v"
  using assms that [of "take i s" "drop i s" for i] by (auto simp: list_ex_iff)

lemma fullmatch_Cls_iff [simp]: "fullmatch (Cls p) s \<longleftrightarrow> (\<exists>c. s = [c] \<and> p c)"
  by (auto split: list.splits)

declare fullmatch.simps(1) [simp del] fullmatch.simps(4) [simp del]

lemma starts_with_append [simp]: "starts_with (p @ s) p"
  by (simp add: starts_with_def)

lemma starts_with_set: "starts_with s p \<Longrightarrow> set p \<subseteq> set s"
  by (metis starts_with_def set_take_subset)

lemma remove_all_absent: "\<not> set pat \<subseteq> set s \<Longrightarrow> remove_all pat s = s"
proof (induction s)
  case Nil
  then show ?case by (subst remove_all.simps) simp
next
  case (Cons c s)
  then have "\<not> starts_with (c # s) pat" and "\<not> set pat \<subseteq> set s"
    using starts_with_set by fastforce+
  with Cons.IH show ?case by (subst remove_all.simps) auto
qed

lemma remove_all_char: "remove_all [c] s = filter (\<lambda>x. x \<noteq> c) s"
proof (induction s)
  case Nil
  then show ?case by (subst remove_all.simps) simp
next
  case (Cons x s)
  then show ?case by (subst remove_all.simps) (auto simp: starts_with_def)
qed

lemma strip_by_id:
  assumes "s \<noteq> []" and "\<not> p (hd s)" and "\<not> p (last s)"
  shows "strip_by p s = s"
proof -
  have "dropWhile p s = s" using assms by (cases s) auto
  moreover have "dropWhile p (rev s) = rev s" using assms
    by (metis dropWhile_eq_self_iff hd_rev)
  ultimately show ?thesis by (simp add: strip_by_def)
qed

lemma strip_by_Nil_iff: "strip_by p s = [] \<longleftrightarrow> list_all p s"
proof -
  have "strip_by p s = [] \<longleftrightarrow> (\<forall>x \<in> set (dropWhile p s). p x)"
    by (simp add: strip_by_def dropWhile_eq_Nil_conv)
  also have "\<dots> \<longleftrightarrow> (\<forall>x \<in> set s. p x)"
    by (metis dropWhile_eq_Nil_conv hd_dropWhile hd_in_set set_dropWhileD)
  finally show ?thesis by (simp add: list_all_iff)
qed

subsection \<open>Hexadecimal digits\<close>

lemma ord_digit_char: "n < 16 \<Longrightarrow> ord (digit_char n) = (if n < 10 then 48 + n else 87 + n)"
  by (simp add: digit_char_def of_char_mod_256)

lemma lower_hex_digit_char: "n < 16 \<Longrightarrow> lower_hex (digit_char n)"
  by (auto simp: lower_hex_def ord_digit_char Let_def)

lemma hex_val_digit_char: "n < 16 \<Longrightarrow> hex_val (digit_char n) = Some n"
  by (auto simp: hex_val_def ord_digit_char Let_def)

lemma length_hex_digits [simp]: "length (hex_digits k n) = k"
  by (induction k arbitrary: n) auto

lemma hex_digits_lower_hex: "c \<in> set (hex_digits k n) \<Longrightarrow> lower_hex c"
  by (induction k arbitrary: n) (auto simp: lower_hex_digit_char)

lemma hex_scan_append_digit:
  "hex_scan prev acc s = Some m \<Longrightarrow> d < 16 \<Longrightarrow>
   hex_scan prev acc (s @ [digit_char d]) = Some (m * 16 + d)"
  by (induction prev acc s rule: hex_scan.induct)
    (auto simp: hex_val_digit_char split: option.splits if_splits)

lemma hex_scan_hex_digits:
  "0 < k \<Longrightarrow> hex_scan False 0 (hex_digits k n) = Some (n mod 16 ^ k)"
proof (induction k arbitrary: n)
  case 0
  then show ?case by simp
next
  case (Suc k)
  have eq: "n mod 16 ^ Suc k = (n div 16) mod 16 ^ k * 16 + n mod 16"
    using mod_mult2_eq [of n 16 "16 ^ k"] by simp
  show ?case
  proof (cases "k = 0")
    case True
    then show ?thesis by (simp add: hex_val_digit_char)
  next
    case False
    with Suc.IH have "hex_scan False 0 (hex_digits k (n div 16)) = Some ((n div 16) mod 16 ^ k)"
      by simp
    then have "hex_scan False 0 (hex_digits k (n div 16) @ [digit_char (n mod 16)])
      = Some ((n div 16) mod 16 ^ k * 16 + n mod 16)"
      by (intro hex_scan_append_digit) auto
    then show ?thesis by (simp only: hex_digits.simps eq)
  qed
qed

lemma lower_hex_not:
  "lower_hex c \<Longrightarrow> c \<noteq> CHR ''-'' \<and> c \<noteq> CHR ''+'' \<and> c \<noteq> CHR ''x'' \<and> c \<noteq> CHR ''X'' \<and> c \<noteq> CHR '':''
     \<and> c \<noteq> CHR ''{'' \<and> c \<noteq> CHR ''}'' \<and> \<not> py_space c"
  by (auto simp: lower_hex_def py_space_def Let_def)

lemma py_int16_hex_digits:
  assumes "0 < k" shows "py_int16 (hex_digits k n) = Some (int (n mod 16 ^ k))"
proof -
  let ?h = "hex_digits k n"
  have ne: "?h \<noteq> []" using assms by (metis length_0_conv length_hex_digits less_numeral_extra(3))
  have hex: "lower_hex c" if "c \<in> set ?h" for c using that by (rule hex_digits_lower_hex)
  have strip: "py_strip ?h = ?h"
    using ne lower_hex_not [OF hex [OF hd_in_set]] lower_hex_not [OF hex [OF last_in_set]]
    by (intro strip_by_id) auto
  obtain c r where h: "?h = c # r" using ne by (cases ?h) auto
  have c: "c \<noteq> CHR ''-'' \<and> c \<noteq> CHR ''+''" using hex [of c] lower_hex_not [of c] h by auto
  have "hex_body ?h = hex_scan False 0 ?h"
    using hex lower_hex_not h by (auto simp: hex_body_def split: list.splits)
  then have "hex_body ?h = Some (n mod 16 ^ k)"
    by (simp only: hex_scan_hex_digits [OF assms])
  with c strip show ?thesis
    by (simp add: py_int16_def Let_def h del: hex_digits.simps)
qed

subsection \<open>UUID text\<close>

lemma length_uuid_hex [simp]: "length (uuid_hex u) = 32"
  by (simp add: uuid_hex_def)

lemma uuid_str_chars: "c \<in> set (uuid_str u) \<Longrightarrow> lower_hex c \<or> c = CHR ''-''"
  by (auto simp: uuid_str_def Let_def uuid_hex_def dest!: in_set_takeD in_set_dropD
      dest: hex_digits_lower_hex)

lemma uuid_str_no_colon: "CHR '':'' \<notin> set (uuid_str u)"
  using uuid_str_chars lower_hex_not by fastforce

lemma length_uuid_str: "length (uuid_str u) = 36"
  by (simp add: uuid_str_def Let_def)

lemma uuid_hex_no_dash: "filter (\<lambda>x. x \<noteq> CHR ''-'') (uuid_hex u) = uuid_hex u"
  using hex_digits_lower_hex lower_hex_not by (auto simp: uuid_hex_def filter_id_conv)

lemma take_drop_chunk: "take n (drop m xs) @ drop (m + n) xs = drop m xs"
  by (metis append_take_drop_id drop_drop add.commute)

lemma uuid_str_undash: "filter (\<lambda>x. x \<noteq> CHR ''-'') (uuid_str u) = uuid_hex u"
proof -
  let ?h = "uuid_hex u" and ?P = "\<lambda>x. x \<noteq> CHR ''-''"
  have keep: "filter ?P t = t" if "set t \<subseteq> set ?h" for t
    using that uuid_hex_no_dash [of u] by (auto simp: filter_id_conv)
  have sub: "filter ?P (take i (drop j ?h)) = take i (drop j ?h)" for i j
    by (rule keep) (auto dest: in_set_takeD in_set_dropD)
  have subt: "filter ?P (take i ?h) = take i ?h" and subd: "filter ?P (drop i ?h) = drop i ?h" for i
    by (auto intro!: keep dest: in_set_takeD in_set_dropD)
  have "filter ?P (uuid_str u)
    = take 8 ?h @ take 4 (drop 8 ?h) @ take 4 (drop 12 ?h) @ take 4 (drop 16 ?h) @ drop 20 ?h"
    by (simp add: uuid_str_def Let_def sub subt subd)
  also have "\<dots> = ?h"
    using take_drop_chunk [of 4 16 ?h] take_drop_chunk [of 4 12 ?h] take_drop_chunk [of 4 8 ?h]
    by simp
  finally show ?thesis .
qed

lemma uuid_roundtrip: "uuid_parse (uuid_str u) = Some u"
proof -
  let ?s = "uuid_str u"
  have no: "CHR '':'' \<notin> set ?s" by (rule uuid_str_no_colon)
  have urn: "remove_all ''urn:'' ?s = ?s" and uid: "remove_all ''uuid:'' ?s = ?s"
    using no by (auto intro!: remove_all_absent)
  have "?s \<noteq> []" using length_uuid_str [of u] by auto
  then have "hd ?s \<in> set ?s" and "last ?s \<in> set ?s" by auto
  then have strip: "strip_by (\<lambda>c. c = CHR ''{'' \<or> c = CHR ''}'') ?s = ?s"
    using uuid_str_chars lower_hex_not \<open>?s \<noteq> []\<close> by (intro strip_by_id) fastforce+
  have "unat u < 2 ^ 128" using unsigned_less [of u, where ?'a = nat] by simp
  then have "unat u < 16 ^ 32" by simp
  then have int16: "py_int16 (uuid_hex u) = Some (uint u)"
    unfolding uuid_hex_def by (subst py_int16_hex_digits) auto
  show ?thesis
    using uint_lt2p [of u]
    by (simp add: uuid_parse_def urn uid strip remove_all_char uuid_str_undash int16)
qed

lemma uuid_str_inject [simp]: "uuid_str u = uuid_str v \<longleftrightarrow> u = v"
  by (metis option.inject uuid_roundtrip)

subsection \<open>Splitting and joining\<close>

lemma split_on_neq_Nil [simp]: "split_on c s \<noteq> []"
  by (induction c s rule: split_on.induct) (auto split: list.splits)

lemma join_with_Cons:
  "join_with sep (x # xs) = (if xs = [] then x else x @ sep @ join_with sep xs)"
  by (cases xs) auto

lemma join_split: "join_with [c] (split_on c s) = s"
proof (induction c s rule: split_on.induct)
  case (1 c)
  then show ?case by simp
next
  case (2 c x xs)
  then show ?case
    by (cases "split_on c xs") (auto simp: join_with_Cons)
qed

lemma split_on_no_sep: "c \<notin> set a \<Longrightarrow> split_on c a = [a]"
  by (induction a) auto

lemma split_on_Cons_sep: "c \<notin> set a \<Longrightarrow> split_on c (a @ c # b) = a # split_on c b"
  by (induction a) auto

lemma length_join_with:
  "xs \<noteq> [] \<Longrightarrow> length (join_with [c] xs) + 1 = sum_list (map length xs) + length xs"
  by (induction xs) (auto simp: join_with_Cons)

lemma sum_list_filter_le: "sum_list (map length (filter P xs)) \<le> sum_list (map length xs)"
  by (induction xs) auto

lemma length_filter_join_less:
  assumes "filter P xs \<noteq> []" and "filter P xs \<noteq> xs"
  shows "length (join_with [c] (filter P xs)) < length (join_with [c] xs)"
proof -
  have "length (filter P xs) < length xs"
    using assms(2) by (metis filter_True length_filter_less)
  moreover have "xs \<noteq> []" using assms(1) by auto
  ultimately show ?thesis
    using length_join_with [OF assms(1), of c] length_join_with [of xs c]
      sum_list_filter_le [of P xs] by linarith
qed

text \<open>
  A relative path that prints as itself has no empty, \<open>"."\<close> or dropped component: its
  parts are exactly its slash-separated components.
\<close>

lemma posix_normal_components:
  assumes "\<not> posix_is_absolute p" and "posix_str p = p" and "p \<noteq> ''.''"
  shows "posix_parts p = split_on (CHR ''/'') p"
    and "\<And>q. q \<in> set (split_on (CHR ''/'') p) \<Longrightarrow> q \<noteq> [] \<and> q \<noteq> ''.''"
proof -
  let ?xs = "split_on (CHR ''/'') p"
  let ?P = "\<lambda>q. q \<noteq> [] \<and> q \<noteq> ''.''"
  have slash: "\<not> starts_with p ''/''" using assms(1) by (simp add: posix_is_absolute_def)
  then have "\<not> starts_with p ''//''" by (cases p) (auto simp: starts_with_def)
  with slash have root: "posix_root p = []" by (simp add: posix_root_def)
  have "filter ?P ?xs = ?xs"
  proof (rule ccontr)
    assume neq: "filter ?P ?xs \<noteq> ?xs"
    show False
    proof (cases "filter ?P ?xs = []")
      case True
      with root assms(2,3) show False by (simp add: posix_str_def posix_tail_def Let_def)
    next
      case False
      from length_filter_join_less [OF False neq, of "CHR ''/''"]
      have less: "length (join_with ''/'' (filter ?P ?xs)) < length p" by (simp add: join_split)
      with root assms(2,3) show False
        by (auto simp: posix_str_def posix_tail_def Let_def split: if_splits)
    qed
  qed
  then show "posix_parts p = ?xs" using root by (simp add: posix_parts_def posix_tail_def)
  show "q \<noteq> [] \<and> q \<noteq> ''.''" if "q \<in> set ?xs" for q
    using that \<open>filter ?P ?xs = ?xs\<close> by (auto simp: filter_id_conv)
qed

end
