(* ===== verification/Errors.thy ===== *)
theory Errors
  imports PyText
begin

text \<open>
  The exceptions of the program as one datatype, the category each application error
  belongs to (\<open>application/errors.py\<close>, \<open>application/models/errors.py\<close>,
  \<open>application/runs/errors.py\<close>), the HTTP answer the API gives for each
  (\<open>api/errors.py\<close>), and which infrastructure failures a worker retries
  (\<open>infrastructure/retry.py\<close>).
\<close>

section \<open>Exceptions\<close>

record artifact =
  a_bucket :: string
  a_object_key :: string
  a_size_bytes :: int

text \<open>
  What \<open>is_retryable\<close> and the repositories read of a SQLAlchemy \<open>DBAPIError\<close>: its
  subclass, the driver's SQLSTATE and constraint name, and whether the connection was
  invalidated.
\<close>

datatype dbapi_kind = OperationalError | InterfaceError | IntegrityError | OtherDBAPIError

record db_error =
  e_kind :: dbapi_kind
  e_sqlstate :: "string option"
  e_constraint :: "string option"
  e_invalidated :: bool

datatype exn =
    ModelError string | ModelReleaseNotFound string
  | RunNotFound string | RunAccessDenied string | RunAdmissionExceeded string
  | RequesterNotFound string
  | AdministrationError string | AdminRequiredError string
  | InactiveUserError | UserProvisioningConfigurationError | IdentityProvisioningError
  | IdentityAlreadyAssignedError | InitialRoleNotFoundError string
  | InvalidAccessTokenError | IdentityProviderUnavailableError
  | FeedUnavailable | FeedLimitExceeded
  | InfrastructureUnavailable string | ExecutionFailure string "artifact list"
  | PublicationError string
  | DBAPIError db_error | KafkaException bool
  | HTTPException nat string
  | ValueError string | KeyError string | IndexError | TypeError | AttributeError | RuntimeError string

datatype category = NotFound | AccessDenied | InvalidInput | LimitExceeded

text \<open>The category class an exception inherits from; an \<open>AdministrationError\<close> has none.\<close>

fun category_of :: "exn \<Rightarrow> category option" where
  "category_of (ModelError _) = Some InvalidInput"
| "category_of (ModelReleaseNotFound _) = Some NotFound"
| "category_of (RunNotFound _) = Some NotFound"
| "category_of (RequesterNotFound _) = Some NotFound"
| "category_of (RunAccessDenied _) = Some AccessDenied"
| "category_of (AdminRequiredError _) = Some AccessDenied"
| "category_of (RunAdmissionExceeded _) = Some LimitExceeded"
| "category_of _ = None"

fun is_application_error :: "exn \<Rightarrow> bool" where
  "is_application_error (AdministrationError _) = True"
| "is_application_error e = (category_of e \<noteq> None)"

fun exn_message :: "exn \<Rightarrow> string" where
  "exn_message (ModelError m) = m"
| "exn_message (ModelReleaseNotFound m) = m"
| "exn_message (RunNotFound m) = m"
| "exn_message (RunAccessDenied m) = m"
| "exn_message (RunAdmissionExceeded m) = m"
| "exn_message (RequesterNotFound m) = m"
| "exn_message (AdministrationError m) = m"
| "exn_message (AdminRequiredError m) = m"
| "exn_message _ = []"

section \<open>HTTP answers\<close>

fun status_by_category :: "category \<Rightarrow> nat" where
  "status_by_category NotFound = 404"
| "status_by_category AccessDenied = 403"
| "status_by_category LimitExceeded = 429"
| "status_by_category InvalidInput = 422"

text \<open>
  The status and detail of a request that ended in an exception. FastAPI answers an
  \<open>HTTPException\<close> itself; an exception without a registered handler is a 500.
\<close>

definition http_answer :: "exn \<Rightarrow> nat \<times> string" where
  "http_answer e =
     (case category_of e of
        Some c \<Rightarrow> (status_by_category c, exn_message e)
      | None \<Rightarrow>
          (case e of
             DBAPIError _ \<Rightarrow> (503, ''Database access is unavailable.'')
           | HTTPException code detail \<Rightarrow> (code, detail)
           | _ \<Rightarrow> (500, ''Internal Server Error'')))"

section \<open>Retries\<close>

definition retryable_sqlstate_prefixes :: "string list" where
  "retryable_sqlstate_prefixes = [''08'', ''40'', ''53'']"

definition retryable_sqlstates :: "string list" where
  "retryable_sqlstates = [''55P03'', ''57014'', ''57P01'', ''57P02'', ''57P03'']"

fun is_retryable :: "exn \<Rightarrow> bool" where
  "is_retryable (KafkaException fatal) = (\<not> fatal)"
| "is_retryable (DBAPIError d) =
     (case e_sqlstate d of
        None \<Rightarrow> e_invalidated d \<or> e_kind d = OperationalError \<or> e_kind d = InterfaceError
      | Some code \<Rightarrow> e_invalidated d
          \<or> list_ex (starts_with code) retryable_sqlstate_prefixes
          \<or> code \<in> set retryable_sqlstates)"
| "is_retryable _ = False"

section \<open>Constraint violations\<close>

definition integrity_error :: "string \<Rightarrow> string \<Rightarrow> exn" where
  "integrity_error state constraint =
     DBAPIError \<lparr>e_kind = IntegrityError, e_sqlstate = Some state,
       e_constraint = Some constraint, e_invalidated = False\<rparr>"

abbreviation unique_violation :: "string \<Rightarrow> exn" where
  "unique_violation c \<equiv> integrity_error ''23505'' c"

abbreviation foreign_key_violation :: "string \<Rightarrow> exn" where
  "foreign_key_violation c \<equiv> integrity_error ''23503'' c"

abbreviation check_violation :: "string \<Rightarrow> exn" where
  "check_violation c \<equiv> integrity_error ''23514'' c"

text \<open>A value the column type cannot hold: out of range (22003) or too long (22001).\<close>

definition data_exception :: "string \<Rightarrow> exn" where
  "data_exception state = DBAPIError \<lparr>e_kind = OtherDBAPIError, e_sqlstate = Some state,
     e_constraint = None, e_invalidated = False\<rparr>"

section \<open>Facts\<close>

lemma integrity_error_not_retryable:
  assumes "state \<in> {''23505'', ''23503'', ''23514''}"
  shows "\<not> is_retryable (integrity_error state c)"
  using assms
  by (auto simp: integrity_error_def retryable_sqlstate_prefixes_def retryable_sqlstates_def
      starts_with_def)

lemma application_error_not_retryable: "is_application_error e \<Longrightarrow> \<not> is_retryable e"
  by (cases e) auto

end
