(* ===== verification/Json.thy ===== *)
theory Json
  imports PyText
begin

text \<open>
  JSON values as the code holds them (a \<open>dict\<close> keeps insertion order and has distinct
  keys; a \<open>float\<close> is its \<open>repr\<close>), the reads the code makes of them, and
  \<open>json.dumps\<close> with compact separators. Quoted text is uniquely readable, whatever
  follows it; the fingerprint's identity theorem rests on that.
\<close>

section \<open>Values\<close>

datatype json =
    JNull
  | JBool bool
  | JInt int
  | JFloat string
  | JStr string
  | JList "json list"
  | JObj "(string \<times> json) list"

type_synonym json_dict = "(string \<times> json) list"

fun as_dict :: "json \<Rightarrow> json_dict option" where
  "as_dict (JObj kvs) = Some kvs"
| "as_dict _ = None"

fun as_list :: "json \<Rightarrow> json list option" where
  "as_list (JList xs) = Some xs"
| "as_list _ = None"

fun as_str :: "json \<Rightarrow> string option" where
  "as_str (JStr s) = Some s"
| "as_str _ = None"

abbreviation keys_of :: "json_dict \<Rightarrow> string list" where
  "keys_of d \<equiv> map fst d"

section \<open>Serialisation\<close>

definition esc_char :: "bool \<Rightarrow> char \<Rightarrow> string" where
  "esc_char ascii c =
     (if c = CHR 0x22 then [CHR 0x5C, CHR 0x22]
      else if c = CHR 0x5C then [CHR 0x5C, CHR 0x5C]
      else if c = CHR 0x0A then [CHR 0x5C, CHR ''n'']
      else if c = CHR 0x0D then [CHR 0x5C, CHR ''r'']
      else if c = CHR 0x09 then [CHR 0x5C, CHR ''t'']
      else if c = CHR 0x0C then [CHR 0x5C, CHR ''f'']
      else if c = CHR 0x08 then [CHR 0x5C, CHR ''b'']
      else if ord c < 32 \<or> ascii \<and> 126 < ord c
      then [CHR 0x5C, CHR ''u''] @ hex_digits 4 (ord c)
      else [c])"

definition quote_str :: "bool \<Rightarrow> string \<Rightarrow> string" where
  "quote_str ascii s = CHR 0x22 # concat (map (esc_char ascii) s) @ [CHR 0x22]"

text \<open>
  \<open>json.dumps(value, sort_keys=sk, ensure_ascii=ascii, separators=(",", ":"))\<close>.
\<close>

primrec dumps :: "bool \<Rightarrow> bool \<Rightarrow> json \<Rightarrow> string" where
  "dumps sk ascii JNull = ''null''"
| "dumps sk ascii (JBool b) = (if b then ''true'' else ''false'')"
| "dumps sk ascii (JInt i) = show_int i"
| "dumps sk ascii (JFloat r) = r"
| "dumps sk ascii (JStr s) = quote_str ascii s"
| "dumps sk ascii (JList xs) = ''['' @ join_with '','' (map (dumps sk ascii) xs) @ '']''"
| "dumps sk ascii (JObj kvs) =
     (let rendered = map (map_prod id (dumps sk ascii)) kvs;
          items = (if sk then sort_key fst rendered else rendered)
      in ''{'' @ join_with '','' (map (\<lambda>(k, v). quote_str ascii k @ '':'' @ v) items) @ ''}'')"

section \<open>Unique readability\<close>

lemma hex_digits_4_inject:
  assumes "hex_digits 4 m @ u = hex_digits 4 n @ v" and "m < 65536" and "n < 65536"
  shows "m = n \<and> u = v"
proof -
  from assms(1) have eq: "hex_digits 4 m = hex_digits 4 n" and "u = v"
    by (metis append_eq_append_conv length_hex_digits)+
  from eq have "hex_scan False 0 (hex_digits 4 m) = hex_scan False 0 (hex_digits 4 n)" by simp
  then have "m mod 16 ^ 4 = n mod 16 ^ 4"
    by (metis hex_scan_hex_digits option.inject zero_less_numeral)
  with assms(2,3) \<open>u = v\<close> show ?thesis by simp
qed

lemma ord_less_256: "ord c < 256"
  by (metis of_char_mod_256 mod_less_divisor zero_less_numeral)

lemma ord_inject: "(ord c = ord d) = (c = d)"
  by (rule of_char_eq_iff)

lemma esc_char_prefix_free:
  assumes "esc_char ascii c @ u = esc_char ascii d @ v"
  shows "c = d \<and> u = v"
proof -
  have hex: "hex_digits 4 (ord c) @ u = hex_digits 4 (ord d) @ v \<Longrightarrow> c = d \<and> u = v"
    using hex_digits_4_inject [of "ord c" u "ord d" v] ord_less_256 [of c] ord_less_256 [of d]
    by (simp add: ord_inject)
  show ?thesis
    using assms hex unfolding esc_char_def by (auto split: if_splits)
qed

lemma esc_char_hd [simp]:
  "esc_char ascii c @ u \<noteq> CHR 0x22 # v"
  "CHR 0x22 # v \<noteq> esc_char ascii c @ u"
  by (auto simp: esc_char_def)

lemma escaped_cancel:
  "concat (map (esc_char ascii) s) @ CHR 0x22 # u = concat (map (esc_char ascii) t) @ CHR 0x22 # v
   \<longleftrightarrow> s = t \<and> u = v"
proof (induction s arbitrary: t)
  case Nil
  then show ?case by (cases t) simp_all
next
  case (Cons c s)
  show ?case
  proof (cases t)
    case Nil
    then show ?thesis by simp
  next
    case (Cons d t')
    then show ?thesis
      using Cons.IH [of t'] esc_char_prefix_free [of ascii c _ d] by auto
  qed
qed

lemma quote_str_cancel [simp]:
  "quote_str ascii s @ u = quote_str ascii t @ v \<longleftrightarrow> s = t \<and> u = v"
  by (simp add: quote_str_def escaped_cancel)

lemma quote_str_inject [simp]: "quote_str ascii s = quote_str ascii t \<longleftrightarrow> s = t"
  using quote_str_cancel [of ascii s "[]" t "[]"] by simp

lemma join_quoted_cancel:
  "join_with '','' (map (quote_str ascii) xs) @ CHR '']'' # u
     = join_with '','' (map (quote_str ascii) ys) @ CHR '']'' # v
   \<longleftrightarrow> xs = ys \<and> u = v"
proof (induction xs arbitrary: ys)
  case Nil
  then show ?case by (cases ys) (auto simp: quote_str_def join_with_Cons)
next
  case (Cons x xs)
  show ?case
  proof (cases ys)
    case Nil
    then show ?thesis by (auto simp: quote_str_def join_with_Cons)
  next
    case (Cons y ys')
    then show ?thesis using Cons.IH [of ys'] by (auto simp: join_with_Cons)
  qed
qed

end
