(* ===== verification/Model_Execution.thy ===== *)
theory Model_Execution
  imports Errors Json
begin

text \<open>
  Validated catalog execution choices: \<open>application/models/outputs.py\<close>,
  \<open>application/models/execution.py\<close> and \<open>application/models/catalog_changes.py\<close>.
  The lemmas give what validation guarantees of an accepted definition, that accepted
  definitions survive \<open>to_dict\<close> and \<open>from_dict\<close>, and that mode selection is
  all-or-nothing.
\<close>

section \<open>Required outputs\<close>

record output_requirements =
  required_files :: "string list"

text \<open>The characters \<open>\\*?[]\<close> of the wildcard check.\<close>

definition wildcard_chars :: "char list" where
  "wildcard_chars = [CHR 0x5C, CHR ''*'', CHR ''?'', CHR ''['', CHR '']'']"

definition bad_output_path :: "string \<Rightarrow> bool" where
  "bad_output_path path \<longleftrightarrow>
     posix_is_absolute path \<or> has_windows_drive path
     \<or> path = ''.'' \<or> ''..'' \<in> set (posix_parts path) \<or> posix_str path \<noteq> path
     \<or> list_ex (\<lambda>ch. ch \<in> set path) wildcard_chars
     \<or> list_ex (\<lambda>ch. ord ch < 32) path"

fun check_output_path :: "json \<Rightarrow> exn + string" where
  "check_output_path (JStr path) =
     (if path = [] then Inl (ModelError ''Required output paths must be nonempty strings.'')
      else if bad_output_path path
      then Inl (ModelError ''Required outputs must be normalized relative file paths without wildcards.'')
      else Inr path)"
| "check_output_path _ = Inl (ModelError ''Required output paths must be nonempty strings.'')"

fun outputs_from_list :: "json \<Rightarrow> exn + output_requirements" where
  "outputs_from_list (JList value) =
     bind_res (map_res check_output_path value) (\<lambda>paths.
     bind_res (require (distinct paths) (ModelError ''Required output paths must be unique.'')) (\<lambda>_.
     Inr \<lparr>required_files = sort paths\<rparr>))"
| "outputs_from_list _ = Inl (ModelError ''required_outputs must be a list of relative file paths.'')"

section \<open>Identifiers\<close>

definition key_pattern :: rx where
  "key_pattern = Seq (Cls lower_alnum)
     (Opt (Seq (Rep (\<lambda>c. lower_alnum c \<or> c = CHR ''-'') 0 (Some 61)) (Cls lower_alnum)))"

fun validate_key :: "json \<Rightarrow> exn + string" where
  "validate_key (JStr v) =
     (if fullmatch key_pattern v then Inr v
      else Inl (ModelError ''Model and mode identifiers must be lowercase path-safe names of up to 63 characters.''))"
| "validate_key _ =
     Inl (ModelError ''Model and mode identifiers must be lowercase path-safe names of up to 63 characters.'')"

section \<open>Invocations\<close>

record invocation =
  arguments :: "string list"
  working_directory :: string
  output_directory :: string
  output_requirements :: output_requirements

definition invocation_fields :: "string list" where
  "invocation_fields = [''arguments'', ''working_directory'', ''output_directory'']"

fun valid_argument :: "json \<Rightarrow> bool" where
  "valid_argument (JStr arg) = (arg \<noteq> [] \<and> CHR 0x00 \<notin> set arg)"
| "valid_argument _ = False"

fun check_arguments :: "json \<Rightarrow> exn + string list" where
  "check_arguments (JList args) =
     (if args = [] \<or> \<not> list_all valid_argument args
      then Inl (ModelError ''Execution arguments must be a nonempty list of strings.'')
      else Inr (List.map_filter as_str args))"
| "check_arguments _ = Inl (ModelError ''Execution arguments must be a nonempty list of strings.'')"

fun check_directory :: "json \<Rightarrow> exn + string" where
  "check_directory (JStr path) =
     (if CHR 0x00 \<in> set path \<or> \<not> posix_is_absolute path \<or> ''..'' \<in> set (posix_parts path)
      then Inl (ModelError ''Execution directories must be absolute container paths.'')
      else Inr path)"
| "check_directory _ = Inl (ModelError ''Execution directories must be absolute container paths.'')"

text \<open>
  \<open>Invocation.from_dict\<close>. The fields are present once the key check has passed, so the
  reads \<open>value[field]\<close> cannot fail.
\<close>

definition field_of :: "json_dict \<Rightarrow> string \<Rightarrow> json" where
  "field_of d k = (case map_of d k of Some v \<Rightarrow> v | None \<Rightarrow> JNull)"

fun invocation_from_dict :: "json \<Rightarrow> exn + invocation" where
  "invocation_from_dict (JObj value) =
     bind_res (require (set invocation_fields \<subseteq> set (keys_of value)
         \<and> set (keys_of value) - set invocation_fields - {''required_outputs''} = {})
       (ModelError ''Execution definition requires arguments, working_directory and output_directory.'')) (\<lambda>_.
     bind_res (check_arguments (field_of value ''arguments'')) (\<lambda>args.
     bind_res (check_directory (field_of value ''working_directory'')) (\<lambda>wd.
     bind_res (check_directory (field_of value ''output_directory'')) (\<lambda>od.
     bind_res (outputs_from_list (case map_of value ''required_outputs'' of Some v \<Rightarrow> v | None \<Rightarrow> JList [])) (\<lambda>req.
     Inr \<lparr>arguments = args, working_directory = wd, output_directory = od,
       output_requirements = req\<rparr>)))))"
| "invocation_from_dict _ =
     Inl (ModelError ''Execution definition requires arguments, working_directory and output_directory.'')"

definition computation_dict :: "invocation \<Rightarrow> json_dict" where
  "computation_dict i =
     [(''arguments'', JList (map JStr (arguments i))),
      (''working_directory'', JStr (working_directory i)),
      (''output_directory'', JStr (output_directory i))]"

definition invocation_to_dict :: "invocation \<Rightarrow> json_dict" where
  "invocation_to_dict i =
     (let files = required_files (output_requirements i) in
      computation_dict i
      @ (if files \<noteq> [] then [(''required_outputs'', JList (map JStr files))] else []))"

section \<open>Execution definitions\<close>

record execution_definition =
  modes :: "(string \<times> invocation) list"

definition check_mode :: "string \<times> json \<Rightarrow> exn + (string \<times> invocation)" where
  "check_mode kv =
     bind_res (validate_key (JStr (fst kv))) (\<lambda>key.
     bind_res (invocation_from_dict (snd kv)) (\<lambda>i. Inr (key, i)))"

fun definition_from_dict :: "json \<Rightarrow> exn + execution_definition" where
  "definition_from_dict (JObj value) =
     (if set (keys_of value) \<noteq> {''modes''}
      then Inl (ModelError ''Execution definition requires a modes object.'')
      else case field_of value ''modes'' of
        JObj ms \<Rightarrow>
          if ms = [] then Inl (ModelError ''At least one catalog mode is required.'')
          else bind_res (map_res check_mode ms) (\<lambda>checked. Inr \<lparr>modes = checked\<rparr>)
      | _ \<Rightarrow> Inl (ModelError ''At least one catalog mode is required.''))"
| "definition_from_dict _ = Inl (ModelError ''Execution definition requires a modes object.'')"

definition definition_to_dict :: "execution_definition \<Rightarrow> json" where
  "definition_to_dict d =
     JObj [(''modes'', JObj (map (map_prod id (\<lambda>i. JObj (invocation_to_dict i))) (modes d)))]"

definition sorted_modes :: "execution_definition \<Rightarrow> string list" where
  "sorted_modes d = sort (map fst (modes d))"

definition unsupported_mode :: "execution_definition \<Rightarrow> exn" where
  "unsupported_mode d =
     ModelError (''Unsupported mode; supported modes: '' @ join_with '', '' (sorted_modes d) @ ''.'')"

fun prepare :: "execution_definition \<Rightarrow> json \<Rightarrow> exn + json" where
  "prepare d (JObj parameters) =
     (if set (keys_of parameters) \<noteq> {''mode''}
      then Inl (ModelError ''Exactly the mode parameter is required.'')
      else case field_of parameters ''mode'' of
        JStr mode \<Rightarrow>
          if mode \<in> set (map fst (modes d)) then Inr (JObj [(''mode'', JStr mode)])
          else Inl (unsupported_mode d)
      | _ \<Rightarrow> Inl (unsupported_mode d))"
| "prepare d _ = Inl (ModelError ''Exactly the mode parameter is required.'')"

text \<open>\<open>self.modes[self.prepare(parameters)["mode"]]\<close>.\<close>

definition resolve :: "execution_definition \<Rightarrow> json \<Rightarrow> exn + invocation" where
  "resolve d parameters =
     bind_res (prepare d parameters) (\<lambda>p.
       case p of
         JObj kvs \<Rightarrow>
           (case map_of kvs ''mode'' of
              Some (JStr mode) \<Rightarrow>
                (case map_of (modes d) mode of Some i \<Rightarrow> Inr i | None \<Rightarrow> Inl (KeyError mode))
            | _ \<Rightarrow> Inl (KeyError ''mode''))
       | _ \<Rightarrow> Inl TypeError)"

definition parameter_metadata :: "execution_definition \<Rightarrow> json" where
  "parameter_metadata d =
     JObj [(''type'', JStr ''object''), (''additionalProperties'', JBool False),
       (''required'', JList [JStr ''mode'']),
       (''properties'', JObj [(''mode'', JObj [(''type'', JStr ''string''),
          (''enum'', JList (map JStr (sorted_modes d)))])])]"

section \<open>Protecting configuration in use\<close>

definition ensure_active_modes_unchanged ::
  "execution_definition \<Rightarrow> execution_definition \<Rightarrow> string list \<Rightarrow> exn + unit" where
  "ensure_active_modes_unchanged current proposed active_modes =
     for_each (\<lambda>mode.
       require (map_of (modes current) mode = map_of (modes proposed) mode)
         (ModelError (''Mode '' @ [CHR 0x27] @ mode @ [CHR 0x27]
           @ '' is used by accepted unfinished runs and cannot be changed.''))) active_modes"

section \<open>What validation guarantees\<close>

definition wf_output_path :: "string \<Rightarrow> bool" where
  "wf_output_path p \<longleftrightarrow> p \<noteq> [] \<and> \<not> bad_output_path p"

definition wf_directory :: "string \<Rightarrow> bool" where
  "wf_directory p \<longleftrightarrow> CHR 0x00 \<notin> set p \<and> posix_is_absolute p \<and> ''..'' \<notin> set (posix_parts p)"

definition wf_invocation :: "invocation \<Rightarrow> bool" where
  "wf_invocation i \<longleftrightarrow>
     arguments i \<noteq> [] \<and> list_all (\<lambda>a. a \<noteq> [] \<and> CHR 0x00 \<notin> set a) (arguments i)
     \<and> wf_directory (working_directory i) \<and> wf_directory (output_directory i)
     \<and> sorted (required_files (output_requirements i))
     \<and> distinct (required_files (output_requirements i))
     \<and> list_all wf_output_path (required_files (output_requirements i))"

definition wf_definition :: "execution_definition \<Rightarrow> bool" where
  "wf_definition d \<longleftrightarrow> modes d \<noteq> []
     \<and> list_all (\<lambda>(k, i). fullmatch key_pattern k \<and> wf_invocation i) (modes d)"

lemma key_pattern_iff:
  "fullmatch key_pattern v \<longleftrightarrow>
     v \<noteq> [] \<and> length v \<le> 63 \<and> lower_alnum (hd v) \<and> lower_alnum (last v)
     \<and> list_all (\<lambda>c. lower_alnum c \<or> c = CHR ''-'') v" (is "_ \<longleftrightarrow> ?R")
proof
  assume "fullmatch key_pattern v"
  then show ?R
    unfolding key_pattern_def
    by (auto elim!: fullmatch_SeqE simp: list_all_iff) blast
next
  assume r: ?R
  let ?mid = "Rep (\<lambda>c. lower_alnum c \<or> c = CHR ''-'') 0 (Some 61)"
  from r obtain a t where v: "v = a # t" by (cases v) auto
  show "fullmatch key_pattern v"
  proof (cases "t = []")
    case True
    have "fullmatch (Seq (Cls lower_alnum) (Opt (Seq ?mid (Cls lower_alnum)))) ([a] @ [])"
      by (rule fullmatch_SeqI) (use r v in auto)
    with True v show ?thesis by (simp add: key_pattern_def)
  next
    case False
    then have t: "t = butlast t @ [last t]" by simp
    have "fullmatch (Seq ?mid (Cls lower_alnum)) (butlast t @ [last t])"
      by (rule fullmatch_SeqI) (use r v False in \<open>auto simp: list_all_iff dest: in_set_butlastD\<close>)
    then have "fullmatch (Opt (Seq ?mid (Cls lower_alnum))) t" using t by simp
    then have "fullmatch (Seq (Cls lower_alnum) (Opt (Seq ?mid (Cls lower_alnum)))) ([a] @ t)"
      by (intro fullmatch_SeqI) (use r v in auto)
    with v show ?thesis by (simp add: key_pattern_def)
  qed
qed

lemma validate_key_Inr: "validate_key j = Inr v \<longleftrightarrow> j = JStr v \<and> fullmatch key_pattern v"
  by (cases j) auto

lemma check_output_path_Inr:
  "check_output_path j = Inr p \<longleftrightarrow> j = JStr p \<and> wf_output_path p"
  by (cases j) (auto simp: wf_output_path_def)

lemma map_res_check_output_path:
  "map_res check_output_path js = Inr ps \<longleftrightarrow> js = map JStr ps \<and> list_all wf_output_path ps"
proof (induction js arbitrary: ps)
  case Nil
  then show ?case by auto
next
  case (Cons j js)
  then show ?case by (cases ps) (auto simp: check_output_path_Inr)
qed

lemma outputs_from_list_Inr:
  "outputs_from_list j = Inr r \<longleftrightarrow>
     (\<exists>ps. j = JList (map JStr ps) \<and> list_all wf_output_path ps \<and> distinct ps
        \<and> r = \<lparr>required_files = sort ps\<rparr>)"
  by (cases j) (auto simp: map_res_check_output_path)

lemma check_directory_Inr: "check_directory j = Inr p \<longleftrightarrow> j = JStr p \<and> wf_directory p"
  by (cases j) (auto simp: wf_directory_def)

lemma check_arguments_Inr:
  "check_arguments j = Inr as \<longleftrightarrow>
     j = JList (map JStr as) \<and> as \<noteq> [] \<and> list_all (\<lambda>a. a \<noteq> [] \<and> CHR 0x00 \<notin> set a) as"
proof -
  have conv: "list_all valid_argument js \<Longrightarrow> map JStr (List.map_filter as_str js) = js" for js
  proof (induction js)
    case Nil
    then show ?case by (simp add: List.map_filter_def)
  next
    case (Cons j js)
    then show ?case by (cases j) (auto simp: List.map_filter_def)
  qed
  have strs: "List.map_filter as_str (map JStr xs) = xs" for xs
    by (induction xs) (auto simp: List.map_filter_def)
  have valid: "list_all valid_argument (map JStr xs) \<longleftrightarrow> list_all (\<lambda>a. a \<noteq> [] \<and> CHR 0x00 \<notin> set a) xs" for xs
    by (induction xs) auto
  show ?thesis
  proof (cases j)
    case (JList js)
    then show ?thesis
      using conv [of js] strs valid by (auto split: if_splits; metis)
  qed auto
qed

declare outputs_from_list.simps [simp del] check_arguments.simps [simp del]
  check_directory.simps [simp del]

lemma invocation_from_dict_wf:
  assumes "invocation_from_dict j = Inr i" shows "wf_invocation i"
  using assms
  by (cases j) (auto simp: wf_invocation_def check_arguments_Inr check_directory_Inr
      outputs_from_list_Inr list_all_iff)

lemma invocation_roundtrip:
  assumes "wf_invocation i"
  shows "invocation_from_dict (JObj (invocation_to_dict i)) = Inr i"
proof -
  let ?files = "required_files (output_requirements i)"
  let ?req = "case map_of (invocation_to_dict i) ''required_outputs'' of Some v \<Rightarrow> v | None \<Rightarrow> JList []"
  have "?req = JList (map JStr ?files)"
    by (auto simp: invocation_to_dict_def computation_dict_def Let_def)
  then have req: "outputs_from_list ?req = Inr (output_requirements i)"
    using assms
    by (auto simp: outputs_from_list_Inr wf_invocation_def sorted_sort_id
        intro!: exI [of _ "required_files (output_requirements i)"])
  have reads: "field_of (invocation_to_dict i) ''arguments'' = JList (map JStr (arguments i))"
    "field_of (invocation_to_dict i) ''working_directory'' = JStr (working_directory i)"
    "field_of (invocation_to_dict i) ''output_directory'' = JStr (output_directory i)"
    by (auto simp: field_of_def invocation_to_dict_def computation_dict_def Let_def)
  have keys: "set invocation_fields \<subseteq> set (keys_of (invocation_to_dict i))
      \<and> set (keys_of (invocation_to_dict i)) - set invocation_fields - {''required_outputs''} = {}"
    by (auto simp: invocation_fields_def invocation_to_dict_def computation_dict_def Let_def)
  have checks: "check_arguments (JList (map JStr (arguments i))) = Inr (arguments i)"
    "check_directory (JStr (working_directory i)) = Inr (working_directory i)"
    "check_directory (JStr (output_directory i)) = Inr (output_directory i)"
    using assms by (auto simp only: check_arguments_Inr check_directory_Inr wf_invocation_def)
  show ?thesis
    by (simp only: invocation_from_dict.simps reads checks req keys require_True bind_res.simps) simp
qed

declare invocation_from_dict.simps [simp del]

lemma check_mode_Inr:
  "check_mode kv = Inr (k, i) \<longleftrightarrow>
     fst kv = k \<and> fullmatch key_pattern k \<and> invocation_from_dict (snd kv) = Inr i"
  by (auto simp: check_mode_def split: if_splits)

lemma definition_from_dict_wf:
  assumes "definition_from_dict j = Inr d" shows "wf_definition d"
proof -
  from assms obtain ms checked where "ms \<noteq> []"
    and c: "map_res check_mode ms = Inr checked" and d: "d = \<lparr>modes = checked\<rparr>"
    by (cases j) (auto split: json.splits if_splits)
  from c have all2: "list_all2 (\<lambda>kv ki. check_mode kv = Inr ki) ms checked"
    by (simp add: map_res_Inr_iff)
  then have "checked \<noteq> []" using \<open>ms \<noteq> []\<close> by auto
  moreover have "fullmatch key_pattern k \<and> wf_invocation i" if "(k, i) \<in> set checked" for k i
  proof -
    from that all2 obtain kv where "check_mode kv = Inr (k, i)"
      by (metis (mono_tags, lifting) in_set_conv_nth list_all2_conv_all_nth)
    then show ?thesis by (auto simp: check_mode_Inr dest: invocation_from_dict_wf)
  qed
  ultimately show ?thesis using d by (auto simp: wf_definition_def list_all_iff)
qed

lemma definition_roundtrip:
  assumes "wf_definition d"
  shows "definition_from_dict (definition_to_dict d) = Inr d"
proof -
  let ?ms = "map (map_prod id (\<lambda>i. JObj (invocation_to_dict i))) (modes d)"
  have "map_res check_mode ?ms = Inr (modes d)"
  proof -
    have "check_mode (map_prod id (\<lambda>i. JObj (invocation_to_dict i)) ki) = Inr ki"
      if "ki \<in> set (modes d)" for ki
      using that assms
      by (cases ki) (auto simp: check_mode_Inr wf_definition_def list_all_iff intro!: invocation_roundtrip)
    then have "list_all2 (\<lambda>kv ki. check_mode kv = Inr ki) ?ms (modes d)"
      by (auto simp: list_all2_map1 list_all2_same)
    then show ?thesis by (simp add: map_res_Inr_iff)
  qed
  moreover have "?ms \<noteq> []" using assms by (simp add: wf_definition_def)
  ultimately show ?thesis
    by (simp add: definition_to_dict_def field_of_def)
qed

section \<open>Mode selection\<close>

abbreviation mode_params :: "string \<Rightarrow> json" where
  "mode_params m \<equiv> JObj [(''mode'', JStr m)]"

lemma prepare_Inr:
  assumes "prepare d p = Inr q"
  obtains m where "q = mode_params m" and "m \<in> set (map fst (modes d))"
  using assms by (cases p) (auto split: json.splits if_splits)

lemma prepare_mode_params:
  "prepare d (mode_params m) =
     (if m \<in> set (map fst (modes d)) then Inr (mode_params m) else Inl (unsupported_mode d))"
  by (simp add: field_of_def)

lemma prepare_error_is_ModelError: "prepare d p = Inl e \<Longrightarrow> \<exists>msg. e = ModelError msg"
  by (cases p) (auto simp: unsupported_mode_def split: json.splits if_splits)

lemma resolve_mode_params:
  "resolve d (mode_params m) =
     (case map_of (modes d) m of Some i \<Rightarrow> Inr i | None \<Rightarrow> Inl (unsupported_mode d))"
proof (cases "map_of (modes d) m")
  case None
  then have "m \<notin> set (map fst (modes d))" by (simp add: map_of_eq_None_iff)
  with None show ?thesis by (simp add: resolve_def prepare_mode_params del: prepare.simps)
next
  case (Some i)
  then have "m \<in> set (map fst (modes d))" by (force dest: map_of_SomeD)
  with Some show ?thesis by (simp add: resolve_def prepare_mode_params del: prepare.simps)
qed

lemma resolve_error:
  assumes "resolve d p = Inl e" shows "\<exists>msg. e = ModelError msg"
proof (cases "prepare d p")
  case (Inl e')
  with assms show ?thesis by (auto simp: resolve_def dest: prepare_error_is_ModelError)
next
  case (Inr q)
  then obtain m where m: "q = mode_params m" "m \<in> set (map fst (modes d))" by (rule prepare_Inr)
  then obtain i where "map_of (modes d) m = Some i" by (metis map_of_eq_None_iff option.exhaust set_map)
  with assms Inr m(1) show ?thesis by (simp add: resolve_def)
qed

lemma ensure_active_modes_unchanged_Inr:
  "ensure_active_modes_unchanged c p ms = Inr u \<longleftrightarrow>
     (\<forall>m \<in> set ms. map_of (modes c) m = map_of (modes p) m)"
  by (simp add: ensure_active_modes_unchanged_def for_each_Inr_iff)

section \<open>Every rejected definition is a model error\<close>

lemma validate_key_error: "validate_key j = Inl e \<Longrightarrow> \<exists>msg. e = ModelError msg"
  by (cases j) (auto split: if_splits)

lemma check_output_path_error: "check_output_path j = Inl e \<Longrightarrow> \<exists>msg. e = ModelError msg"
  by (cases j) (auto split: if_splits)

lemma outputs_from_list_error: "outputs_from_list j = Inl e \<Longrightarrow> \<exists>msg. e = ModelError msg"
  by (cases j) (auto simp: outputs_from_list.simps bind_res_Inl_iff
      dest!: map_res_InlD dest: check_output_path_error)

lemma check_arguments_error: "check_arguments j = Inl e \<Longrightarrow> \<exists>msg. e = ModelError msg"
  by (cases j) (auto simp: check_arguments.simps split: if_splits)

lemma check_directory_error: "check_directory j = Inl e \<Longrightarrow> \<exists>msg. e = ModelError msg"
  by (cases j) (auto simp: check_directory.simps split: if_splits)

lemma invocation_from_dict_error: "invocation_from_dict j = Inl e \<Longrightarrow> \<exists>msg. e = ModelError msg"
  by (cases j) (auto simp: invocation_from_dict.simps bind_res_Inl_iff
      dest: check_arguments_error check_directory_error outputs_from_list_error)

lemma definition_from_dict_error:
  assumes "definition_from_dict j = Inl e" shows "\<exists>msg. e = ModelError msg"
proof -
  have mode: "\<exists>msg. e = ModelError msg" if "check_mode kv = Inl e" for kv
    using that invocation_from_dict_error
    by (auto simp: check_mode_def bind_res_Inl_iff split: if_splits)
  with assms show ?thesis
    by (cases j) (auto simp: bind_res_Inl_iff split: json.splits if_splits dest!: map_res_InlD)
qed

end
