(* ===== verification/Catalog.thy ===== *)
theory Catalog
  imports Model_Execution
begin

text \<open>
  Catalog registration and public metadata (\<open>application/models/catalog.py\<close>). A
  \<open>Catalog\<close> port is the argument of the use cases; \<open>Model_Catalog\<close> provides it on the
  database. The lemmas say what a registered configuration satisfies and that the public
  listing shows every release exactly once, under its model.
\<close>

section \<open>Definitions and releases\<close>

record release_definition =
  rd_model_id :: string
  rd_display_name :: string
  rd_image_digest :: string
  rd_execution_definition :: execution_definition

record model_release =
  mr_id :: uuid
  mr_definition :: release_definition

record release_summary =
  rs_id :: uuid
  rs_image_digest :: string
  rs_parameters :: json

record model_summary =
  ms_id :: string
  ms_display_name :: string
  ms_releases :: "release_summary list"

section \<open>Registration\<close>

definition digest_pattern :: rx where
  "digest_pattern = Seq (Rep (\<lambda>c. \<not> py_space c \<and> c \<noteq> CHR ''@'') 1 None)
     (Seq (Lit ''@sha256:'') (Rep lower_hex 64 (Some 64)))"

definition release_fields :: "string list" where
  "release_fields = [''model_id'', ''display_name'', ''image_digest'', ''execution_definition'']"

fun nonblank_str :: "json \<Rightarrow> bool" where
  "nonblank_str (JStr s) = (py_strip s \<noteq> [])"
| "nonblank_str _ = False"

definition str_field :: "json_dict \<Rightarrow> string \<Rightarrow> string" where
  "str_field d k = (case field_of d k of JStr s \<Rightarrow> s | _ \<Rightarrow> [])"

fun release_config :: "json \<Rightarrow> exn + release_definition" where
  "release_config (JObj config) =
     bind_res (require (set (keys_of config) = set release_fields)
       (ModelError ''Invalid release configuration fields.'')) (\<lambda>_.
     bind_res (for_each (\<lambda>field. require (nonblank_str (field_of config field))
         (ModelError ''Model identifier, display name and image must be nonempty strings.''))
       [''model_id'', ''display_name'', ''image_digest'']) (\<lambda>_.
     bind_res (validate_key (field_of config ''model_id'')) (\<lambda>_.
     bind_res (require (fullmatch digest_pattern (str_field config ''image_digest''))
       (ModelError ''The image must be pinned to a lowercase SHA-256 digest.'')) (\<lambda>_.
     bind_res (definition_from_dict (field_of config ''execution_definition'')) (\<lambda>d.
     Inr \<lparr>rd_model_id = str_field config ''model_id'',
       rd_display_name = str_field config ''display_name'',
       rd_image_digest = str_field config ''image_digest'', rd_execution_definition = d\<rparr>)))))"
| "release_config _ = Inl (ModelError ''Invalid release configuration fields.'')"

definition register_release ::
  "(release_definition \<Rightarrow> 's \<Rightarrow> (exn + model_release) \<times> 's) \<Rightarrow> json \<Rightarrow> 's
   \<Rightarrow> (exn + model_release) \<times> 's" where
  "register_release register config s =
     (case release_config config of Inl e \<Rightarrow> (Inl e, s) | Inr d \<Rightarrow> register d s)"

section \<open>Public listing\<close>

definition summarize_release :: "model_release \<Rightarrow> release_summary" where
  "summarize_release r =
     \<lparr>rs_id = mr_id r, rs_image_digest = rd_image_digest (mr_definition r),
      rs_parameters = parameter_metadata (rd_execution_definition (mr_definition r))\<rparr>"

text \<open>
  One round of the loop over the releases: \<open>setdefault\<close> inserts a model the first time its
  identifier is seen, then the release is appended to that model's list.
\<close>

definition add_release :: "(string \<times> model_summary) list \<Rightarrow> model_release \<Rightarrow> (string \<times> model_summary) list" where
  "add_release models release =
     (let d = mr_definition release;
          model = (case map_of models (rd_model_id d) of
                     Some m \<Rightarrow> m
                   | None \<Rightarrow> \<lparr>ms_id = rd_model_id d, ms_display_name = rd_display_name d, ms_releases = []\<rparr>)
      in AList.update (rd_model_id d)
           (model\<lparr>ms_releases := ms_releases model @ [summarize_release release]\<rparr>) models)"

definition list_models :: "model_release list \<Rightarrow> model_summary list" where
  "list_models releases = map snd (foldl add_release [] releases)"

section \<open>What a registered configuration satisfies\<close>

definition wf_release :: "release_definition \<Rightarrow> bool" where
  "wf_release d \<longleftrightarrow> fullmatch key_pattern (rd_model_id d)
     \<and> py_strip (rd_display_name d) \<noteq> []
     \<and> fullmatch digest_pattern (rd_image_digest d)
     \<and> wf_definition (rd_execution_definition d)"

lemma nonblank_str_field: "nonblank_str (field_of d k) \<Longrightarrow> py_strip (str_field d k) \<noteq> []"
  by (auto simp: str_field_def elim: nonblank_str.elims)

lemma release_config_wf:
  assumes "release_config j = Inr d" shows "wf_release d"
proof (cases j)
  case (JObj config)
  from assms JObj obtain v ex where
    blank: "nonblank_str (field_of config ''display_name'')"
    and key: "validate_key (field_of config ''model_id'') = Inr v"
    and dig: "fullmatch digest_pattern (str_field config ''image_digest'')"
    and ex: "definition_from_dict (field_of config ''execution_definition'') = Inr ex"
    and d: "d = \<lparr>rd_model_id = str_field config ''model_id'',
       rd_display_name = str_field config ''display_name'',
       rd_image_digest = str_field config ''image_digest'', rd_execution_definition = ex\<rparr>"
    by auto
  have "fullmatch key_pattern (str_field config ''model_id'')"
    using key by (simp add: validate_key_Inr str_field_def)
  with d dig nonblank_str_field [OF blank] definition_from_dict_wf [OF ex] show ?thesis
    by (simp add: wf_release_def)
qed (use assms in auto)

section \<open>The listing shows every release once\<close>

definition listing_inv :: "(string \<times> model_summary) list \<Rightarrow> model_release list \<Rightarrow> bool" where
  "listing_inv ms rs \<longleftrightarrow>
     distinct (map fst ms) \<and> set (map fst ms) = (\<lambda>r. rd_model_id (mr_definition r)) ` set rs
     \<and> (\<forall>k m. map_of ms k = Some m \<longrightarrow> ms_id m = k
          \<and> ms_releases m = map summarize_release (filter (\<lambda>r. rd_model_id (mr_definition r) = k) rs))"

lemma listing_inv_absent:
  assumes "listing_inv ms rs" and "map_of ms k = None"
  shows "filter (\<lambda>r. rd_model_id (mr_definition r) = k) rs = []"
proof -
  have "k \<notin> set (map fst ms)" using assms(2) by (simp add: map_of_eq_None_iff)
  then have "k \<notin> (\<lambda>r. rd_model_id (mr_definition r)) ` set rs"
    using assms(1) by (simp only: listing_inv_def simp_thms)
  then show ?thesis by (auto simp: filter_empty_conv)
qed

lemma map_of_add_release:
  "map_of (add_release ms r) k =
     (if k = rd_model_id (mr_definition r)
      then Some (case map_of ms k of
          Some m \<Rightarrow> m\<lparr>ms_releases := ms_releases m @ [summarize_release r]\<rparr>
        | None \<Rightarrow> \<lparr>ms_id = k, ms_display_name = rd_display_name (mr_definition r),
            ms_releases = [summarize_release r]\<rparr>)
      else map_of ms k)"
  by (auto simp: add_release_def Let_def update_conv' split: option.splits)

lemma listing_inv_step:
  assumes "listing_inv ms rs" shows "listing_inv (add_release ms r) (rs @ [r])"
proof -
  let ?k = "rd_model_id (mr_definition r)"
  let ?of = "\<lambda>k. filter (\<lambda>r. rd_model_id (mr_definition r) = k)"
  have "distinct (map fst (add_release ms r))"
    using assms by (simp add: listing_inv_def add_release_def Let_def distinct_update)
  moreover have "set (map fst (add_release ms r)) = (\<lambda>r. rd_model_id (mr_definition r)) ` set (rs @ [r])"
    using assms by (simp add: listing_inv_def add_release_def Let_def dom_update)
  moreover have "ms_id m = k \<and> ms_releases m = map summarize_release (?of k (rs @ [r]))"
    if "map_of (add_release ms r) k = Some m" for k m
  proof (cases "map_of ms k")
    case None
    with that listing_inv_absent [OF assms None] show ?thesis
      by (auto simp: map_of_add_release split: if_splits)
  next
    case (Some m')
    with assms have "ms_id m' = k \<and> ms_releases m' = map summarize_release (?of k rs)"
      by (simp add: listing_inv_def)
    with that Some show ?thesis by (auto simp: map_of_add_release split: if_splits)
  qed
  ultimately show ?thesis by (simp only: listing_inv_def) blast
qed

lemma listing_inv_foldl:
  "listing_inv ms rs \<Longrightarrow> listing_inv (foldl add_release ms rs') (rs @ rs')"
proof (induction rs' arbitrary: ms rs)
  case Nil
  then show ?case by simp
next
  case (Cons r rs')
  then show ?case using Cons.IH [OF listing_inv_step [OF Cons.prems, of r]] by simp
qed

lemma list_models_inv: "listing_inv (foldl add_release [] rs) rs"
  using listing_inv_foldl [of "[]" "[]" rs] by (simp add: listing_inv_def)

text \<open>
  The listing has one entry per model that has a release, and each entry shows exactly its
  model's releases, in order.
\<close>

lemma list_models_complete:
  "distinct (map ms_id (list_models rels))
   \<and> set (map ms_id (list_models rels)) = (\<lambda>r. rd_model_id (mr_definition r)) ` set rels
   \<and> (\<forall>m \<in> set (list_models rels).
        ms_releases m = map summarize_release (filter (\<lambda>r. rd_model_id (mr_definition r) = ms_id m) rels))"
proof -
  let ?ms = "foldl add_release [] rels"
  note inv = list_models_inv [of rels, unfolded listing_inv_def]
  have pair: "ms_id m = k" if "(k, m) \<in> set ?ms" for k m
    using inv that by (metis map_of_is_SomeI)
  have ids: "map ms_id (list_models rels) = map fst ?ms"
    unfolding list_models_def map_map using pair by (intro map_cong) auto
  have "ms_releases m = map summarize_release (filter (\<lambda>r. rd_model_id (mr_definition r) = ms_id m) rels)"
    if "m \<in> set (list_models rels)" for m
  proof -
    from that obtain k where "(k, m) \<in> set ?ms" by (auto simp: list_models_def)
    with inv show ?thesis by (metis map_of_is_SomeI)
  qed
  then show ?thesis unfolding ids using inv by blast
qed

end
