(* ===== verification/Sha256.thy ===== *)
theory Sha256
  imports PyText
begin

text \<open>
  \<open>hashlib.sha256(text.encode("utf-8")).hexdigest()\<close> (FIPS 180-4) on 32-bit words: the
  fingerprint of a run is such a digest. The theory models the standard library, so its
  definitions have no counterpart in the repository. What the components use of it is that
  it is a function into strings of 64 lowercase hexadecimal characters, the shape the
  \<open>runs\<close> table requires of a fingerprint.
\<close>

unbundle bit_operations_syntax

section \<open>UTF-8\<close>

definition utf8_char :: "char \<Rightarrow> 8 word list" where
  "utf8_char c = (let n = ord c in
     if n < 128 then [of_nat n] else [of_nat (192 + n div 64), of_nat (128 + n mod 64)])"

definition utf8_encode :: "string \<Rightarrow> 8 word list" where
  "utf8_encode s = concat (map utf8_char s)"

section \<open>The compression function\<close>

text \<open>The constants of the standard, in decimal.\<close>

definition sha256_K :: "32 word list" where
  "sha256_K =
    [1116352408, 1899447441, 3049323471, 3921009573, 961987163, 1508970993, 2453635748, 2870763221,
     3624381080, 310598401, 607225278, 1426881987, 1925078388, 2162078206, 2614888103, 3248222580,
     3835390401, 4022224774, 264347078, 604807628, 770255983, 1249150122, 1555081692, 1996064986,
     2554220882, 2821834349, 2952996808, 3210313671, 3336571891, 3584528711, 113926993, 338241895,
     666307205, 773529912, 1294757372, 1396182291, 1695183700, 1986661051, 2177026350, 2456956037,
     2730485921, 2820302411, 3259730800, 3345764771, 3516065817, 3600352804, 4094571909, 275423344,
     430227734, 506948616, 659060556, 883997877, 958139571, 1322822218, 1537002063, 1747873779,
     1955562222, 2024104815, 2227730452, 2361852424, 2428436474, 2756734187, 3204031479, 3329325298]"

definition sha256_H0 :: "32 word list" where
  "sha256_H0 =
    [1779033703, 3144134277, 1013904242, 2773480762, 1359893119, 2600822924, 528734635, 1541459225]"

definition ssig0 :: "32 word \<Rightarrow> 32 word" where
  "ssig0 x = word_rotr 7 x XOR word_rotr 18 x XOR drop_bit 3 x"

definition ssig1 :: "32 word \<Rightarrow> 32 word" where
  "ssig1 x = word_rotr 17 x XOR word_rotr 19 x XOR drop_bit 10 x"

definition bsig0 :: "32 word \<Rightarrow> 32 word" where
  "bsig0 x = word_rotr 2 x XOR word_rotr 13 x XOR word_rotr 22 x"

definition bsig1 :: "32 word \<Rightarrow> 32 word" where
  "bsig1 x = word_rotr 6 x XOR word_rotr 11 x XOR word_rotr 25 x"

definition ch :: "32 word \<Rightarrow> 32 word \<Rightarrow> 32 word \<Rightarrow> 32 word" where
  "ch x y z = (x AND y) XOR (NOT x AND z)"

definition maj :: "32 word \<Rightarrow> 32 word \<Rightarrow> 32 word \<Rightarrow> 32 word" where
  "maj x y z = (x AND y) XOR (x AND z) XOR (y AND z)"

text \<open>The message schedule, kept newest first: \<open>w ! 0\<close> is \<open>W (t - 1)\<close>.\<close>

fun schedule :: "nat \<Rightarrow> 32 word list \<Rightarrow> 32 word list" where
  "schedule 0 w = w"
| "schedule (Suc n) w =
     schedule n ((ssig1 (w ! 1) + w ! 6 + ssig0 (w ! 14) + w ! 15) # w)"

fun sha256_round :: "32 word list \<Rightarrow> 32 word \<times> 32 word \<Rightarrow> 32 word list" where
  "sha256_round [a, b, c, d, e, f, g, h] (k, w) =
     (let t1 = h + bsig1 e + ch e f g + k + w; t2 = bsig0 a + maj a b c
      in [t1 + t2, a, b, c, d + t1, e, f, g])"
| "sha256_round s _ = s"

definition sha256_compress :: "32 word list \<Rightarrow> 32 word list \<Rightarrow> 32 word list" where
  "sha256_compress h block =
     map2 (+) h (foldl sha256_round h (zip sha256_K (rev (schedule 48 (rev block)))))"

section \<open>Padding and blocks\<close>

definition be_bytes :: "nat \<Rightarrow> nat \<Rightarrow> 8 word list" where
  "be_bytes k n = map (\<lambda>i. of_nat (n div 256 ^ i)) (rev [0..<k])"

definition sha256_pad :: "8 word list \<Rightarrow> 8 word list" where
  "sha256_pad m =
     (let l = length m in
      m @ [0x80] @ replicate ((119 - l mod 64) mod 64) 0 @ be_bytes 8 (8 * l))"

fun words_of_bytes :: "8 word list \<Rightarrow> 32 word list" where
  "words_of_bytes (a # b # c # d # r) =
     (push_bit 24 (ucast a) + push_bit 16 (ucast b) + push_bit 8 (ucast c) + ucast d)
       # words_of_bytes r"
| "words_of_bytes _ = []"

function blocks16 :: "32 word list \<Rightarrow> 32 word list list" where
  "blocks16 ws = (if ws = [] then [] else take 16 ws # blocks16 (drop 16 ws))"
  by pat_completeness auto
termination
  by (relation "measure length") auto

declare blocks16.simps [simp del]

definition sha256_words :: "8 word list \<Rightarrow> 32 word list" where
  "sha256_words m = foldl sha256_compress sha256_H0 (blocks16 (words_of_bytes (sha256_pad m)))"

definition sha256_hexdigest :: "string \<Rightarrow> string" where
  "sha256_hexdigest s = concat (map (\<lambda>w. hex_digits 8 (unat w)) (sha256_words (utf8_encode s)))"

section \<open>The digest is 64 lowercase hexadecimal characters\<close>

lemma length_sha256_round: "length (sha256_round s kw) = length s"
  by (induction s kw rule: sha256_round.induct) (auto simp: Let_def)

lemma length_foldl_round: "length (foldl sha256_round s kws) = length s"
  by (induction kws arbitrary: s) (auto simp: length_sha256_round)

lemma length_compress: "length (sha256_compress h b) = length h"
  by (simp add: sha256_compress_def length_foldl_round)

lemma length_foldl_compress: "length (foldl sha256_compress h bs) = length h"
  by (induction bs arbitrary: h) (auto simp: length_compress)

lemma length_sha256_words: "length (sha256_words m) = 8"
  by (simp add: sha256_words_def length_foldl_compress sha256_H0_def)

lemma length_sha256_hexdigest [simp]: "length (sha256_hexdigest s) = 64"
proof -
  have "length (concat (map (\<lambda>w. hex_digits 8 (unat w)) ws)) = 8 * length ws" for ws :: "32 word list"
    by (induction ws) auto
  then show ?thesis by (simp add: sha256_hexdigest_def length_sha256_words)
qed

lemma sha256_hexdigest_lower_hex: "list_all lower_hex (sha256_hexdigest s)"
  by (auto simp: sha256_hexdigest_def list_all_iff dest: hex_digits_lower_hex)

end
