(* ===== verification/Fingerprint.thy ===== *)
theory Fingerprint
  imports Catalog Sha256
begin

text \<open>
  Computation identity (\<open>application/runs/fingerprint.py\<close>): the SHA-256 digest of the
  canonical JSON of the model, the pinned image, the selected invocation and the effective
  parameters. The canonical text determines each of those parts, and nothing else.
\<close>

section \<open>The code\<close>

fun py_getitem :: "json \<Rightarrow> string \<Rightarrow> exn + json" where
  "py_getitem (JObj d) k = (case map_of d k of Some v \<Rightarrow> Inr v | None \<Rightarrow> Inl (KeyError k))"
| "py_getitem _ k = Inl TypeError"

definition fingerprint_payload :: "release_definition \<Rightarrow> json \<Rightarrow> exn + json" where
  "fingerprint_payload release parameters =
     bind_res (py_getitem parameters ''mode'') (\<lambda>mode.
     bind_res (resolve (rd_execution_definition release) (JObj [(''mode'', mode)])) (\<lambda>i.
     Inr (JObj [(''model_id'', JStr (rd_model_id release)),
       (''image_digest'', JStr (rd_image_digest release)),
       (''execution_definition'', JObj (computation_dict i)),
       (''parameters'', parameters)])))"

abbreviation canonical :: "json \<Rightarrow> string" where
  "canonical \<equiv> dumps True False"

definition fingerprint :: "release_definition \<Rightarrow> json \<Rightarrow> exn + string" where
  "fingerprint release parameters =
     bind_res (fingerprint_payload release parameters) (\<lambda>payload.
       Inr (sha256_hexdigest (canonical payload)))"

text \<open>Only a \<open>ModelError\<close> is answered with \<open>False\<close>; any other exception propagates.\<close>

definition matches_fingerprint :: "release_definition \<Rightarrow> json \<Rightarrow> string \<Rightarrow> exn + bool" where
  "matches_fingerprint release parameters expected =
     (case fingerprint release parameters of
        Inr f \<Rightarrow> Inr (f = expected)
      | Inl (ModelError _) \<Rightarrow> Inr False
      | Inl e \<Rightarrow> Inl e)"

section \<open>The canonical text of a run\<close>

definition run_text :: "string \<Rightarrow> string \<Rightarrow> invocation \<Rightarrow> string \<Rightarrow> string" where
  "run_text model_id img i m =
     canonical (JObj [(''model_id'', JStr model_id), (''image_digest'', JStr img),
       (''execution_definition'', JObj (computation_dict i)), (''parameters'', mode_params m)])"

definition run_digest :: "string \<Rightarrow> string \<Rightarrow> invocation \<Rightarrow> string \<Rightarrow> string" where
  "run_digest model_id img i m = sha256_hexdigest (run_text model_id img i m)"

lemma fingerprint_mode_params:
  "fingerprint r (mode_params m) =
     (case map_of (modes (rd_execution_definition r)) m of
        Some i \<Rightarrow> Inr (run_digest (rd_model_id r) (rd_image_digest r) i m)
      | None \<Rightarrow> Inl (unsupported_mode (rd_execution_definition r)))"
  by (simp add: fingerprint_def fingerprint_payload_def resolve_mode_params run_digest_def
      run_text_def split: option.splits del: dumps.simps)

lemma matches_mode_params:
  "matches_fingerprint r (mode_params m) f =
     Inr (case map_of (modes (rd_execution_definition r)) m of
        Some i \<Rightarrow> run_digest (rd_model_id r) (rd_image_digest r) i m = f
      | None \<Rightarrow> False)"
  by (simp add: matches_fingerprint_def fingerprint_mode_params unsupported_mode_def
      split: option.splits)

lemma run_text_unfold:
  "run_text model_id img i m =
     ''{'' @ quote_str False ''execution_definition'' @ '':{'' @ quote_str False ''arguments'' @ '':[''
     @ join_with '','' (map (quote_str False) (arguments i)) @ ''],''
     @ quote_str False ''output_directory'' @ '':'' @ quote_str False (output_directory i) @ '',''
     @ quote_str False ''working_directory'' @ '':'' @ quote_str False (working_directory i) @ ''},''
     @ quote_str False ''image_digest'' @ '':'' @ quote_str False img @ '',''
     @ quote_str False ''model_id'' @ '':'' @ quote_str False model_id @ '',''
     @ quote_str False ''parameters'' @ '':{'' @ quote_str False ''mode'' @ '':''
     @ quote_str False m @ ''}}''"
proof -
  have q: "map (dumps True False) (map JStr xs) = map (quote_str False) xs" for xs
    by simp
  show ?thesis
    by (simp add: run_text_def computation_dict_def Let_def q del: map_map)
qed

section \<open>Unique readability of the canonical text\<close>

text \<open>
  The canonical text of a run determines the model, the image, the computed part of the
  invocation and the mode; required outputs are not part of it.
\<close>

lemma run_text_inject:
  "run_text model_id img i m = run_text model_id' img' i' m' \<longleftrightarrow>
     model_id = model_id' \<and> img = img' \<and> m = m'
     \<and> arguments i = arguments i' \<and> working_directory i = working_directory i'
     \<and> output_directory i = output_directory i'"
  by (auto simp: run_text_unfold join_quoted_cancel)

lemma run_text_ignores_requirements:
  "run_text model_id img (i\<lparr>output_requirements := r\<rparr>) m = run_text model_id img i m"
  by (simp add: run_text_inject)

lemma length_run_digest [simp]: "length (run_digest a b i m) = 64"
  by (simp add: run_digest_def)

lemma run_digest_lower_hex: "list_all lower_hex (run_digest a b i m)"
  by (simp add: run_digest_def sha256_hexdigest_lower_hex)

lemma fingerprint_shape:
  "fingerprint r p = Inr f \<Longrightarrow> length f = 64 \<and> list_all lower_hex f"
  by (auto simp: fingerprint_def sha256_hexdigest_lower_hex)

end
