(* ===== verification/Database.thy ===== *)
theory Database
  imports Fingerprint
begin

text \<open>
  The tables of the platform (\<open>infrastructure/persistence/execution.py\<close>, \<open>users.py\<close>,
  \<open>roles.py\<close>, \<open>rejections.py\<close>), the run status (\<open>application/runs/status.py\<close>), the
  row-to-application conversions (\<open>mappers.py\<close>) and the shared terminal write
  (\<open>run_outcomes.py\<close>). A table is the list of its rows in insertion order; inserts
  enforce the schema's constraints. Values the environment supplies (clocks, \<open>uuid4\<close>) are
  arguments.
\<close>

section \<open>Run status\<close>

datatype run_status = QUEUED | RUNNING | SUCCEEDED | FAILED

fun status_str :: "run_status \<Rightarrow> string" where
  "status_str QUEUED = ''queued''"
| "status_str RUNNING = ''running''"
| "status_str SUCCEEDED = ''succeeded''"
| "status_str FAILED = ''failed''"

definition active_statuses :: "run_status list" where
  "active_statuses = [QUEUED, RUNNING]"

definition terminal_statuses :: "run_status list" where
  "terminal_statuses = [SUCCEEDED, FAILED]"

text \<open>The lifecycle as an order: a run only ever moves upwards in it.\<close>

instantiation run_status :: order
begin

definition less_eq_run_status :: "run_status \<Rightarrow> run_status \<Rightarrow> bool" where
  "less_eq_run_status a b \<longleftrightarrow> a = b \<or> a = QUEUED \<or> a = RUNNING \<and> b \<noteq> QUEUED"

definition less_run_status :: "run_status \<Rightarrow> run_status \<Rightarrow> bool" where
  "less_run_status a b \<longleftrightarrow> a \<le> b \<and> \<not> b \<le> (a :: run_status)"

instance
  by standard (auto simp: less_eq_run_status_def less_run_status_def)

end

section \<open>Rows\<close>

record model_row =
  m_id :: string
  m_display_name :: string

record release_row =
  rel_id :: uuid
  rel_model_id :: string
  rel_image_digest :: string
  rel_execution_definition :: json
  rel_created_at :: timestamp

record run_row =
  r_id :: uuid
  r_model_release_id :: uuid
  r_requested_by :: "uuid option"
  r_parameters :: json
  r_fingerprint :: string
  r_status :: run_status
  r_accepted_at :: "timestamp option"
  r_failure_code :: "string option"
  r_dispatch_started_at :: "timestamp option"
  r_finished_at :: "timestamp option"
  r_job_namespace :: "string option"
  r_job_uid :: "string option"
  r_created_at :: timestamp

record artifact_row =
  ar_run_id :: uuid
  ar_object_key :: string
  ar_bucket :: string
  ar_size_bytes :: int

record outbox_row =
  ob_id :: uuid
  ob_run_id :: uuid
  ob_event_type :: string
  ob_created_at :: timestamp
  ob_published_at :: "timestamp option"

record rejected_row =
  rj_topic :: string
  rj_partition :: int
  rj_offset :: int
  rj_reason_code :: string
  rj_diagnostic :: string
  rj_recorded_at :: timestamp

record user_row =
  u_id :: uuid
  u_email :: "string option"
  u_display_name :: "string option"
  u_is_active :: bool
  u_created_at :: timestamp
  u_updated_at :: timestamp

record identity_row =
  i_issuer :: string
  i_subject :: string
  i_user_id :: uuid
  i_created_at :: timestamp

record role_row =
  ro_name :: string
  ro_description :: string
  ro_created_at :: timestamp

record user_role_row =
  ur_user_id :: uuid
  ur_role_name :: string
  ur_assigned_at :: timestamp

record db =
  models_t :: "model_row list"
  releases_t :: "release_row list"
  runs_t :: "run_row list"
  artifacts_t :: "artifact_row list"
  outbox_t :: "outbox_row list"
  rejected_t :: "rejected_row list"
  users_t :: "user_row list"
  identities_t :: "identity_row list"
  roles_t :: "role_row list"
  user_roles_t :: "user_role_row list"

text \<open>
  What one transaction draws from its environment: \<open>datetime.now(timezone.utc)\<close>, the
  server's \<open>now()\<close> and a \<open>uuid4()\<close> for the row it inserts.
\<close>

record stamp =
  st_clock :: timestamp
  st_txtime :: timestamp
  st_uuid :: uuid

section \<open>Selecting and updating\<close>

abbreviation find_run :: "uuid \<Rightarrow> db \<Rightarrow> run_row option" where
  "find_run i d \<equiv> find_by r_id i (runs_t d)"

abbreviation find_release :: "uuid \<Rightarrow> db \<Rightarrow> release_row option" where
  "find_release i d \<equiv> find_by rel_id i (releases_t d)"

abbreviation find_model :: "string \<Rightarrow> db \<Rightarrow> model_row option" where
  "find_model i d \<equiv> find_by m_id i (models_t d)"

definition update_run :: "uuid \<Rightarrow> (run_row \<Rightarrow> run_row) \<Rightarrow> db \<Rightarrow> db" where
  "update_run i f d = d\<lparr>runs_t := update_by r_id i f (runs_t d)\<rparr>"

abbreviation run_order :: "run_row \<Rightarrow> timestamp \<times> uuid" where
  "run_order r \<equiv> (r_created_at r, r_id r)"

definition running_count :: "db \<Rightarrow> nat" where
  "running_count d = count_where (\<lambda>r. r_status r = RUNNING) (runs_t d)"

definition active_count :: "db \<Rightarrow> nat" where
  "active_count d = count_where (\<lambda>r. r_status r \<in> set active_statuses) (runs_t d)"

definition owned_active_count :: "uuid option \<Rightarrow> db \<Rightarrow> nat" where
  "owned_active_count owner d =
     count_where (\<lambda>r. r_status r \<in> set active_statuses \<and> r_requested_by r = owner) (runs_t d)"

section \<open>Inserting\<close>

definition insert_outbox :: "stamp \<Rightarrow> uuid \<Rightarrow> string \<Rightarrow> db \<Rightarrow> exn + db" where
  "insert_outbox st run_id event_type d =
     (if st_uuid st \<in> ob_id ` set (outbox_t d) then Inl (unique_violation ''pk_outbox_events'')
      else if run_id \<notin> r_id ` set (runs_t d)
      then Inl (foreign_key_violation ''fk_outbox_events_run_id_runs'')
      else Inr (d\<lparr>outbox_t := outbox_t d @
        [\<lparr>ob_id = st_uuid st, ob_run_id = run_id, ob_event_type = event_type,
          ob_created_at = st_txtime st, ob_published_at = None\<rparr>]\<rparr>))"

definition insert_artifact :: "uuid \<Rightarrow> artifact \<Rightarrow> db \<Rightarrow> exn + db" where
  "insert_artifact run_id a d =
     (if a_size_bytes a \<ge> 2 ^ 63 \<or> a_size_bytes a < - (2 ^ 63) then Inl (data_exception ''22003'')
      else if a_size_bytes a < 0
      then Inl (check_violation ''ck_run_artifacts_artifact_size_nonnegative'')
      else if (run_id, a_object_key a) \<in> (\<lambda>r. (ar_run_id r, ar_object_key r)) ` set (artifacts_t d)
      then Inl (unique_violation ''pk_run_artifacts'')
      else if run_id \<notin> r_id ` set (runs_t d)
      then Inl (foreign_key_violation ''fk_run_artifacts_run_id_runs'')
      else Inr (d\<lparr>artifacts_t := artifacts_t d @
        [\<lparr>ar_run_id = run_id, ar_object_key = a_object_key a, ar_bucket = a_bucket a,
          ar_size_bytes = a_size_bytes a\<rparr>]\<rparr>))"

fun insert_artifacts :: "uuid \<Rightarrow> artifact list \<Rightarrow> db \<Rightarrow> exn + db" where
  "insert_artifacts run_id [] d = Inr d"
| "insert_artifacts run_id (a # as) d =
     bind_res (insert_artifact run_id a d) (insert_artifacts run_id as)"

section \<open>Terminal outcomes\<close>

text \<open>Truth of an optional string: neither \<open>None\<close> nor empty.\<close>

definition truthy :: "string option \<Rightarrow> bool" where
  "truthy s \<longleftrightarrow> s \<noteq> None \<and> s \<noteq> Some []"

definition outcome_status :: "string option \<Rightarrow> run_status" where
  "outcome_status failure_code = (if truthy failure_code then FAILED else SUCCEEDED)"

definition finish_row :: "stamp \<Rightarrow> run_row \<Rightarrow> string option \<Rightarrow> artifact list \<Rightarrow> db \<Rightarrow> exn + db" where
  "finish_row st row failure_code artifacts d =
     (if r_status row \<in> set terminal_statuses then Inr d
      else
        (let status = outcome_status failure_code;
             d1 = update_run (r_id row) (\<lambda>r. r\<lparr>r_status := status, r_failure_code := failure_code,
                    r_finished_at := Some (st_clock st)\<rparr>) d
         in bind_res (insert_artifacts (r_id row) artifacts d1)
              (insert_outbox st (r_id row) (''run.'' @ status_str status))))"

section \<open>Row conversions\<close>

definition release_of_rows :: "model_row \<Rightarrow> release_row \<Rightarrow> exn + release_definition" where
  "release_of_rows model release =
     bind_res (definition_from_dict (rel_execution_definition release)) (\<lambda>ex.
       Inr \<lparr>rd_model_id = m_id model, rd_display_name = m_display_name model,
         rd_image_digest = rel_image_digest release, rd_execution_definition = ex\<rparr>)"

text \<open>A missing model row would make \<open>model.id\<close> an \<open>AttributeError\<close>.\<close>

definition load_release_definition :: "db \<Rightarrow> release_row \<Rightarrow> exn + release_definition" where
  "load_release_definition d release =
     (case find_model (rel_model_id release) d of
        None \<Rightarrow> Inl AttributeError
      | Some model \<Rightarrow> release_of_rows model release)"

end
