(* ===== verification/Users.thy ===== *)
theory Users
  imports Database
begin

text \<open>
  Users: resolving an authenticated identity (\<open>application/users/resolve_current_user.py\<close>,
  \<open>user_account.py\<close>, \<open>ports.py\<close>), the account repository
  (\<open>infrastructure/persistence/user_accounts.py\<close>), administration
  (\<open>application/users/administration.py\<close>, \<open>user_administration.py\<close>) and the seeded roles.
  A new identity becomes a member and never more; only an operator's grant makes an
  administrator; an identity stays with one account whatever races happen.
\<close>

section \<open>Data\<close>

record validated_identity =
  vi_issuer :: string
  vi_subject :: string
  vi_email :: "string option"
  vi_display_name :: "string option"
  vi_expires_at :: "int option"

record user_account =
  ua_id :: uuid
  ua_email :: "string option"
  ua_display_name :: "string option"
  ua_is_active :: bool
  ua_roles :: "string set"

record user_profile_updates =
  up_email :: "string option"
  up_display_name :: "string option"

definition has_changes :: "user_profile_updates \<Rightarrow> bool" where
  "has_changes u \<longleftrightarrow> up_email u \<noteq> None \<or> up_display_name u \<noteq> None"

record current_user =
  cu_id :: uuid
  cu_email :: "string option"
  cu_display_name :: "string option"
  cu_roles :: "string list"

definition ADMIN_ROLE :: string where "ADMIN_ROLE = ''admin''"
definition MEMBER_ROLE :: string where "MEMBER_ROLE = ''member''"

definition seeded_roles :: "timestamp \<Rightarrow> timestamp \<Rightarrow> role_row list" where
  "seeded_roles t1 t2 =
     [\<lparr>ro_name = ''member'', ro_description = ''Default non-elevated MIC3 member role.'', ro_created_at = t1\<rparr>,
      \<lparr>ro_name = ''admin'', ro_description = ''Explicitly granted MIC3 administrator role.'', ro_created_at = t2\<rparr>]"

section \<open>Resolving the current user\<close>

definition as_current_user :: "user_account \<Rightarrow> exn + current_user" where
  "as_current_user a =
     (if \<not> ua_is_active a then Inl InactiveUserError
      else Inr \<lparr>cu_id = ua_id a, cu_email = ua_email a, cu_display_name = ua_display_name a,
        cu_roles = sorted_list_of_set (ua_roles a)\<rparr>)"

definition profile_updates :: "user_account \<Rightarrow> validated_identity \<Rightarrow> user_profile_updates" where
  "profile_updates a i =
     \<lparr>up_email = (if vi_email i \<noteq> None \<and> vi_email i \<noteq> ua_email a then vi_email i else None),
      up_display_name = (if vi_display_name i \<noteq> None \<and> vi_display_name i \<noteq> ua_display_name a
        then vi_display_name i else None)\<rparr>"

definition synchronize_profile ::
  "(user_account \<Rightarrow> user_profile_updates \<Rightarrow> 's \<Rightarrow> exn + (user_account \<times> 's)) \<Rightarrow> user_account
   \<Rightarrow> validated_identity \<Rightarrow> 's \<Rightarrow> exn + (user_account \<times> 's)" where
  "synchronize_profile update_profile a i s =
     (if \<not> ua_is_active a then Inl InactiveUserError
      else let u = profile_updates a i in
        if \<not> has_changes u then Inr (a, s) else update_profile a u s)"

definition and_current :: "user_account \<times> 's \<Rightarrow> exn + (current_user \<times> 's)" where
  "and_current as = bind_res (as_current_user (fst as)) (\<lambda>c. Inr (c, snd as))"

text \<open>
  \<open>_resolve_once\<close>: \<open>seen\<close> is the state the lookup read, \<open>s\<close> the state the
  writes meet, which other transactions may have changed since.
\<close>

definition resolve_once ::
  "(string \<Rightarrow> string \<Rightarrow> 's \<Rightarrow> user_account option)
   \<Rightarrow> (validated_identity \<Rightarrow> string \<Rightarrow> 's \<Rightarrow> exn + (user_account \<times> 's))
   \<Rightarrow> (user_account \<Rightarrow> user_profile_updates \<Rightarrow> 's \<Rightarrow> exn + (user_account \<times> 's))
   \<Rightarrow> validated_identity \<Rightarrow> 's \<Rightarrow> 's \<Rightarrow> exn + (current_user \<times> 's)" where
  "resolve_once lookup create update_profile i seen s =
     bind_res (case lookup (vi_issuer i) (vi_subject i) seen of
         None \<Rightarrow> create i MEMBER_ROLE s
       | Some a \<Rightarrow> synchronize_profile update_profile a i s) and_current"

definition resolve_again ::
  "(string \<Rightarrow> string \<Rightarrow> 's \<Rightarrow> user_account option)
   \<Rightarrow> (user_account \<Rightarrow> user_profile_updates \<Rightarrow> 's \<Rightarrow> exn + (user_account \<times> 's))
   \<Rightarrow> validated_identity \<Rightarrow> 's \<Rightarrow> 's \<Rightarrow> exn + (current_user \<times> 's)" where
  "resolve_again lookup update_profile i seen s =
     bind_res (case lookup (vi_issuer i) (vi_subject i) seen of
         None \<Rightarrow> Inl IdentityProvisioningError
       | Some a \<Rightarrow> synchronize_profile update_profile a i s) and_current"

text \<open>
  \<open>ResolveCurrentUser.execute\<close>: \<open>during1\<close> is what other transactions commit between the
  lookup and the writes of the first transaction, \<open>during2\<close> before the second one starts.
  \<open>update1\<close> and \<open>update2\<close> are \<open>update_profile\<close> at the two transactions' times.
\<close>

definition resolve_current_user ::
  "(string \<Rightarrow> string \<Rightarrow> 's \<Rightarrow> user_account option)
   \<Rightarrow> (validated_identity \<Rightarrow> string \<Rightarrow> 's \<Rightarrow> exn + (user_account \<times> 's))
   \<Rightarrow> (user_account \<Rightarrow> user_profile_updates \<Rightarrow> 's \<Rightarrow> exn + (user_account \<times> 's))
   \<Rightarrow> (user_account \<Rightarrow> user_profile_updates \<Rightarrow> 's \<Rightarrow> exn + (user_account \<times> 's))
   \<Rightarrow> ('s \<Rightarrow> 's) \<Rightarrow> ('s \<Rightarrow> 's) \<Rightarrow> validated_identity \<Rightarrow> 's \<Rightarrow> (exn + current_user) \<times> 's" where
  "resolve_current_user lookup create update1 update2 during1 during2 i s =
     (case transaction (resolve_once lookup create update1 i s) (during1 s) of
        (Inr c, s1) \<Rightarrow> (Inr c, s1)
      | (Inl e, s1) \<Rightarrow>
          (case e of
             IdentityAlreadyAssignedError \<Rightarrow> transaction (resolve_again lookup update2 i (during2 s1)) (during2 s1)
           | InitialRoleNotFoundError _ \<Rightarrow> (Inl UserProvisioningConfigurationError, s1)
           | _ \<Rightarrow> (Inl e, s1)))"

section \<open>The account repository\<close>

definition identity_key :: "identity_row \<Rightarrow> string \<times> string" where
  "identity_key r = (i_issuer r, i_subject r)"

definition user_role_key :: "user_role_row \<Rightarrow> uuid \<times> string" where
  "user_role_key r = (ur_user_id r, ur_role_name r)"

definition roles_of :: "uuid \<Rightarrow> db \<Rightarrow> string set" where
  "roles_of u d = set (map ur_role_name (filter (\<lambda>r. ur_user_id r = u) (user_roles_t d)))"

definition account_of_row :: "user_row \<Rightarrow> db \<Rightarrow> user_account" where
  "account_of_row u d = \<lparr>ua_id = u_id u, ua_email = u_email u, ua_display_name = u_display_name u,
     ua_is_active = u_is_active u, ua_roles = roles_of (u_id u) d\<rparr>"

text \<open>The role names are read \<open>if row.role_name\<close>, which drops an empty name.\<close>

definition find_by_identity :: "string \<Rightarrow> string \<Rightarrow> db \<Rightarrow> user_account option" where
  "find_by_identity issuer subject d =
     (case find_by identity_key (issuer, subject) (identities_t d) of
        None \<Rightarrow> None
      | Some r \<Rightarrow>
          (case find_by u_id (i_user_id r) (users_t d) of
             None \<Rightarrow> None
           | Some u \<Rightarrow> Some ((account_of_row u d)\<lparr>ua_roles := roles_of (u_id u) d - {[]}\<rparr>)))"

definition insert_user :: "stamp \<Rightarrow> string option \<Rightarrow> string option \<Rightarrow> db \<Rightarrow> exn + (user_row \<times> db)" where
  "insert_user st email name d =
     (if st_uuid st \<in> u_id ` set (users_t d) then Inl (unique_violation ''pk_users'')
      else
        (let u = \<lparr>u_id = st_uuid st, u_email = email, u_display_name = name, u_is_active = True,
               u_created_at = st_txtime st, u_updated_at = st_txtime st\<rparr>
         in Inr (u, d\<lparr>users_t := users_t d @ [u]\<rparr>)))"

definition insert_identity :: "stamp \<Rightarrow> string \<Rightarrow> string \<Rightarrow> uuid \<Rightarrow> db \<Rightarrow> exn + db" where
  "insert_identity st issuer subject u d =
     (if length subject > 255 then Inl (data_exception ''22001'')
      else if (issuer, subject) \<in> identity_key ` set (identities_t d)
      then Inl (unique_violation ''pk_user_identities'')
      else if u \<notin> u_id ` set (users_t d) then Inl (foreign_key_violation ''fk_user_identities_user_id_users'')
      else Inr (d\<lparr>identities_t := identities_t d @
        [\<lparr>i_issuer = issuer, i_subject = subject, i_user_id = u, i_created_at = st_txtime st\<rparr>]\<rparr>))"

definition insert_user_role :: "stamp \<Rightarrow> uuid \<Rightarrow> string \<Rightarrow> db \<Rightarrow> exn + db" where
  "insert_user_role st u role d =
     (if (u, role) \<in> user_role_key ` set (user_roles_t d) then Inl (unique_violation ''pk_user_roles'')
      else if role \<notin> ro_name ` set (roles_t d) then Inl (foreign_key_violation ''fk_user_roles_role_name_roles'')
      else if u \<notin> u_id ` set (users_t d) then Inl (foreign_key_violation ''fk_user_roles_user_id_users'')
      else Inr (d\<lparr>user_roles_t := user_roles_t d @
        [\<lparr>ur_user_id = u, ur_role_name = role, ur_assigned_at = st_txtime st\<rparr>]\<rparr>))"

text \<open>An \<open>IntegrityError\<close> on the identity's primary key means another request was first.\<close>

fun identity_conflict :: "exn \<Rightarrow> exn" where
  "identity_conflict (DBAPIError e) =
     (if e_kind e = IntegrityError \<and> e_constraint e = Some ''pk_user_identities''
      then IdentityAlreadyAssignedError else DBAPIError e)"
| "identity_conflict e = e"

definition create_with_identity_and_role ::
  "stamp \<Rightarrow> validated_identity \<Rightarrow> string \<Rightarrow> db \<Rightarrow> exn + (user_account \<times> db)" where
  "create_with_identity_and_role st i role d =
     (if role \<notin> ro_name ` set (roles_t d) then Inl (InitialRoleNotFoundError role)
      else bind_res (insert_user st (vi_email i) (vi_display_name i) d) (\<lambda>(u, d1).
        case bind_res (insert_identity st (vi_issuer i) (vi_subject i) (u_id u) d1)
            (insert_user_role st (u_id u) role) of
          Inl e \<Rightarrow> Inl (identity_conflict e)
        | Inr d2 \<Rightarrow> Inr (\<lparr>ua_id = u_id u, ua_email = u_email u, ua_display_name = u_display_name u,
            ua_is_active = u_is_active u, ua_roles = {role}\<rparr>, d2)))"

definition apply_updates :: "user_profile_updates \<Rightarrow> user_account \<Rightarrow> user_account" where
  "apply_updates u a = a\<lparr>ua_email := (if up_email u \<noteq> None then up_email u else ua_email a),
     ua_display_name := (if up_display_name u \<noteq> None then up_display_name u else ua_display_name a)\<rparr>"

definition update_user_row :: "stamp \<Rightarrow> user_profile_updates \<Rightarrow> user_row \<Rightarrow> user_row" where
  "update_user_row st u r = r\<lparr>u_email := (if up_email u \<noteq> None then up_email u else u_email r),
     u_display_name := (if up_display_name u \<noteq> None then up_display_name u else u_display_name r),
     u_updated_at := st_txtime st\<rparr>"

definition update_profile ::
  "stamp \<Rightarrow> user_account \<Rightarrow> user_profile_updates \<Rightarrow> db \<Rightarrow> exn + (user_account \<times> db)" where
  "update_profile st a u d =
     Inr (apply_updates u a,
       if has_changes u
       then d\<lparr>users_t := update_by u_id (ua_id a) (update_user_row st u) (users_t d)\<rparr> else d)"

definition current_user_of ::
  "stamp \<Rightarrow> stamp \<Rightarrow> (db \<Rightarrow> db) \<Rightarrow> (db \<Rightarrow> db) \<Rightarrow> validated_identity \<Rightarrow> db \<Rightarrow> (exn + current_user) \<times> db" where
  "current_user_of st st' =
     resolve_current_user find_by_identity (create_with_identity_and_role st) (update_profile st) (update_profile st')"

section \<open>Administration\<close>

definition find_for_grant :: "uuid \<Rightarrow> db \<Rightarrow> user_account option" where
  "find_for_grant u d = map_option (\<lambda>r. account_of_row r d) (find_by u_id u (users_t d))"

definition add_role :: "stamp \<Rightarrow> uuid \<Rightarrow> string \<Rightarrow> db \<Rightarrow> exn + (bool \<times> db)" where
  "add_role st u role d =
     (if (u, role) \<in> user_role_key ` set (user_roles_t d) then Inr (False, d)
      else bind_res (insert_user_role st u role d) (\<lambda>d'. Inr (True, d')))"

definition grant_body :: "stamp \<Rightarrow> uuid \<Rightarrow> db \<Rightarrow> exn + (bool \<times> db)" where
  "grant_body st u d =
     (case find_for_grant u d of
        None \<Rightarrow> Inl (AdministrationError ''The MIC3 user does not exist.'')
      | Some a \<Rightarrow>
          if \<not> ua_is_active a then Inl (AdministrationError ''The MIC3 user is inactive.'')
          else if ADMIN_ROLE \<notin> ro_name ` set (roles_t d)
          then Inl (AdministrationError ''The admin role is missing; apply migrations.'')
          else add_role st u ADMIN_ROLE d)"

definition grant_admin :: "stamp \<Rightarrow> uuid \<Rightarrow> db \<Rightarrow> (exn + bool) \<times> db" where
  "grant_admin st u = transaction (grant_body st u)"

definition list_users :: "current_user \<Rightarrow> int \<Rightarrow> int \<Rightarrow> db \<Rightarrow> exn + user_account list" where
  "list_users caller limit offset d =
     (if ADMIN_ROLE \<notin> set (cu_roles caller)
      then Inl (AdminRequiredError ''MIC3 administrator access is required.'')
      else if \<not> (1 \<le> limit \<and> limit \<le> 100) \<or> offset < 0 then Inl (ValueError ''Invalid pagination.'')
      else Inr (map (\<lambda>u. account_of_row u d)
        (paginate (nat limit) (nat offset) (sort_key u_id (users_t d)))))"

section \<open>The invariant\<close>

definition wf_users :: "db \<Rightarrow> bool" where
  "wf_users d \<longleftrightarrow> distinct (map u_id (users_t d)) \<and> distinct (map identity_key (identities_t d))
     \<and> distinct (map user_role_key (user_roles_t d))
     \<and> i_user_id ` set (identities_t d) \<subseteq> u_id ` set (users_t d)
     \<and> ur_user_id ` set (user_roles_t d) \<subseteq> u_id ` set (users_t d)
     \<and> ur_role_name ` set (user_roles_t d) \<subseteq> ro_name ` set (roles_t d) \<and> [] \<notin> ro_name ` set (roles_t d)"

lemma wf_usersD:
  assumes "wf_users d"
  shows "distinct (map u_id (users_t d))" and "distinct (map identity_key (identities_t d))"
    and "distinct (map user_role_key (user_roles_t d))"
    and "i_user_id ` set (identities_t d) \<subseteq> u_id ` set (users_t d)"
    and "ur_user_id ` set (user_roles_t d) \<subseteq> u_id ` set (users_t d)"
    and "ur_role_name ` set (user_roles_t d) \<subseteq> ro_name ` set (roles_t d)" and "[] \<notin> ro_name ` set (roles_t d)"
  using assms unfolding wf_users_def by blast+

lemma roles_of_nonempty: "wf_users d \<Longrightarrow> [] \<notin> roles_of u d"
  using wf_usersD(6,7) [of d] by (force simp: roles_of_def)

lemma roles_of_snoc:
  "user_roles_t d' = user_roles_t d @ [row] \<Longrightarrow>
    roles_of v d' = (if v = ur_user_id row then insert (ur_role_name row) (roles_of v d) else roles_of v d)"
  by (auto simp: roles_of_def)

text \<open>What a successful provisioning writes.\<close>

lemma create_Inr:
  assumes "create_with_identity_and_role st i role d = Inr (a, d')"
  shows "st_uuid st \<notin> u_id ` set (users_t d)" and "role \<in> ro_name ` set (roles_t d)"
    and "(vi_issuer i, vi_subject i) \<notin> identity_key ` set (identities_t d)"
    and "d' = d\<lparr>users_t := users_t d @ [\<lparr>u_id = st_uuid st, u_email = vi_email i, u_display_name = vi_display_name i,
          u_is_active = True, u_created_at = st_txtime st, u_updated_at = st_txtime st\<rparr>],
        identities_t := identities_t d @ [\<lparr>i_issuer = vi_issuer i, i_subject = vi_subject i, i_user_id = st_uuid st,
          i_created_at = st_txtime st\<rparr>],
        user_roles_t := user_roles_t d @ [\<lparr>ur_user_id = st_uuid st, ur_role_name = role, ur_assigned_at = st_txtime st\<rparr>]\<rparr>"
    and "a = \<lparr>ua_id = st_uuid st, ua_email = vi_email i, ua_display_name = vi_display_name i, ua_is_active = True,
        ua_roles = {role}\<rparr>"
  using assms
  by (auto simp: create_with_identity_and_role_def insert_user_def insert_identity_def insert_user_role_def Let_def
      split: if_splits sum.splits)

lemma create_conflict:
  "create_with_identity_and_role st i role d = Inl IdentityAlreadyAssignedError \<Longrightarrow>
     (vi_issuer i, vi_subject i) \<in> identity_key ` set (identities_t d)"
  by (auto simp: create_with_identity_and_role_def insert_user_def insert_identity_def insert_user_role_def Let_def
      integrity_error_def data_exception_def split: if_splits sum.splits)

lemma create_wf_users:
  assumes wf: "wf_users d" and c: "create_with_identity_and_role st i role d = Inr (a, d')"
  shows "wf_users d'"
proof -
  note e = create_Inr [OF c] and w = wf_usersD [OF wf]
  have "(st_uuid st, role) \<notin> user_role_key ` set (user_roles_t d)"
    using e(1) w(5) by (force simp: user_role_key_def)
  with e(1-3) w show ?thesis
    by (auto simp: wf_users_def e(4) identity_key_def user_role_key_def image_iff)
qed

lemma create_find:
  assumes wf: "wf_users d" and c: "create_with_identity_and_role st i role d = Inr (a, d')" and "role \<noteq> []"
  shows "find_by_identity (vi_issuer i) (vi_subject i) d' = Some a"
proof -
  note e = create_Inr [OF c] and w = wf_usersD [OF wf]
  have "find_by identity_key (vi_issuer i, vi_subject i) (identities_t d) = None"
    using e(3) by (simp add: find_by_None)
  moreover have "find_by u_id (st_uuid st) (users_t d) = None" using e(1) by (simp add: find_by_None)
  moreover have "filter (\<lambda>r. ur_user_id r = st_uuid st) (user_roles_t d) = []"
    using e(1) w(5) by (force simp: filter_empty_conv)
  ultimately show ?thesis
    using assms(3) by (simp add: find_by_identity_def e(4,5) find_by_append identity_key_def
        account_of_row_def roles_of_def)
qed

lemma find_by_identity_update:
  assumes "find_by_identity iss sub d = Some a" and "ua_id a = u"
  shows "find_by_identity iss sub (d\<lparr>users_t := update_by u_id u (update_user_row st up) (users_t d)\<rparr>)
    = Some (apply_updates up a)"
proof -
  have id: "u_id (update_user_row st up r) = u_id r" for r by (simp add: update_user_row_def)
  show ?thesis
    using assms
    by (auto simp: find_by_identity_def find_by_update_by [where key = u_id, OF id] account_of_row_def roles_of_def
        apply_updates_def update_user_row_def split: option.splits)
qed

lemma update_profile_wf_users:
  assumes "wf_users d" and "update_profile st a u d = Inr (a', d')" shows "wf_users d'"
proof -
  have id: "u_id (update_user_row st u r) = u_id r" for r by (simp add: update_user_row_def)
  have keys: "map u_id (update_by u_id k (update_user_row st u) rows) = map u_id rows" for k rows
    by (rule map_update_by) (rule id)
  have img: "u_id ` set (update_by u_id k (update_user_row st u) rows) = u_id ` set rows" for k rows
    unfolding list.set_map [symmetric] keys ..
  from assms(2) have "d' = d \<or> d' = d\<lparr>users_t := update_by u_id (ua_id a) (update_user_row st u) (users_t d)\<rparr>"
    by (simp add: update_profile_def split: if_splits)
  then show ?thesis
    using assms(1) by (elim disjE) (simp_all add: wf_users_def keys img)
qed

lemma as_current_user_Inr:
  "as_current_user a = Inr c \<longleftrightarrow> ua_is_active a \<and> c = \<lparr>cu_id = ua_id a, cu_email = ua_email a,
     cu_display_name = ua_display_name a, cu_roles = sorted_list_of_set (ua_roles a)\<rparr>"
  by (auto simp: as_current_user_def)

lemma profile_updates_applied: "\<not> has_changes (profile_updates (apply_updates (profile_updates a i) a) i)"
  by (auto simp: has_changes_def profile_updates_def apply_updates_def)

section \<open>The repository port\<close>

text \<open>
  What resolving a user relies on of the account repository: a created account can be looked up,
  has exactly the initial role and the identity's profile, and an update is what a later lookup
  shows.
\<close>

locale user_accounts =
  fixes inv :: "'s \<Rightarrow> bool" and lookup :: "string \<Rightarrow> string \<Rightarrow> 's \<Rightarrow> user_account option"
    and create :: "validated_identity \<Rightarrow> string \<Rightarrow> 's \<Rightarrow> exn + (user_account \<times> 's)"
    and upd :: "user_account \<Rightarrow> user_profile_updates \<Rightarrow> 's \<Rightarrow> exn + (user_account \<times> 's)"
  assumes create_ok: "\<lbrakk>inv s; role \<noteq> []; create i role s = Inr (a, s')\<rbrakk> \<Longrightarrow> inv s'
      \<and> lookup (vi_issuer i) (vi_subject i) s' = Some a \<and> ua_roles a = {role} \<and> ua_is_active a
      \<and> ua_email a = vi_email i \<and> ua_display_name a = vi_display_name i"
    and update_ok: "\<lbrakk>inv s; lookup iss sub s = Some a; upd a u s = Inr (a', s')\<rbrakk> \<Longrightarrow> inv s'
      \<and> a' = apply_updates u a \<and> lookup iss sub s' = Some a'"
begin

lemma synchronize_ok:
  assumes "inv s" and "lookup iss sub s = Some a" and "synchronize_profile upd a i s = Inr (a', s')"
  shows "inv s' \<and> lookup iss sub s' = Some a' \<and> ua_is_active a' \<and> \<not> has_changes (profile_updates a' i)
    \<and> ua_id a' = ua_id a \<and> ua_roles a' = ua_roles a"
proof (cases "has_changes (profile_updates a i)")
  case False
  with assms show ?thesis by (auto simp: synchronize_profile_def Let_def split: if_splits)
next
  case True
  with assms(3) have act: "ua_is_active a" and up: "upd a (profile_updates a i) s = Inr (a', s')"
    by (auto simp: synchronize_profile_def Let_def split: if_splits)
  from update_ok [OF assms(1,2) up] act profile_updates_applied [of a i] show ?thesis
    by (auto simp: apply_updates_def)
qed

text \<open>A resolved user is the stored account, and resolving again changes nothing.\<close>

lemma resolve_once_ok:
  assumes "inv s" and "resolve_once lookup create upd i s s = Inr (c, s')"
  shows "inv s' \<and> (\<exists>a. lookup (vi_issuer i) (vi_subject i) s' = Some a \<and> as_current_user a = Inr c
      \<and> \<not> has_changes (profile_updates a i)
      \<and> (case lookup (vi_issuer i) (vi_subject i) s of
          None \<Rightarrow> ua_roles a = {MEMBER_ROLE}
        | Some a0 \<Rightarrow> ua_id a = ua_id a0 \<and> ua_roles a = ua_roles a0))"
proof (cases "lookup (vi_issuer i) (vi_subject i) s")
  case None
  with assms(2) obtain a where c: "create i MEMBER_ROLE s = Inr (a, s')" and "as_current_user a = Inr c"
    by (auto simp: resolve_once_def and_current_def)
  moreover from create_ok [OF assms(1) _ c] have "inv s'" "lookup (vi_issuer i) (vi_subject i) s' = Some a"
      "ua_roles a = {MEMBER_ROLE}" "ua_email a = vi_email i" "ua_display_name a = vi_display_name i"
    by (auto simp: MEMBER_ROLE_def)
  moreover from this have "\<not> has_changes (profile_updates a i)" by (simp add: has_changes_def profile_updates_def)
  ultimately show ?thesis using None by auto
next
  case (Some a0)
  with assms(2) obtain a where "synchronize_profile upd a0 i s = Inr (a, s')" and "as_current_user a = Inr c"
    by (auto simp: resolve_once_def and_current_def)
  with synchronize_ok [OF assms(1) Some] Some show ?thesis by auto
qed

lemma resolve_once_again:
  assumes "inv s" and "resolve_once lookup create upd i s s = Inr (c, s')"
  shows "resolve_once lookup create upd i s' s' = Inr (c, s')"
proof -
  from resolve_once_ok [OF assms] obtain a where "lookup (vi_issuer i) (vi_subject i) s' = Some a"
    and "as_current_user a = Inr c" and "\<not> has_changes (profile_updates a i)" by blast
  then show ?thesis
    by (simp add: resolve_once_def synchronize_profile_def and_current_def as_current_user_Inr)
qed

end

interpretation sql_users: user_accounts wf_users find_by_identity "create_with_identity_and_role st" "update_profile st"
  for st
proof
  fix d role i a d'
  assume "wf_users d" "role \<noteq> []" and c: "create_with_identity_and_role st i role d = Inr (a, d')"
  with create_wf_users [OF _ c] create_find [OF _ c] create_Inr(5) [OF c]
  show "wf_users d' \<and> find_by_identity (vi_issuer i) (vi_subject i) d' = Some a \<and> ua_roles a = {role} \<and> ua_is_active a
      \<and> ua_email a = vi_email i \<and> ua_display_name a = vi_display_name i" by simp
next
  fix d iss sub a u a' d'
  assume d: "wf_users d" "find_by_identity iss sub d = Some a" and u: "update_profile st a u d = Inr (a', d')"
  have "find_by_identity iss sub d' = Some (apply_updates u a)"
    using u d(2) find_by_identity_update [OF d(2) refl, of st u]
    by (auto simp: update_profile_def has_changes_def apply_updates_def split: if_splits)
  with update_profile_wf_users [OF d(1) u] u show "wf_users d' \<and> a' = apply_updates u a \<and> find_by_identity iss sub d' = Some a'"
    by (simp add: update_profile_def)
qed

section \<open>Provisioning on the database\<close>

lemma resolve_once_member_only:
  assumes "resolve_once find_by_identity (create_with_identity_and_role st) (update_profile st) i seen d = Inr (c, d')"
  shows "user_roles_t d' = user_roles_t d \<or>
    (st_uuid st \<notin> u_id ` set (users_t d) \<and> user_roles_t d' = user_roles_t d @
      [\<lparr>ur_user_id = st_uuid st, ur_role_name = ''member'', ur_assigned_at = st_txtime st\<rparr>])"
  using assms create_Inr(1,4) [of st i "''member''" d]
  by (fastforce simp: resolve_once_def and_current_def synchronize_profile_def update_profile_def Let_def MEMBER_ROLE_def
      split: option.splits if_splits)

lemma resolve_again_roles:
  "resolve_again find_by_identity (update_profile st) i seen d = Inr (c, d') \<Longrightarrow> user_roles_t d' = user_roles_t d"
  by (auto simp: resolve_again_def and_current_def synchronize_profile_def update_profile_def Let_def
      split: option.splits if_splits)

text \<open>
  Whatever other requests commit meanwhile, resolving a user assigns at most the member role,
  and only to the account it has just created.
\<close>

lemma current_user_of_roles:
  assumes "current_user_of st st' during1 during2 i d = (res, d')"
  shows "\<exists>d0 \<in> {during1 d, during2 (during1 d)}. user_roles_t d' = user_roles_t d0 \<or>
    (st_uuid st \<notin> u_id ` set (users_t d0) \<and> user_roles_t d' = user_roles_t d0 @
      [\<lparr>ur_user_id = st_uuid st, ur_role_name = ''member'', ur_assigned_at = st_txtime st\<rparr>])"
proof -
  let ?once = "resolve_once find_by_identity (create_with_identity_and_role st) (update_profile st) i d"
  obtain r d1 where t: "transaction ?once (during1 d) = (r, d1)" by (cases "transaction ?once (during1 d)")
  show ?thesis
  proof (cases r)
    case (Inr c)
    with t assms have "d' = d1" by (simp add: current_user_of_def resolve_current_user_def)
    moreover from t Inr have "?once (during1 d) = Inr (c, d1)" by (simp add: transaction_commit)
    ultimately show ?thesis using resolve_once_member_only by blast
  next
    case (Inl e)
    with t have d1: "d1 = during1 d" by (simp add: transaction_raise)
    let ?again = "resolve_again find_by_identity (update_profile st') i (during2 d1)"
    from assms t Inl consider "d' = d1" | "transaction ?again (during2 d1) = (res, d')"
      by (auto simp: current_user_of_def resolve_current_user_def split: exn.splits)
    then show ?thesis
    proof cases
      case 1
      with d1 show ?thesis by auto
    next
      case 2
      then have "user_roles_t d' = user_roles_t (during2 d1)"
        by (cases res) (auto simp: transaction_raise transaction_commit dest: resolve_again_roles)
      with d1 show ?thesis by auto
    qed
  qed
qed

text \<open>The loser of a race for a new identity ends up with the winner's account.\<close>

lemma create_race:
  assumes "MEMBER_ROLE \<in> ro_name ` set (roles_t d)" and "st_uuid st \<notin> u_id ` set (users_t d)"
    and "length (vi_subject i) \<le> 255" and "(vi_issuer i, vi_subject i) \<in> identity_key ` set (identities_t d)"
  shows "create_with_identity_and_role st i MEMBER_ROLE d = Inl IdentityAlreadyAssignedError"
  using assms
  by (simp add: create_with_identity_and_role_def insert_user_def insert_identity_def Let_def integrity_error_def)

lemma find_by_identity_key:
  "find_by_identity iss sub d = Some a \<Longrightarrow> (iss, sub) \<in> identity_key ` set (identities_t d)"
  by (auto simp: find_by_identity_def split: option.splits dest!: find_by_Some intro: rev_image_eqI)

lemma current_user_race:
  assumes "find_by_identity (vi_issuer i) (vi_subject i) d = None"
    and won: "find_by_identity (vi_issuer i) (vi_subject i) (during d) = Some a" and "ua_is_active a"
    and "MEMBER_ROLE \<in> ro_name ` set (roles_t (during d))" and "st_uuid st \<notin> u_id ` set (users_t (during d))"
    and "length (vi_subject i) \<le> 255"
  shows "\<exists>c d'. current_user_of st st' during (\<lambda>d. d) i d = (Inr c, d') \<and> cu_id c = ua_id a
    \<and> cu_roles c = sorted_list_of_set (ua_roles a)"
proof -
  have "transaction (resolve_once find_by_identity (create_with_identity_and_role st) (update_profile st) i d) (during d)
      = (Inl IdentityAlreadyAssignedError, during d)"
    using create_race [OF assms(4,5,6) find_by_identity_key [OF won]] assms(1)
    by (simp add: transaction_raise resolve_once_def)
  moreover have "\<exists>c d'. transaction (resolve_again find_by_identity (update_profile st') i (during d)) (during d) = (Inr c, d')
      \<and> cu_id c = ua_id a \<and> cu_roles c = sorted_list_of_set (ua_roles a)"
    using won assms(3)
    by (cases "has_changes (profile_updates a i)")
      (auto simp: transaction_commit resolve_again_def synchronize_profile_def update_profile_def and_current_def
        as_current_user_def apply_updates_def Let_def)
  ultimately show ?thesis by (simp add: current_user_of_def resolve_current_user_def)
qed

lemma inactive_refused:
  assumes "find_by_identity (vi_issuer i) (vi_subject i) d = Some a" and "\<not> ua_is_active a"
  shows "current_user_of st st' during1 during2 i d = (Inl InactiveUserError, during1 d)"
  using assms
  by (simp add: current_user_of_def resolve_current_user_def resolve_once_def synchronize_profile_def transaction.simps)

section \<open>Grants\<close>

lemma grant_admin_Inr:
  assumes "grant_admin st u d = (Inr new, d')"
  shows "ADMIN_ROLE \<in> roles_of u d'" and "new \<longleftrightarrow> ADMIN_ROLE \<notin> roles_of u d"
    and "\<And>v. v \<noteq> u \<Longrightarrow> roles_of v d' = roles_of v d" and "roles_of u d' = insert ADMIN_ROLE (roles_of u d)"
proof -
  have mem: "(u, r) \<in> user_role_key ` set (user_roles_t x) \<longleftrightarrow> r \<in> roles_of u x" for r x
    by (auto simp: roles_of_def user_role_key_def)
  have roles: "roles_of v (x\<lparr>user_roles_t := user_roles_t x @ [\<lparr>ur_user_id = u, ur_role_name = r, ur_assigned_at = t\<rparr>]\<rparr>)
      = (if v = u then insert r (roles_of v x) else roles_of v x)" for v x r t
    by (subst roles_of_snoc) auto
  from assms consider (old) "d' = d" "\<not> new" "ADMIN_ROLE \<in> roles_of u d"
    | (new) "d' = d\<lparr>user_roles_t := user_roles_t d @
          [\<lparr>ur_user_id = u, ur_role_name = ADMIN_ROLE, ur_assigned_at = st_txtime st\<rparr>]\<rparr>"
        "new" "ADMIN_ROLE \<notin> roles_of u d"
    by (auto simp: grant_admin_def transaction_commit grant_body_def add_role_def insert_user_role_def mem
        split: option.splits if_splits)
  then have "ADMIN_ROLE \<in> roles_of u d' \<and> (new \<longleftrightarrow> ADMIN_ROLE \<notin> roles_of u d)
      \<and> (\<forall>v. v \<noteq> u \<longrightarrow> roles_of v d' = roles_of v d) \<and> roles_of u d' = insert ADMIN_ROLE (roles_of u d)"
    by cases (auto simp only: roles insert_absorb simp_thms if_True if_False insert_iff)
  then show "ADMIN_ROLE \<in> roles_of u d'" and "new \<longleftrightarrow> ADMIN_ROLE \<notin> roles_of u d"
    and "\<And>v. v \<noteq> u \<Longrightarrow> roles_of v d' = roles_of v d" and "roles_of u d' = insert ADMIN_ROLE (roles_of u d)"
    by blast+
qed

lemma grant_admin_wf_users:
  assumes "wf_users d" and "grant_admin st u d = (res, d')" shows "wf_users d'"
proof (cases res)
  case (Inl e)
  with assms show ?thesis by (simp add: grant_admin_def transaction_raise)
next
  case (Inr b)
  from assms(2) Inr consider "d' = d" | "u \<in> u_id ` set (users_t d)" "ADMIN_ROLE \<in> ro_name ` set (roles_t d)"
      "(u, ADMIN_ROLE) \<notin> user_role_key ` set (user_roles_t d)"
      "d' = d\<lparr>user_roles_t := user_roles_t d @ [\<lparr>ur_user_id = u, ur_role_name = ADMIN_ROLE, ur_assigned_at = st_txtime st\<rparr>]\<rparr>"
    by (auto simp: grant_admin_def transaction_commit grant_body_def add_role_def insert_user_role_def
        split: option.splits if_splits)
  then show ?thesis
    using assms(1) by cases (simp_all add: wf_users_def user_role_key_def)
qed

end
