(* ===== verification/Run_State.thy ===== *)
theory Run_State
  imports Database
begin

text \<open>
  The consistency every committed state of the run tables satisfies: a run's timestamps,
  failure code and Job identity agree with its status; its outbox holds its request and, once
  terminal, exactly one terminal event; artifacts belong to terminal runs. The catalog part
  says that every stored release decodes and that a run that has been accepted and is not
  finished still describes the computation of its release. The transition lemmas reduce
  preservation to the one row an operation changes.
\<close>

section \<open>The invariant\<close>

abbreviation terminal :: "run_row \<Rightarrow> bool" where
  "terminal r \<equiv> r_status r \<in> set terminal_statuses"

abbreviation active :: "run_row \<Rightarrow> bool" where
  "active r \<equiv> r_status r \<in> set active_statuses"

definition lifecycle_ok :: "run_row \<Rightarrow> bool" where
  "lifecycle_ok r \<longleftrightarrow>
     (case r_status r of
        QUEUED \<Rightarrow> r_dispatch_started_at r = None \<and> r_finished_at r = None \<and> r_failure_code r = None
          \<and> r_job_namespace r = None \<and> r_job_uid r = None
      | RUNNING \<Rightarrow> r_accepted_at r \<noteq> None \<and> r_dispatch_started_at r \<noteq> None
          \<and> r_job_namespace r \<noteq> None \<and> r_finished_at r = None \<and> r_failure_code r = None
      | SUCCEEDED \<Rightarrow> r_accepted_at r \<noteq> None \<and> r_dispatch_started_at r \<noteq> None
          \<and> r_job_namespace r \<noteq> None \<and> r_finished_at r \<noteq> None \<and> \<not> truthy (r_failure_code r)
      | FAILED \<Rightarrow> r_finished_at r \<noteq> None \<and> truthy (r_failure_code r))"

definition run_events :: "db \<Rightarrow> uuid \<Rightarrow> string list" where
  "run_events d i = map ob_event_type (filter (\<lambda>e. ob_run_id e = i) (outbox_t d))"

definition expected_events :: "run_row \<Rightarrow> string list" where
  "expected_events r = ''run.requested'' # (if terminal r then [''run.'' @ status_str (r_status r)] else [])"

definition artifact_key :: "artifact_row \<Rightarrow> uuid \<times> string" where
  "artifact_key a = (ar_run_id a, ar_object_key a)"

definition wf_runs :: "db \<Rightarrow> bool" where
  "wf_runs d \<longleftrightarrow>
     distinct (map r_id (runs_t d)) \<and> distinct (map ob_id (outbox_t d))
     \<and> distinct (map artifact_key (artifacts_t d))
     \<and> ob_run_id ` set (outbox_t d) \<subseteq> r_id ` set (runs_t d)
     \<and> (\<forall>a \<in> set (artifacts_t d). 0 \<le> ar_size_bytes a \<and> (\<exists>r \<in> set (runs_t d). r_id r = ar_run_id a \<and> terminal r))
     \<and> (\<forall>r \<in> set (runs_t d). lifecycle_ok r \<and> run_events d (r_id r) = expected_events r)"

definition run_compatible :: "db \<Rightarrow> run_row \<Rightarrow> bool" where
  "run_compatible d r \<longleftrightarrow>
     (\<exists>rel def. find_release (r_model_release_id r) d = Some rel
        \<and> load_release_definition d rel = Inr def
        \<and> matches_fingerprint def (r_parameters r) (r_fingerprint r) = Inr True)"

definition wf_catalog :: "db \<Rightarrow> bool" where
  "wf_catalog d \<longleftrightarrow>
     distinct (map m_id (models_t d)) \<and> distinct (map rel_id (releases_t d))
     \<and> distinct (map (\<lambda>r. (rel_model_id r, rel_image_digest r)) (releases_t d))
     \<and> (\<forall>rel \<in> set (releases_t d). rel_model_id rel \<in> m_id ` set (models_t d)
          \<and> (\<exists>ex. definition_from_dict (rel_execution_definition rel) = Inr ex))
     \<and> (\<forall>r \<in> set (runs_t d). r_model_release_id r \<in> rel_id ` set (releases_t d)
          \<and> (\<exists>m. r_parameters r = mode_params m))"

definition accepted_unfinished :: "run_row \<Rightarrow> bool" where
  "accepted_unfinished r \<longleftrightarrow> r_accepted_at r \<noteq> None \<and> active r"

definition protected_runs :: "db \<Rightarrow> bool" where
  "protected_runs d \<longleftrightarrow> (\<forall>r \<in> set (runs_t d). accepted_unfinished r \<longrightarrow> run_compatible d r)"

definition wf_db :: "db \<Rightarrow> bool" where
  "wf_db d \<longleftrightarrow> wf_runs d \<and> wf_catalog d \<and> protected_runs d"

section \<open>Status facts\<close>

lemma active_iff: "active r \<longleftrightarrow> r_status r = QUEUED \<or> r_status r = RUNNING"
  by (auto simp: active_statuses_def)

lemma terminal_iff: "terminal r \<longleftrightarrow> r_status r = SUCCEEDED \<or> r_status r = FAILED"
  by (auto simp: terminal_statuses_def)

lemma active_not_terminal: "active r \<longleftrightarrow> \<not> terminal r"
  by (cases "r_status r") (simp_all add: active_statuses_def terminal_statuses_def)

lemma terminal_maximal: "a \<in> set terminal_statuses \<Longrightarrow> (a :: run_status) \<le> b \<longleftrightarrow> b = a"
  by (auto simp: terminal_statuses_def less_eq_run_status_def)

lemma outcome_terminal: "outcome_status c \<in> set terminal_statuses"
  by (simp add: outcome_status_def terminal_statuses_def)

lemmas status_defs = less_eq_run_status_def active_statuses_def terminal_statuses_def

section \<open>Reading the invariant\<close>

lemma wf_runsD:
  assumes "wf_runs d"
  shows "distinct (map r_id (runs_t d))" and "distinct (map ob_id (outbox_t d))"
    and "distinct (map artifact_key (artifacts_t d))"
    and "ob_run_id ` set (outbox_t d) \<subseteq> r_id ` set (runs_t d)"
    and "\<And>a. a \<in> set (artifacts_t d) \<Longrightarrow> 0 \<le> ar_size_bytes a"
    and "\<And>a. a \<in> set (artifacts_t d) \<Longrightarrow> \<exists>r \<in> set (runs_t d). r_id r = ar_run_id a \<and> terminal r"
    and "\<And>r. r \<in> set (runs_t d) \<Longrightarrow> lifecycle_ok r"
    and "\<And>r. r \<in> set (runs_t d) \<Longrightarrow> run_events d (r_id r) = expected_events r"
  using assms by (auto simp: wf_runs_def)

lemma wf_dbD:
  assumes "wf_db d" shows "wf_runs d" and "wf_catalog d" and "protected_runs d"
  using assms by (auto simp: wf_db_def)

lemma find_run_mem:
  "distinct (map r_id (runs_t d)) \<Longrightarrow> r \<in> set (runs_t d) \<Longrightarrow> find_run (r_id r) d = Some r"
  by (rule find_by_distinct)

section \<open>One row changes\<close>

text \<open>
  An operation that rewrites one run, appends events of that run and appends artifacts of that
  run keeps the tables consistent if the new row does and the events are the ones its status
  calls for.
\<close>

lemma wf_runs_transition:
  assumes wf: "wf_runs d" and row: "find_run i d = Some r"
    and id: "\<And>x. r_id (f x) = r_id x" and ok: "lifecycle_ok (f r)"
    and runs: "runs_t d' = update_by r_id i f (runs_t d)"
    and out: "outbox_t d' = outbox_t d @ evs" "\<And>e. e \<in> set evs \<Longrightarrow> ob_run_id e = i"
      "distinct (map ob_id (outbox_t d'))"
      "expected_events (f r) = expected_events r @ map ob_event_type evs"
    and arts: "artifacts_t d' = artifacts_t d @ as" "distinct (map artifact_key (artifacts_t d'))"
      "\<And>a. a \<in> set as \<Longrightarrow> ar_run_id a = i \<and> 0 \<le> ar_size_bytes a \<and> terminal (f r)"
    and up: "terminal r \<Longrightarrow> terminal (f r)"
  shows "wf_runs d'"
proof -
  note w = wf_runsD [OF wf]
  from find_by_Some [OF row] have r: "r \<in> set (runs_t d)" "r_id r = i" by auto
  have uniq: "x = r" if "x \<in> set (runs_t d)" "r_id x = i" for x
    using find_by_distinct [OF w(1) that(1)] that(2) row by simp
  have mem: "set (runs_t d') = {x \<in> set (runs_t d). r_id x \<noteq> i} \<union> {f r}"
  proof -
    have "{x \<in> set (runs_t d). r_id x = i} = {r}" using r uniq by blast
    then show ?thesis by (simp add: runs set_update_by)
  qed
  have ids: "map r_id (runs_t d') = map r_id (runs_t d)"
    unfolding runs by (rule map_update_by) (rule id)
  then have idset: "r_id ` set (runs_t d') = r_id ` set (runs_t d)"
    by (metis list.set_map)
  have events: "run_events d' j = run_events d j @ (if j = i then map ob_event_type evs else [])" for j
  proof -
    have "filter (\<lambda>e. ob_run_id e = j) evs = (if j = i then evs else [])"
      using out(2) by (auto simp: filter_id_conv filter_empty_conv)
    then show ?thesis by (simp add: run_events_def out(1))
  qed
  have "lifecycle_ok x \<and> run_events d' (r_id x) = expected_events x" if "x \<in> set (runs_t d')" for x
    using that w(7,8) r ok out(4) by (auto simp: mem events id)
  moreover have "\<exists>x \<in> set (runs_t d'). r_id x = ar_run_id a \<and> terminal x"
    if a: "a \<in> set (artifacts_t d')" for a
  proof (cases "ar_run_id a = i")
    case True
    have "terminal (f r)"
    proof (cases "a \<in> set as")
      case True
      then show ?thesis using arts(3) by blast
    next
      case False
      with a have "a \<in> set (artifacts_t d)" by (simp add: arts(1))
      from w(6) [OF this] True uniq up show ?thesis by blast
    qed
    with True r show ?thesis by (auto simp: mem id)
  next
    case False
    with a arts(1,3) have "a \<in> set (artifacts_t d)" by auto
    from w(6) [OF this] False show ?thesis by (auto simp: mem)
  qed
  moreover have "0 \<le> ar_size_bytes a" if "a \<in> set (artifacts_t d')" for a
    using that w(5) arts(1,3) by auto
  moreover have "ob_run_id ` set (outbox_t d') \<subseteq> r_id ` set (runs_t d')"
    using w(4) out(1,2) r by (auto simp: idset)
  ultimately show ?thesis
    using w(1) ids out(3) arts(2) by (simp add: wf_runs_def)
qed

text \<open>The common case of an update with no event and no artifact.\<close>

lemma wf_runs_update_run:
  assumes "wf_runs d" and "find_run i d = Some r"
    and "\<And>x. r_id (f x) = r_id x" and "lifecycle_ok (f r)"
    and "terminal (f r) \<longleftrightarrow> terminal r" and "terminal r \<Longrightarrow> r_status (f r) = r_status r"
  shows "wf_runs (update_run i f d)"
proof (rule wf_runs_transition [OF assms(1-4), where evs = "[]" and as = "[]"])
  show "expected_events (f r) = expected_events r @ map ob_event_type []"
    using assms(5,6) by (auto simp: expected_events_def)
qed (use assms(5) wf_runsD(2,3) [OF assms(1)] in \<open>auto simp: update_run_def\<close>)

lemma wf_catalog_runs:
  assumes "wf_catalog d" and "models_t d' = models_t d" and "releases_t d' = releases_t d"
    and "\<And>r'. r' \<in> set (runs_t d') \<Longrightarrow>
      \<exists>r \<in> set (runs_t d). r_model_release_id r' = r_model_release_id r \<and> r_parameters r' = r_parameters r"
  shows "wf_catalog d'"
proof -
  have "r_model_release_id r' \<in> rel_id ` set (releases_t d') \<and> (\<exists>m. r_parameters r' = mode_params m)"
    if r': "r' \<in> set (runs_t d')" for r'
  proof -
    from assms(4) [OF r'] obtain r where "r \<in> set (runs_t d)"
      and "r_model_release_id r' = r_model_release_id r" and "r_parameters r' = r_parameters r" by blast
    with assms(1,3) show ?thesis by (simp add: wf_catalog_def)
  qed
  then show ?thesis using assms(1-3) by (simp add: wf_catalog_def)
qed

lemma run_compatible_cong:
  assumes "models_t d' = models_t d" and "releases_t d' = releases_t d"
    and "r_model_release_id r' = r_model_release_id r" and "r_parameters r' = r_parameters r"
    and "r_fingerprint r' = r_fingerprint r"
  shows "run_compatible d' r' \<longleftrightarrow> run_compatible d r"
  using assms by (simp add: run_compatible_def load_release_definition_def)

text \<open>
  What an update of a run never touches: identity, owner, release, parameters, fingerprint and
  creation time.
\<close>

definition same_request :: "run_row \<Rightarrow> run_row \<Rightarrow> bool" where
  "same_request r r' \<longleftrightarrow> r_id r' = r_id r \<and> r_model_release_id r' = r_model_release_id r
     \<and> r_requested_by r' = r_requested_by r \<and> r_parameters r' = r_parameters r
     \<and> r_fingerprint r' = r_fingerprint r \<and> r_created_at r' = r_created_at r"

lemma wf_db_transition:
  assumes wf: "wf_db d" and runs': "wf_runs d'"
    and tabs: "models_t d' = models_t d" "releases_t d' = releases_t d"
    and runs: "runs_t d' = update_by r_id i f (runs_t d)"
    and row: "find_run i d = Some r" and req: "\<And>x. same_request x (f x)"
    and prot: "accepted_unfinished (f r) \<Longrightarrow> accepted_unfinished r \<or> run_compatible d r"
  shows "wf_db d'"
proof -
  from find_by_Some [OF row] have r: "r \<in> set (runs_t d)" "r_id r = i" by auto
  have uniq: "x = r" if "x \<in> set (runs_t d)" "r_id x = i" for x
    using find_by_distinct [OF wf_runsD(1) [OF wf_dbD(1) [OF wf]] that(1)] that(2) row by simp
  have src: "\<exists>x \<in> set (runs_t d). same_request x x' \<and>
      (accepted_unfinished x' \<longrightarrow> accepted_unfinished x \<or> run_compatible d x)"
    if x': "x' \<in> set (runs_t d')" for x'
  proof -
    from x' consider "x' \<in> set (runs_t d)" | "x' = f r"
      using uniq by (auto simp: runs set_update_by)
    then show ?thesis
    proof cases
      case 1
      then show ?thesis by (intro bexI [of _ x']) (auto simp: same_request_def)
    next
      case 2
      with req [of r] prot r(1) show ?thesis by blast
    qed
  qed
  have "wf_catalog d'"
  proof (rule wf_catalog_runs [OF wf_dbD(2) [OF wf] tabs])
    fix x' assume "x' \<in> set (runs_t d')"
    from src [OF this] show "\<exists>x \<in> set (runs_t d). r_model_release_id x' = r_model_release_id x
        \<and> r_parameters x' = r_parameters x"
      unfolding same_request_def by blast
  qed
  moreover have "protected_runs d'"
    unfolding protected_runs_def
  proof (intro ballI impI)
    fix x' assume x': "x' \<in> set (runs_t d')" and acc: "accepted_unfinished x'"
    from src [OF x'] obtain x where x: "x \<in> set (runs_t d)" "same_request x x'"
      and "accepted_unfinished x \<or> run_compatible d x" using acc by blast
    then have "run_compatible d x"
      using wf_dbD(3) [OF wf] by (auto simp: protected_runs_def)
    with x(2) show "run_compatible d' x'"
      using run_compatible_cong [OF tabs, of x' x] by (simp add: same_request_def)
  qed
  ultimately show ?thesis using runs' by (simp add: wf_db_def)
qed

section \<open>How runs evolve\<close>

text \<open>
  The order on a run's rows: what was requested never changes, the status only moves up, and
  what has been decided (acceptance, dispatch, Job identity, a terminal outcome) stays.
\<close>

definition row_advance :: "run_row \<Rightarrow> run_row \<Rightarrow> bool" where
  "row_advance r r' \<longleftrightarrow> same_request r r' \<and> r_status r \<le> r_status r' \<and> (terminal r \<longrightarrow> r' = r)
     \<and> (r_accepted_at r \<noteq> None \<longrightarrow> r_accepted_at r' = r_accepted_at r)
     \<and> (r_dispatch_started_at r \<noteq> None \<longrightarrow> r_dispatch_started_at r' = r_dispatch_started_at r)
     \<and> (r_job_uid r \<noteq> None \<longrightarrow> r_job_uid r' = r_job_uid r)"

definition runs_advance :: "db \<Rightarrow> db \<Rightarrow> bool" where
  "runs_advance d d' \<longleftrightarrow>
     (\<forall>i r. find_run i d = Some r \<longrightarrow> (\<exists>r'. find_run i d' = Some r' \<and> row_advance r r'))"

lemma row_advance_refl [simp]: "row_advance r r"
  by (simp add: row_advance_def same_request_def)

lemma row_advance_trans: "row_advance r r' \<Longrightarrow> row_advance r' r'' \<Longrightarrow> row_advance r r''"
  by (auto simp: row_advance_def same_request_def)

lemma runs_advance_refl [simp]: "runs_advance d d"
  by (auto simp: runs_advance_def)

lemma runs_advance_trans: "runs_advance d d' \<Longrightarrow> runs_advance d' d'' \<Longrightarrow> runs_advance d d''"
  unfolding runs_advance_def by (meson row_advance_trans)

lemma runs_advance_same: "runs_t d' = runs_t d \<Longrightarrow> runs_advance d d'"
  by (auto simp: runs_advance_def)

lemma runs_advance_append: "runs_t d' = runs_t d @ rows \<Longrightarrow> runs_advance d d'"
  by (auto simp: runs_advance_def find_by_append)

lemma runs_advance_update:
  assumes "runs_t d' = update_by r_id i f (runs_t d)" and "\<And>x. r_id (f x) = r_id x"
    and "find_run i d = Some r" and "row_advance r (f r)"
  shows "runs_advance d d'"
  unfolding runs_advance_def
proof (intro allI impI)
  fix j x assume x: "find_run j d = Some x"
  with find_by_Some [OF x] assms(3,4) have "row_advance x (if r_id x = i then f x else x)" by auto
  then show "\<exists>r'. find_run j d' = Some r' \<and> row_advance x r'"
    using x by (simp add: assms(1) find_by_update_by [where key = r_id and f = f, OF assms(2)])
qed

definition started :: "uuid \<Rightarrow> db \<Rightarrow> bool" where
  "started i d \<longleftrightarrow> (\<exists>r. find_run i d = Some r \<and> r_status r \<noteq> QUEUED)"

lemma started_advance: "started i d \<Longrightarrow> runs_advance d d' \<Longrightarrow> started i d'"
  by (fastforce simp: started_def runs_advance_def row_advance_def less_eq_run_status_def)

end
