(* ===== verification/Queries.thy ===== *)
theory Queries
  imports Users Run_State
begin

text \<open>
  Reading runs: the snapshots and the authorised reads (\<open>application/runs/queries.py\<close>,
  \<open>infrastructure/persistence/run_queries.py\<close>, \<open>mappers.py\<close>), the operator's view
  (\<open>run_inspection.py\<close>) and the queries of the live feed (\<open>run_feed.py\<close>). A join is
  the list of its rows in the order of its \<open>ORDER BY\<close>; the dictionaries the code fills
  while it walks over them are association lists in insertion order. A user reads the own
  runs, an administrator every run; pages tile the history; the joined queries agree with
  reading each run on its own.
\<close>

section \<open>Snapshots\<close>

record run_summary =
  rn_id :: uuid
  rn_model_release_id :: uuid
  rn_requested_by :: "uuid option"
  rn_parameters :: json
  rn_status :: run_status
  rn_created_at :: timestamp
  rn_accepted_at :: "timestamp option"
  rn_dispatch_started_at :: "timestamp option"
  rn_finished_at :: "timestamp option"
  rn_failure_code :: "string option"

record run_file =
  rf_name :: string
  rf_size_bytes :: int

record run_detail = run_summary +
  rn_artifacts :: "run_file list"

definition run_summary_of :: "run_row \<Rightarrow> run_summary" where
  "run_summary_of r =
     \<lparr>rn_id = r_id r, rn_model_release_id = r_model_release_id r, rn_requested_by = r_requested_by r,
      rn_parameters = r_parameters r, rn_status = r_status r, rn_created_at = r_created_at r,
      rn_accepted_at = r_accepted_at r, rn_dispatch_started_at = r_dispatch_started_at r,
      rn_finished_at = r_finished_at r, rn_failure_code = r_failure_code r\<rparr>"

definition run_file_of :: "artifact_row \<Rightarrow> run_file" where
  "run_file_of a = \<lparr>rf_name = posix_name (ar_object_key a), rf_size_bytes = ar_size_bytes a\<rparr>"

definition run_detail_of :: "run_row \<Rightarrow> artifact_row list \<Rightarrow> run_detail" where
  "run_detail_of r as =
     run_summary.extend (run_summary_of r) (run_detail.fields (map run_file_of as))"

section \<open>Queries\<close>

text \<open>\<open>ORDER BY runs.created_at DESC, runs.id DESC\<close>; the key is unique.\<close>

definition newest_first :: "run_row list \<Rightarrow> run_row list" where
  "newest_first rows = rev (sort_key run_order rows)"

definition artifacts_of :: "uuid \<Rightarrow> db \<Rightarrow> artifact_row list" where
  "artifacts_of i d = sort_key ar_object_key (filter (\<lambda>a. ar_run_id a = i) (artifacts_t d))"

text \<open>The rows of \<open>runs LEFT JOIN run_artifacts\<close> for one run, by object key.\<close>

definition artifact_join :: "db \<Rightarrow> run_row \<Rightarrow> (run_row \<times> artifact_row option) list" where
  "artifact_join d r =
     (case artifacts_of (r_id r) d of
        [] \<Rightarrow> [(r, None)]
      | as \<Rightarrow> map (\<lambda>a. (r, Some a)) as)"

definition find_detail :: "uuid \<Rightarrow> db \<Rightarrow> run_detail option" where
  "find_detail i d =
     (case concat (map (artifact_join d) (filter (\<lambda>r. r_id r = i) (runs_t d))) of
        [] \<Rightarrow> None
      | (r, a) # rows \<Rightarrow> Some (run_detail_of r (List.map_filter snd ((r, a) # rows))))"

definition list_owned :: "uuid \<Rightarrow> nat \<Rightarrow> nat \<Rightarrow> db \<Rightarrow> run_summary list" where
  "list_owned u limit offset d =
     map run_summary_of (paginate limit offset
       (newest_first (filter (\<lambda>r. r_requested_by r = Some u) (runs_t d))))"

section \<open>Authorised reads\<close>

definition get_run :: "(uuid \<Rightarrow> 's \<Rightarrow> run_detail option) \<Rightarrow> current_user \<Rightarrow> uuid \<Rightarrow> 's \<Rightarrow> exn + run_detail" where
  "get_run lookup user i s =
     (case lookup i s of
        None \<Rightarrow> Inl (RunNotFound ''Run does not exist.'')
      | Some run \<Rightarrow>
          if rn_requested_by run \<noteq> Some (cu_id user) \<and> ADMIN_ROLE \<notin> set (cu_roles user)
          then Inl (RunAccessDenied ''You cannot access this run.'')
          else Inr run)"

definition list_own_runs ::
  "(uuid \<Rightarrow> nat \<Rightarrow> nat \<Rightarrow> 's \<Rightarrow> run_summary list) \<Rightarrow> current_user \<Rightarrow> int \<Rightarrow> int \<Rightarrow> 's \<Rightarrow> exn + run_summary list" where
  "list_own_runs owned user limit offset s =
     (if \<not> (1 \<le> limit \<and> limit \<le> 100) \<or> offset < 0 then Inl (ValueError ''Invalid pagination.'')
      else Inr (owned (cu_id user) (nat limit) (nat offset) s))"

section \<open>The operator's view\<close>

record shown_event =
  se_id :: uuid
  se_event_type :: string
  se_created_at :: timestamp
  se_published_at :: "timestamp option"

record shown_run =
  sh_id :: uuid
  sh_model_release_id :: uuid
  sh_requested_by :: "uuid option"
  sh_parameters :: json
  sh_fingerprint :: string
  sh_status :: run_status
  sh_created_at :: timestamp
  sh_accepted_at :: "timestamp option"
  sh_failure_code :: "string option"
  sh_dispatch_started_at :: "timestamp option"
  sh_job_name :: string
  sh_job_namespace :: "string option"
  sh_job_uid :: "string option"
  sh_finished_at :: "timestamp option"
  sh_artifacts :: "artifact list"
  sh_events :: "shown_event list"

definition show_run :: "uuid \<Rightarrow> db \<Rightarrow> exn + shown_run" where
  "show_run i d =
     (case find_run i d of
        None \<Rightarrow> Inl (RunNotFound ''Run does not exist.'')
      | Some r \<Rightarrow> Inr
          \<lparr>sh_id = r_id r, sh_model_release_id = r_model_release_id r, sh_requested_by = r_requested_by r,
           sh_parameters = r_parameters r, sh_fingerprint = r_fingerprint r, sh_status = r_status r,
           sh_created_at = r_created_at r, sh_accepted_at = r_accepted_at r, sh_failure_code = r_failure_code r,
           sh_dispatch_started_at = r_dispatch_started_at r, sh_job_name = ''mic3-run-'' @ uuid_str (r_id r),
           sh_job_namespace = r_job_namespace r, sh_job_uid = r_job_uid r, sh_finished_at = r_finished_at r,
           sh_artifacts = map (\<lambda>a. \<lparr>a_bucket = ar_bucket a, a_object_key = ar_object_key a,
             a_size_bytes = ar_size_bytes a\<rparr>) (artifacts_of i d),
           sh_events = map (\<lambda>e. \<lparr>se_id = ob_id e, se_event_type = ob_event_type e,
             se_created_at = ob_created_at e, se_published_at = ob_published_at e\<rparr>)
             (sort_key (\<lambda>e. (ob_created_at e, ob_id e)) (filter (\<lambda>e. ob_run_id e = i) (outbox_t d)))\<rparr>)"

section \<open>The feed's queries\<close>

definition user_is_active :: "uuid \<Rightarrow> db \<Rightarrow> bool" where
  "user_is_active u d = (map_option u_is_active (find_by u_id u (users_t d)) = Some True)"

definition SNAPSHOT_TERMINAL_RUNS :: nat where "SNAPSHOT_TERMINAL_RUNS = 50"

definition recent_terminal :: "uuid \<Rightarrow> db \<Rightarrow> run_row list" where
  "recent_terminal u d = take SNAPSHOT_TERMINAL_RUNS (newest_first
     (filter (\<lambda>r. r_requested_by r = Some u \<and> r_status r \<in> set terminal_statuses) (runs_t d)))"

definition snapshot_runs :: "uuid \<Rightarrow> db \<Rightarrow> run_row list" where
  "snapshot_runs u d = newest_first (filter (\<lambda>r. r_requested_by r = Some u
     \<and> (r_status r \<in> set active_statuses \<or> r_id r \<in> r_id ` set (recent_terminal u d))) (runs_t d))"

text \<open>One turn of the loop that fills \<open>runs\<close> and \<open>artifacts\<close>.\<close>

definition gather ::
  "(uuid \<times> run_row) list \<times> (uuid \<times> artifact_row list) list \<Rightarrow> run_row \<times> artifact_row option
   \<Rightarrow> (uuid \<times> run_row) list \<times> (uuid \<times> artifact_row list) list" where
  "gather = (\<lambda>(runs, artifacts) (r, a).
     let runs' = AList.update (r_id r) r runs;
         present = (case map_of artifacts (r_id r) of None \<Rightarrow> [] | Some as \<Rightarrow> as)
     in (runs', AList.update (r_id r) (case a of None \<Rightarrow> present | Some x \<Rightarrow> present @ [x]) artifacts))"

definition feed_snapshot :: "uuid \<Rightarrow> db \<Rightarrow> exn + run_detail list" where
  "feed_snapshot u d =
     (let rows = concat (map (artifact_join d) (snapshot_runs u d));
          (runs, artifacts) = foldl gather ([], []) rows
      in map_res (\<lambda>(i, r). case map_of artifacts i of
           None \<Rightarrow> Inl (KeyError (uuid_str i))
         | Some as \<Rightarrow> Inr (run_detail_of r as)) runs)"

section \<open>Facts about details and orders\<close>

lemma run_detail_fields [simp]:
  "rn_id (run_detail_of r as) = r_id r" "rn_requested_by (run_detail_of r as) = r_requested_by r"
  "rn_status (run_detail_of r as) = r_status r" "rn_artifacts (run_detail_of r as) = map run_file_of as"
  "rn_id (run_summary_of r) = r_id r" "rn_requested_by (run_summary_of r) = r_requested_by r"
  by (simp_all add: run_detail_of_def run_summary_of_def run_summary.defs run_detail.defs)

lemma set_newest_first [simp]: "set (newest_first rows) = set rows"
  by (simp add: newest_first_def)

lemma length_newest_first [simp]: "length (newest_first rows) = length rows"
  by (simp add: newest_first_def)

lemma distinct_newest_first: "distinct (map r_id rows) \<Longrightarrow> distinct (map r_id (newest_first rows))"
  by (simp add: newest_first_def distinct_map)

lemma newest_first_sorted: "sorted (rev (map run_order (newest_first rows)))"
proof -
  have "rev (map run_order (newest_first rows)) = map run_order (sort_key run_order rows)"
    by (simp add: newest_first_def rev_map)
  then show ?thesis by simp
qed

lemma map_filter_Some [simp]: "List.map_filter snd (map (\<lambda>a. (r, Some a)) as) = as"
  by (induction as) (auto simp: List.map_filter_def)

lemma artifact_join_nonempty: "\<exists>a rows. artifact_join d r = (r, a) # rows"
  by (simp add: artifact_join_def split: list.splits)

lemma artifact_join_artifacts: "List.map_filter snd (artifact_join d r) = artifacts_of (r_id r) d"
  unfolding artifact_join_def
  by (cases "artifacts_of (r_id r) d") (auto simp: List.map_filter_def comp_def)

lemma filter_key_distinct:
  assumes "distinct (map key rows)"
  shows "filter (\<lambda>r. key r = k) rows = (case find_by key k rows of None \<Rightarrow> [] | Some r \<Rightarrow> [r])"
  using assms
proof (induction rows)
  case (Cons x rows)
  then show ?case using find_by_None [of key "key x" rows] by (cases "key x = k") auto
qed simp

lemma find_detail_eq:
  assumes "distinct (map r_id (runs_t d))"
  shows "find_detail i d = map_option (\<lambda>r. run_detail_of r (artifacts_of i d)) (find_run i d)"
proof (cases "find_run i d")
  case None
  then show ?thesis unfolding find_detail_def filter_key_distinct [OF assms] by simp
next
  case (Some r)
  obtain a rows where j: "artifact_join d r = (r, a) # rows" using artifact_join_nonempty by blast
  have "r_id r = i" using find_by_Some [OF Some] by blast
  with artifact_join_artifacts [of d r] j show ?thesis
    unfolding find_detail_def filter_key_distinct [OF assms] by (simp add: Some)
qed

section \<open>Pages\<close>

lemma pages_tile: "concat (map (\<lambda>k. paginate n (k * n) xs) [0..<m]) = take (m * n) xs"
proof (induction m)
  case (Suc m)
  have "take (m * n + n) xs = take (m * n) xs @ take n (drop (m * n) xs)" by (rule take_add)
  with Suc show ?case by (simp add: paginate_def add.commute)
qed simp

lemma list_owned_pages:
  assumes "length (filter (\<lambda>r. r_requested_by r = Some u) (runs_t d)) \<le> m * n"
  shows "concat (map (\<lambda>k. list_owned u n (k * n) d) [0..<m])
    = map run_summary_of (newest_first (filter (\<lambda>r. r_requested_by r = Some u) (runs_t d)))"
proof -
  let ?rows = "newest_first (filter (\<lambda>r. r_requested_by r = Some u) (runs_t d))"
  have "concat (map (\<lambda>k. list_owned u n (k * n) d) [0..<m])
      = map run_summary_of (concat (map (\<lambda>k. paginate n (k * n) ?rows) [0..<m]))"
    by (simp add: list_owned_def map_concat comp_def)
  with assms show ?thesis by (simp add: pages_tile)
qed

section \<open>The snapshot\<close>

text \<open>Walking over the rows of one run, the first time the loop meets it.\<close>

lemma gather_run:
  assumes "i \<notin> set (map fst artifacts)" and "r_id r = i" and "i \<notin> set (map fst runs)"
  shows "foldl gather (runs, artifacts) (artifact_join d r)
    = (runs @ [(i, r)], artifacts @ [(i, artifacts_of i d)])"
proof -
  have app: "AList.update i v xs = xs @ [(i, v)]" if "i \<notin> set (map fst xs)" for v and xs :: "(uuid \<times> 'v) list"
    using that by (induction xs) auto
  have upd: "AList.update i v (xs @ [(i, w)]) = xs @ [(i, v)]" if "i \<notin> set (map fst xs)"
    for v w and xs :: "(uuid \<times> 'v) list" using that by (induction xs) auto
  have more: "foldl gather (runs @ [(i, r)], artifacts @ [(i, as)]) (map (\<lambda>a. (r, Some a)) bs)
      = (runs @ [(i, r)], artifacts @ [(i, as @ bs)])" for as bs
    using assms
  proof (induction bs arbitrary: as)
    case (Cons b bs)
    then have "map_of (artifacts @ [(i, as)]) i = Some as" by (simp add: map_of_eq_None_iff map_add_Some_iff)
    with Cons show ?case by (simp add: gather_def upd del: map_of_append)
  qed simp
  have none: "map_of artifacts i = None" using assms(1) by (simp add: map_of_eq_None_iff image_def)
  show ?thesis
  proof (cases "artifacts_of i d")
    case Nil
    with assms none show ?thesis by (simp add: artifact_join_def gather_def app)
  next
    case (Cons b bs)
    with assms none more [of "[b]" bs] show ?thesis by (simp add: artifact_join_def gather_def app)
  qed
qed

lemma gather_runs:
  assumes "distinct (map r_id rs)" and "set (map r_id rs) \<inter> set (map fst runs) = {}" and "map fst artifacts = map fst runs"
  shows "foldl gather (runs, artifacts) (concat (map (artifact_join d) rs))
    = (runs @ map (\<lambda>r. (r_id r, r)) rs, artifacts @ map (\<lambda>r. (r_id r, artifacts_of (r_id r) d)) rs)"
  using assms
proof (induction rs arbitrary: runs artifacts)
  case (Cons r rs)
  have "foldl gather (runs, artifacts) (artifact_join d r)
      = (runs @ [(r_id r, r)], artifacts @ [(r_id r, artifacts_of (r_id r) d)])"
    using Cons.prems by (intro gather_run) (auto simp flip: set_map)
  then show ?case using Cons by auto
qed simp

lemma feed_snapshot_eq:
  assumes "distinct (map r_id (runs_t d))"
  shows "feed_snapshot u d = Inr (map (\<lambda>r. run_detail_of r (artifacts_of (r_id r) d)) (snapshot_runs u d))"
proof -
  let ?rs = "snapshot_runs u d"
  have dist: "distinct (map r_id ?rs)"
    unfolding snapshot_runs_def by (rule distinct_newest_first) (simp add: assms distinct_map_filter)
  then have look: "map_of (map (\<lambda>r. (r_id r, artifacts_of (r_id r) d)) ?rs) (r_id r) = Some (artifacts_of (r_id r) d)"
    if "r \<in> set ?rs" for r using that by (intro map_of_is_SomeI) (auto simp: comp_def)
  have "map_res (\<lambda>(i, r). case map_of (map (\<lambda>r. (r_id r, artifacts_of (r_id r) d)) ?rs) i of
        None \<Rightarrow> Inl (KeyError (uuid_str i)) | Some as \<Rightarrow> Inr (run_detail_of r as)) (map (\<lambda>r. (r_id r, r)) ?rs)
      = Inr (map (\<lambda>(i, r). run_detail_of r (artifacts_of (r_id r) d)) (map (\<lambda>r. (r_id r, r)) ?rs))"
    by (rule map_res_map) (auto simp: look)
  then show ?thesis
    unfolding feed_snapshot_def using gather_runs [OF dist, of "[]" "[]" d] by (simp add: comp_def)
qed

lemma snapshot_is_find:
  assumes "distinct (map r_id (runs_t d))" and "feed_snapshot u d = Inr xs" and "x \<in> set xs"
  shows "find_detail (rn_id x) d = Some x \<and> rn_requested_by x = Some u"
proof -
  from assms(2,3) obtain r where r: "r \<in> set (snapshot_runs u d)" "x = run_detail_of r (artifacts_of (r_id r) d)"
    by (auto simp: feed_snapshot_eq [OF assms(1)])
  then have "r \<in> set (runs_t d)" "r_requested_by r = Some u" by (auto simp: snapshot_runs_def)
  with r find_by_distinct [OF assms(1)] show ?thesis by (simp add: find_detail_eq [OF assms(1)])
qed

end
