(* ===== verification/Feed.thy ===== *)
theory Feed
  imports Queries
begin

text \<open>
  The live feed (\<open>application/runs/feed.py\<close>): bounded personal subscriptions, their pending
  updates and the fan-out of changed runs. Every definition is one section of the code under
  the feed's lock. The set of subscriptions is the list of them in the order they joined; a
  subscription is known by a number, as the object is by its identity. \<open>sub_scheduled\<close> counts
  the callbacks that \<open>call_soon_threadsafe\<close> has queued on the event loop, \<open>sub_changed\<close> is the
  \<open>asyncio.Event\<close> they set.
\<close>

section \<open>State\<close>

record subscription =
  sub_id :: nat
  sub_user :: uuid
  sub_changed :: bool
  sub_scheduled :: nat
  sub_pending :: "(uuid \<times> run_detail) list"
  sub_error :: "string option"

record run_feed =
  fd_per_user :: int
  fd_total :: int
  fd_pending_limit :: int
  fd_subscriptions :: "subscription list"
  fd_available :: bool

definition make_feed :: "int \<Rightarrow> int \<Rightarrow> int \<Rightarrow> run_feed" where
  "make_feed p_user p_total p_pending =
     \<lparr>fd_per_user = p_user, fd_total = p_total, fd_pending_limit = p_pending, fd_subscriptions = [], fd_available = False\<rparr>"

definition new_subscription :: "nat \<Rightarrow> uuid \<Rightarrow> subscription" where
  "new_subscription t u =
     \<lparr>sub_id = t, sub_user = u, sub_changed = False, sub_scheduled = 0, sub_pending = [], sub_error = None\<rparr>"

section \<open>Subscriptions\<close>

definition wake :: "subscription \<Rightarrow> subscription" where
  "wake s = s\<lparr>sub_scheduled := Suc (sub_scheduled s)\<rparr>"

text \<open>The event loop runs a queued \<open>changed.set\<close>.\<close>

definition run_callback :: "subscription \<Rightarrow> subscription" where
  "run_callback s = (if sub_scheduled s = 0 then s
     else s\<lparr>sub_scheduled := sub_scheduled s - 1, sub_changed := True\<rparr>)"

definition fail_sub :: "string \<Rightarrow> subscription \<Rightarrow> subscription" where
  "fail_sub code s = (if sub_error s = None then wake (s\<lparr>sub_error := Some code, sub_pending := []\<rparr>) else s)"

definition map_subs :: "(subscription \<Rightarrow> subscription) \<Rightarrow> run_feed \<Rightarrow> run_feed" where
  "map_subs g f = f\<lparr>fd_subscriptions := map g (fd_subscriptions f)\<rparr>"

definition on_sub :: "nat \<Rightarrow> (subscription \<Rightarrow> subscription) \<Rightarrow> run_feed \<Rightarrow> run_feed" where
  "on_sub t g = map_subs (\<lambda>s. if sub_id s = t then g s else s)"

definition find_sub :: "nat \<Rightarrow> run_feed \<Rightarrow> subscription option" where
  "find_sub t f = find_by sub_id t (fd_subscriptions f)"

definition feed_up :: "run_feed \<Rightarrow> run_feed" where
  "feed_up f = f\<lparr>fd_available := True\<rparr>"

definition feed_down :: "run_feed \<Rightarrow> run_feed" where
  "feed_down f = map_subs (fail_sub ''unavailable'') (f\<lparr>fd_available := False\<rparr>)"

definition subscribe :: "nat \<Rightarrow> uuid \<Rightarrow> run_feed \<Rightarrow> exn + run_feed" where
  "subscribe t u f =
     (if \<not> fd_available f then Inl FeedUnavailable
      else if int (length (fd_subscriptions f)) \<ge> fd_total f
        \<or> int (count_where (\<lambda>s. sub_user s = u) (fd_subscriptions f)) \<ge> fd_per_user f
      then Inl FeedLimitExceeded
      else Inr (f\<lparr>fd_subscriptions := fd_subscriptions f @ [new_subscription t u]\<rparr>))"

definition unsubscribe :: "nat \<Rightarrow> run_feed \<Rightarrow> run_feed" where
  "unsubscribe t f = f\<lparr>fd_subscriptions := filter (\<lambda>s. sub_id s \<noteq> t) (fd_subscriptions f)\<rparr>"

text \<open>The part of \<open>snapshot\<close> under the lock, after the store was read.\<close>

definition snapshot_ready :: "subscription \<Rightarrow> run_feed \<Rightarrow> exn + run_feed" where
  "snapshot_ready s f =
     (if sub_error s \<noteq> None \<or> \<not> fd_available f then Inl FeedUnavailable
      else Inr (on_sub (sub_id s) (\<lambda>s. s\<lparr>sub_pending := []\<rparr>) f))"

definition drain :: "subscription \<Rightarrow> run_feed \<Rightarrow> (string option \<times> run_detail list) \<times> run_feed" where
  "drain s f = ((sub_error s, map snd (sub_pending s)),
     on_sub (sub_id s) (\<lambda>s. s\<lparr>sub_changed := False, sub_pending := []\<rparr>) f)"

section \<open>Fan-out\<close>

definition deliver_to :: "int \<Rightarrow> run_detail \<Rightarrow> subscription \<Rightarrow> subscription" where
  "deliver_to limit run s =
     (if sub_error s \<noteq> None \<or> Some (sub_user s) \<noteq> rn_requested_by run then s
      else if rn_id run \<notin> fst ` set (sub_pending s) \<and> int (length (sub_pending s)) \<ge> limit
      then fail_sub ''resync_required'' s
      else
        (let s' = s\<lparr>sub_pending := AList.update (rn_id run) run (sub_pending s)\<rparr>
         in if sub_pending s = [] then wake s' else s'))"

definition deliver :: "run_detail \<Rightarrow> run_feed \<Rightarrow> run_feed" where
  "deliver run f = map_subs (deliver_to (fd_pending_limit f) run) f"

definition resync :: "uuid option \<Rightarrow> run_feed \<Rightarrow> run_feed" where
  "resync owner = map_subs (\<lambda>s. if owner = None \<or> owner = Some (sub_user s) then fail_sub ''resync_required'' s else s)"

definition watched :: "run_feed \<Rightarrow> uuid list" where
  "watched f = map sub_user (filter (\<lambda>s. sub_error s = None) (fd_subscriptions f))"

text \<open>What \<open>publish\<close> does with one change before it reads the store, and after.\<close>

datatype publish_action = Stop | Skip | Resync | Read

definition publish_action_of :: "bool \<Rightarrow> uuid option \<Rightarrow> run_feed \<Rightarrow> publish_action" where
  "publish_action_of store_failed owner f =
     (if watched f = [] then Stop
      else if owner \<noteq> None \<and> the owner \<notin> set (watched f) then Skip
      else if store_failed then Resync else Read)"

definition publish_found :: "uuid option \<Rightarrow> exn + run_detail option \<Rightarrow> bool \<Rightarrow> run_feed \<Rightarrow> bool \<times> run_feed" where
  "publish_found owner res store_failed f =
     (case res of
        Inl _ \<Rightarrow> (True, resync owner f)
      | Inr None \<Rightarrow> (store_failed, f)
      | Inr (Some run) \<Rightarrow> (store_failed, if rn_requested_by run = None then f else deliver run f))"

fun publish_from :: "(uuid \<Rightarrow> exn + run_detail option) \<Rightarrow> (uuid \<times> uuid option) list \<Rightarrow> bool \<Rightarrow> run_feed \<Rightarrow> run_feed" where
  "publish_from lookup [] store_failed f = f"
| "publish_from lookup ((i, owner) # changes) store_failed f =
     (case publish_action_of store_failed owner f of
        Stop \<Rightarrow> f
      | Skip \<Rightarrow> publish_from lookup changes store_failed f
      | Resync \<Rightarrow> publish_from lookup changes store_failed (resync owner f)
      | Read \<Rightarrow> (case publish_found owner (lookup i) store_failed f of
          (failed', f') \<Rightarrow> publish_from lookup changes failed' f'))"

definition publish :: "(uuid \<Rightarrow> exn + run_detail option) \<Rightarrow> (uuid \<times> uuid option) list \<Rightarrow> run_feed \<Rightarrow> run_feed" where
  "publish lookup changes = publish_from lookup changes False"

section \<open>Bounds and wake-ups\<close>

definition sub_ok :: "int \<Rightarrow> subscription \<Rightarrow> bool" where
  "sub_ok limit s \<longleftrightarrow> distinct (map fst (sub_pending s)) \<and> int (length (sub_pending s)) \<le> max 0 limit
     \<and> (sub_error s \<noteq> None \<longrightarrow> sub_pending s = [])
     \<and> (sub_pending s \<noteq> [] \<longrightarrow> sub_changed s \<or> 0 < sub_scheduled s)
     \<and> (\<forall>(i, x) \<in> set (sub_pending s). rn_id x = i \<and> rn_requested_by x = Some (sub_user s))"

definition feed_ok :: "run_feed \<Rightarrow> bool" where
  "feed_ok f \<longleftrightarrow> distinct (map sub_id (fd_subscriptions f))
     \<and> int (length (fd_subscriptions f)) \<le> max 0 (fd_total f)
     \<and> (\<forall>u. int (count_where (\<lambda>s. sub_user s = u) (fd_subscriptions f)) \<le> max 0 (fd_per_user f))
     \<and> list_all (sub_ok (fd_pending_limit f)) (fd_subscriptions f)
     \<and> (fd_available f \<or> list_all (\<lambda>s. sub_error s \<noteq> None) (fd_subscriptions f))"

lemma sub_ok_new: "sub_ok limit (new_subscription t u)"
  by (simp add: sub_ok_def new_subscription_def)

lemma sub_ok_fail: "sub_ok limit s \<Longrightarrow> sub_ok limit (fail_sub code s)"
  by (auto simp: sub_ok_def fail_sub_def wake_def)

lemma sub_ok_callback: "sub_ok limit s \<Longrightarrow> sub_ok limit (run_callback s)"
  by (auto simp: sub_ok_def run_callback_def)

lemma length_update: "length (AList.update k v xs) = (if k \<in> fst ` set xs then length xs else Suc (length xs))"
  by (induction xs) auto

lemma sub_ok_deliver:
  assumes "sub_ok limit s" shows "sub_ok limit (deliver_to limit run s)"
proof -
  have mem: "p \<in> set (AList.update k v xs) \<Longrightarrow> p = (k, v) \<or> p \<in> set xs" for p k v and xs :: "(uuid \<times> run_detail) list"
    by (induction xs) (auto split: if_splits)
  show ?thesis
    using assms sub_ok_fail [OF assms, of "''resync_required''"]
    unfolding deliver_to_def Let_def
    by (auto simp: sub_ok_def wake_def length_update distinct_update dest!: mem split: if_splits)
qed

lemma sub_id_keep [simp]:
  "sub_id (wake s) = sub_id s" "sub_user (wake s) = sub_user s"
  "sub_id (fail_sub c s) = sub_id s" "sub_user (fail_sub c s) = sub_user s"
  "sub_id (run_callback s) = sub_id s" "sub_user (run_callback s) = sub_user s"
  "sub_id (deliver_to n run s) = sub_id s" "sub_user (deliver_to n run s) = sub_user s"
  by (simp_all add: wake_def fail_sub_def run_callback_def deliver_to_def Let_def)

lemma map_subs_fields [simp]:
  "fd_subscriptions (map_subs g f) = map g (fd_subscriptions f)" "fd_available (map_subs g f) = fd_available f"
  "fd_total (map_subs g f) = fd_total f" "fd_per_user (map_subs g f) = fd_per_user f"
  "fd_pending_limit (map_subs g f) = fd_pending_limit f"
  by (simp_all add: map_subs_def)

lemma feed_ok_map:
  assumes "feed_ok f" and "\<And>s. sub_id (g s) = sub_id s" and "\<And>s. sub_user (g s) = sub_user s"
    and "\<And>s. sub_ok (fd_pending_limit f) s \<Longrightarrow> sub_ok (fd_pending_limit f) (g s)"
    and "\<And>s. sub_error s \<noteq> None \<Longrightarrow> sub_error (g s) \<noteq> None"
  shows "feed_ok (map_subs g f)"
proof -
  have "count_where (\<lambda>s. sub_user s = u) (map g xs) = count_where (\<lambda>s. sub_user s = u) xs" for u xs
    by (induction xs) (simp_all add: assms(3))
  with assms show ?thesis by (auto simp: feed_ok_def list_all_iff comp_def)
qed

lemma fail_sub_error: "sub_error (fail_sub c s) \<noteq> None"
  by (simp add: fail_sub_def wake_def)

lemma sub_error_mono:
  "sub_error s \<noteq> None \<Longrightarrow> sub_error (run_callback s) \<noteq> None"
  "sub_error s \<noteq> None \<Longrightarrow> deliver_to n run s = s"
  by (auto simp: run_callback_def deliver_to_def)

lemma feed_ok_make: "feed_ok (make_feed p t n)"
  by (simp add: feed_ok_def make_feed_def)

lemma feed_ok_up: "feed_ok f \<Longrightarrow> feed_ok (feed_up f)"
  by (simp add: feed_ok_def feed_up_def)

lemma feed_ok_down: "feed_ok f \<Longrightarrow> feed_ok (feed_down f)"
  using feed_ok_map [of "feed_up f" "fail_sub ''unavailable''", OF feed_ok_up] sub_ok_fail fail_sub_error
  by (auto simp: feed_ok_def feed_down_def feed_up_def map_subs_def list_all_iff)

lemma feed_ok_subscribe:
  assumes "feed_ok f" and "subscribe t u f = Inr f'" and "t \<notin> sub_id ` set (fd_subscriptions f)"
  shows "feed_ok f'"
  using assms sub_ok_new [of "fd_pending_limit f" t u]
  by (auto simp: feed_ok_def subscribe_def new_subscription_def not_le split: if_splits)

lemma feed_ok_unsubscribe:
  assumes "feed_ok f" shows "feed_ok (unsubscribe t f)"
proof -
  have "count_where P (filter Q xs) \<le> count_where P xs" for P Q and xs :: "subscription list"
    by (induction xs) auto
  with assms show ?thesis
    by (auto simp: feed_ok_def unsubscribe_def distinct_map_filter list_all_iff
        intro: order_trans [OF _ le_max_iff_disj [THEN iffD2]])
      (meson length_filter_le of_nat_mono order_trans)+
qed

lemma feed_ok_ready: "feed_ok f \<Longrightarrow> snapshot_ready s f = Inr f' \<Longrightarrow> feed_ok f'"
  by (auto simp: snapshot_ready_def on_sub_def sub_ok_def split: if_splits intro!: feed_ok_map)

lemma feed_ok_drain: "feed_ok f \<Longrightarrow> drain s f = (r, f') \<Longrightarrow> feed_ok f'"
  by (auto simp: drain_def on_sub_def sub_ok_def intro!: feed_ok_map)

lemma feed_ok_callback: "feed_ok f \<Longrightarrow> feed_ok (on_sub t run_callback f)"
  unfolding on_sub_def by (rule feed_ok_map) (auto simp: sub_ok_callback sub_error_mono simp del: not_None_eq)

lemma feed_ok_deliver: "feed_ok f \<Longrightarrow> feed_ok (deliver run f)"
  unfolding deliver_def by (rule feed_ok_map) (auto simp: sub_ok_deliver sub_error_mono)

lemma feed_ok_resync: "feed_ok f \<Longrightarrow> feed_ok (resync owner f)"
  unfolding resync_def by (rule feed_ok_map) (auto simp: sub_ok_fail fail_sub_error simp del: not_None_eq)

lemma feed_ok_found: "feed_ok f \<Longrightarrow> publish_found owner res b f = (b', f') \<Longrightarrow> feed_ok f'"
  by (auto simp: publish_found_def feed_ok_resync feed_ok_deliver split: sum.splits option.splits if_splits)

lemma feed_ok_publish_from: "feed_ok f \<Longrightarrow> feed_ok (publish_from lookup changes b f)"
proof (induction lookup changes b f rule: publish_from.induct)
  case (2 lookup i owner changes b f)
  then show ?case by (auto simp: feed_ok_resync split: publish_action.splits prod.splits dest: feed_ok_found)
qed simp

end
