(* ===== verification/Notifications.thy ===== *)
theory Notifications
  imports Feed "HOL-Library.Multiset"
begin

text \<open>
  From a commit to the feed: the triggers that announce a changed run
  (\<open>alembic/versions/0006_run_notifications.py\<close>) and the listener that reads their payloads
  in batches (\<open>infrastructure/run_notifications.py\<close>). A transaction's notifications are
  those of the rows it changes in the end; PostgreSQL delivers them when it commits.
\<close>

section \<open>Triggers\<close>

definition note_payload :: "uuid \<Rightarrow> uuid option \<Rightarrow> string" where
  "note_payload i owner = uuid_str i @ (case owner of None \<Rightarrow> [] | Some o' \<Rightarrow> '':'' @ uuid_str o')"

definition public_columns :: "run_row \<Rightarrow> uuid \<times> uuid option \<times> json \<times> run_status \<times> timestamp \<times> timestamp option
    \<times> timestamp option \<times> timestamp option \<times> string option" where
  "public_columns r = (r_model_release_id r, r_requested_by r, r_parameters r, r_status r, r_created_at r,
     r_accepted_at r, r_dispatch_started_at r, r_finished_at r, r_failure_code r)"

text \<open>An inserted row, or an updated one that differs in a public column.\<close>

definition run_changed :: "db \<Rightarrow> run_row \<Rightarrow> bool" where
  "run_changed d r = (case find_run (r_id r) d of None \<Rightarrow> True | Some old \<Rightarrow> public_columns r \<noteq> public_columns old)"

definition run_notes :: "db \<Rightarrow> db \<Rightarrow> string list" where
  "run_notes d d' =
     map (\<lambda>r. note_payload (r_id r) (r_requested_by r)) (filter (run_changed d) (runs_t d'))
     @ map (\<lambda>a. note_payload (ar_run_id a) None) (filter (\<lambda>a. a \<notin> set (artifacts_t d)) (artifacts_t d'))
     @ map (\<lambda>a. note_payload (ar_run_id a) None) (filter (\<lambda>a. a \<notin> set (artifacts_t d')) (artifacts_t d))"

section \<open>The listener\<close>

definition parse_payload :: "string \<Rightarrow> exn + (uuid \<times> uuid option)" where
  "parse_payload payload =
     (let run_id = takeWhile (\<lambda>c. c \<noteq> CHR '':'') payload;
          rest = dropWhile (\<lambda>c. c \<noteq> CHR '':'') payload;
          owner = tl rest
      in if rest \<noteq> [] \<and> owner = [] then Inl (ValueError payload)
         else case uuid_parse run_id of
           None \<Rightarrow> Inl (ValueError ''badly formed hexadecimal UUID string'')
         | Some i \<Rightarrow>
             if owner = [] then Inr (i, None)
             else case uuid_parse owner of
               None \<Rightarrow> Inl (ValueError ''badly formed hexadecimal UUID string'')
             | Some u \<Rightarrow> Inr (i, Some u))"

text \<open>One turn of the loop over a batch: \<open>changes[run_id] = owner or changes.get(run_id)\<close>.\<close>

definition note_change :: "(uuid \<times> uuid option) list \<Rightarrow> string \<Rightarrow> (uuid \<times> uuid option) list" where
  "note_change changes payload =
     (case parse_payload payload of
        Inl _ \<Rightarrow> changes
      | Inr (i, owner) \<Rightarrow>
          AList.update i (case owner of Some u \<Rightarrow> Some u
            | None \<Rightarrow> (case map_of changes i of Some known \<Rightarrow> known | None \<Rightarrow> None)) changes)"

definition collect_changes :: "string list \<Rightarrow> (uuid \<times> uuid option) list" where
  "collect_changes payloads = foldl note_change [] payloads"

section \<open>Payloads survive the channel\<close>

lemma uuid_str_nonempty [simp]: "uuid_str i \<noteq> []"
  by (simp add: uuid_str_def Let_def)

lemma parse_note_payload [simp]: "parse_payload (note_payload i owner) = Inr (i, owner)"
proof -
  have all: "\<And>c. c \<in> set (uuid_str i) \<Longrightarrow> c \<noteq> CHR '':''" using uuid_str_no_colon by metis
  have run: "takeWhile (\<lambda>c. c \<noteq> CHR '':'') (uuid_str i @ t) = uuid_str i @ takeWhile (\<lambda>c. c \<noteq> CHR '':'') t"
    "dropWhile (\<lambda>c. c \<noteq> CHR '':'') (uuid_str i @ t) = dropWhile (\<lambda>c. c \<noteq> CHR '':'') t" for t
    using all by (simp_all add: takeWhile_append2 dropWhile_append2)
  have id: "takeWhile (\<lambda>c. c \<noteq> CHR '':'') (uuid_str i) = uuid_str i" "dropWhile (\<lambda>c. c \<noteq> CHR '':'') (uuid_str i) = []"
    using all by simp_all
  show ?thesis
    by (cases owner) (simp_all add: parse_payload_def note_payload_def run id Let_def uuid_roundtrip)
qed

text \<open>What a batch remembers of its payloads.\<close>

definition payload_ids :: "string list \<Rightarrow> uuid set" where
  "payload_ids payloads = {i. \<exists>p \<in> set payloads. \<exists>owner. parse_payload p = Inr (i, owner)}"

lemma payload_ids_simps [simp]:
  "payload_ids [] = {}" "payload_ids (xs @ ys) = payload_ids xs \<union> payload_ids ys"
  by (auto simp: payload_ids_def)

lemma note_change_keys:
  "fst ` set (note_change changes p) = fst ` set changes \<union> payload_ids [p]"
  by (auto simp: note_change_def payload_ids_def update_conv' dom_def split: sum.splits simp flip: dom_map_of_conv_image_fst)

lemma foldl_note_change_keys:
  "fst ` set (foldl note_change changes ps) = fst ` set changes \<union> payload_ids ps"
proof (induction ps arbitrary: changes)
  case (Cons p ps)
  have "payload_ids (p # ps) = payload_ids [p] \<union> payload_ids ps" by (auto simp: payload_ids_def)
  with Cons note_change_keys [of changes p] show ?case by auto
qed simp

lemma collect_changes_keys: "fst ` set (collect_changes ps) = payload_ids ps"
  by (simp add: collect_changes_def foldl_note_change_keys)

lemma collect_changes_owner:
  assumes "(i, Some u) \<in> set (collect_changes ps)"
  shows "\<exists>p \<in> set ps. parse_payload p = Inr (i, Some u)"
proof -
  have mem: "q \<in> set (AList.update k v xs) \<Longrightarrow> q = (k, v) \<or> q \<in> set xs" for q k v and xs :: "(uuid \<times> uuid option) list"
    by (induction xs) (auto split: if_splits)
  have one: "(i, Some u) \<in> set (note_change changes p) \<Longrightarrow> (i, Some u) \<in> set changes \<or> parse_payload p = Inr (i, Some u)"
    for changes p
    by (auto simp: note_change_def split: sum.splits option.splits dest!: mem map_of_SomeD)
  have "(i, Some u) \<in> set (foldl note_change changes ps) \<Longrightarrow>
      (i, Some u) \<in> set changes \<or> (\<exists>p \<in> set ps. parse_payload p = Inr (i, Some u))" for changes
  proof (induction ps arbitrary: changes)
    case (Cons p ps)
    then show ?case using one [of changes p] by auto
  qed simp
  with assms show ?thesis by (force simp: collect_changes_def)
qed

section \<open>No change goes unannounced\<close>

lemma run_notes_valid:
  assumes "p \<in> set (run_notes d d')" and "parse_payload p = Inr (i, Some u)"
  shows "\<exists>r \<in> set (runs_t d'). r_id r = i \<and> r_requested_by r = Some u"
  using assms by (auto simp: run_notes_def)

lemma run_notes_parse:
  assumes "p \<in> set (run_notes d d')" shows "\<exists>i owner. parse_payload p = Inr (i, owner)"
  using assms by (auto simp: run_notes_def)

lemma run_notes_ids:
  "r \<in> set (runs_t d') \<Longrightarrow> run_changed d r \<Longrightarrow> r_id r \<in> payload_ids (run_notes d d')"
  "a \<in> set (artifacts_t d') \<Longrightarrow> a \<notin> set (artifacts_t d) \<Longrightarrow> ar_run_id a \<in> payload_ids (run_notes d d')"
  "a \<in> set (artifacts_t d) \<Longrightarrow> a \<notin> set (artifacts_t d') \<Longrightarrow> ar_run_id a \<in> payload_ids (run_notes d d')"
  by (force simp: run_notes_def payload_ids_def intro: parse_note_payload)+

lemma artifacts_of_cong:
  assumes "distinct (map artifact_key (artifacts_t d))" and "distinct (map artifact_key (artifacts_t d'))"
    and "{a \<in> set (artifacts_t d). ar_run_id a = i} = {a \<in> set (artifacts_t d'). ar_run_id a = i}"
  shows "artifacts_of i d = artifacts_of i d'"
proof -
  let ?f = "filter (\<lambda>a. ar_run_id a = i)"
  have dist: "distinct (?f (artifacts_t x))" if "distinct (map artifact_key (artifacts_t x))" for x
    using that by (simp add: distinct_map)
  have "mset (?f (artifacts_t d)) = mset (?f (artifacts_t d'))"
    using assms(3) by (subst set_eq_iff_mset_eq_distinct [OF dist [OF assms(1)] dist [OF assms(2)], symmetric]) simp
  moreover have "inj_on ar_object_key (set (?f (artifacts_t d)))"
    using assms(1) by (force simp: distinct_map inj_on_def artifact_key_def)
  ultimately show ?thesis
    unfolding artifacts_of_def by (intro sort_key_inj_key_eq) simp_all
qed

lemma run_notes_complete:
  assumes wf: "wf_runs d" "wf_runs d'" and adv: "runs_advance d d'" and quiet: "i \<notin> payload_ids (run_notes d d')"
  shows "find_detail i d' = find_detail i d"
proof -
  note dist = wf_runsD(1) [OF wf(1)] wf_runsD(1) [OF wf(2)]
  have arts: "artifacts_of i d = artifacts_of i d'"
  proof (rule artifacts_of_cong)
    show "distinct (map artifact_key (artifacts_t d))" "distinct (map artifact_key (artifacts_t d'))"
      using wf by (simp_all add: wf_runs_def)
    show "{a \<in> set (artifacts_t d). ar_run_id a = i} = {a \<in> set (artifacts_t d'). ar_run_id a = i}"
      using quiet run_notes_ids(2,3) [where d = d and d' = d'] by blast
  qed
  have same: "run_detail_of r' as = run_detail_of r as"
    if "find_run i d' = Some r'" "find_run i d = Some r" for r r' as
  proof -
    from find_by_Some [OF that(1)] find_by_Some [OF that(2)] have ids: "r' \<in> set (runs_t d')" "r_id r' = i" "r_id r = i"
      by auto
    with quiet run_notes_ids(1) have "\<not> run_changed d r'" by blast
    with ids that(2) show ?thesis
      by (simp add: run_changed_def public_columns_def run_detail_of_def run_summary_of_def)
  qed
  show ?thesis
  proof (cases "find_run i d'")
    case None
    with adv have "find_run i d = None" unfolding runs_advance_def by (metis option.exhaust option.distinct(1))
    with None show ?thesis by (simp add: find_detail_eq dist)
  next
    case (Some r')
    from find_by_Some [OF Some] have ids: "r' \<in> set (runs_t d')" "r_id r' = i" by auto
    with quiet run_notes_ids(1) have "\<not> run_changed d r'" by blast
    then obtain r where r: "find_run i d = Some r" using ids by (auto simp: run_changed_def split: option.splits)
    with Some same [OF Some r] arts show ?thesis by (simp add: find_detail_eq dist)
  qed
qed

end
