(* ===== verification/Run_Outcomes.thy ===== *)
theory Run_Outcomes
  imports Run_State
begin

text \<open>
  What the shared terminal write does (\<open>infrastructure/persistence/run_outcomes.py\<close>): it is a
  no-op on a finished run, and otherwise commits status, artifacts and one event together.
\<close>

definition artifact_row_of :: "uuid \<Rightarrow> artifact \<Rightarrow> artifact_row" where
  "artifact_row_of i a = \<lparr>ar_run_id = i, ar_object_key = a_object_key a, ar_bucket = a_bucket a,
     ar_size_bytes = a_size_bytes a\<rparr>"

definition outbox_row_of :: "stamp \<Rightarrow> uuid \<Rightarrow> string \<Rightarrow> outbox_row" where
  "outbox_row_of st i ty = \<lparr>ob_id = st_uuid st, ob_run_id = i, ob_event_type = ty,
     ob_created_at = st_txtime st, ob_published_at = None\<rparr>"

definition finished :: "stamp \<Rightarrow> string option \<Rightarrow> run_row \<Rightarrow> run_row" where
  "finished st code r = r\<lparr>r_status := outcome_status code, r_failure_code := code,
     r_finished_at := Some (st_clock st)\<rparr>"

lemma insert_artifacts_Cons:
  assumes "insert_artifacts i (a # as) d = Inr d'"
  shows "insert_artifacts i as (d\<lparr>artifacts_t := artifacts_t d @ [artifact_row_of i a]\<rparr>) = Inr d'"
    and "0 \<le> a_size_bytes a" and "(i, a_object_key a) \<notin> artifact_key ` set (artifacts_t d)"
  using assms
  by (auto simp: insert_artifact_def artifact_row_of_def artifact_key_def split: if_splits)

lemma insert_artifacts_Inr:
  assumes "insert_artifacts i as d = Inr d'"
  shows "d' = d\<lparr>artifacts_t := artifacts_t d @ map (artifact_row_of i) as\<rparr>
    \<and> (distinct (map artifact_key (artifacts_t d)) \<longrightarrow> distinct (map artifact_key (artifacts_t d')))
    \<and> (\<forall>a \<in> set as. 0 \<le> a_size_bytes a)"
  using assms
proof (induction as arbitrary: d)
  case Nil
  then show ?case by simp
next
  case (Cons a as)
  let ?d1 = "d\<lparr>artifacts_t := artifacts_t d @ [artifact_row_of i a]\<rparr>"
  note c = insert_artifacts_Cons [OF Cons.prems]
  note ih = Cons.IH [OF c(1)]
  have "distinct (map artifact_key (artifacts_t d'))" if "distinct (map artifact_key (artifacts_t d))"
  proof -
    have "artifact_key (artifact_row_of i a) \<notin> artifact_key ` set (artifacts_t d)"
      using c(3) by (simp add: artifact_row_of_def artifact_key_def)
    with that have "distinct (map artifact_key (artifacts_t ?d1))" by simp
    with ih show ?thesis by blast
  qed
  moreover from ih have "d' = d\<lparr>artifacts_t := artifacts_t d @ map (artifact_row_of i) (a # as)\<rparr>" by simp
  ultimately show ?case using ih c(2) by simp
qed

lemma insert_outbox_Inr:
  "insert_outbox st i ty d = Inr d' \<longleftrightarrow>
     st_uuid st \<notin> ob_id ` set (outbox_t d) \<and> i \<in> r_id ` set (runs_t d)
     \<and> d' = d\<lparr>outbox_t := outbox_t d @ [outbox_row_of st i ty]\<rparr>"
  by (auto simp: insert_outbox_def outbox_row_of_def)

lemma finish_row_terminal: "terminal r \<Longrightarrow> finish_row st r code as d = Inr d"
  by (simp add: finish_row_def)

lemma finish_row_effect:
  assumes "finish_row st r code as d = Inr d'" and "\<not> terminal r"
  shows "d' = d\<lparr>runs_t := update_by r_id (r_id r) (finished st code) (runs_t d),
      artifacts_t := artifacts_t d @ map (artifact_row_of (r_id r)) as,
      outbox_t := outbox_t d @ [outbox_row_of st (r_id r) (''run.'' @ status_str (outcome_status code))]\<rparr>"
    and "st_uuid st \<notin> ob_id ` set (outbox_t d)"
    and "distinct (map artifact_key (artifacts_t d)) \<Longrightarrow> distinct (map artifact_key (artifacts_t d'))"
    and "\<And>a. a \<in> set as \<Longrightarrow> 0 \<le> a_size_bytes a"
proof -
  let ?d1 = "update_run (r_id r) (finished st code) d"
  have fn: "finished st code = (\<lambda>r. r\<lparr>r_status := outcome_status code, r_failure_code := code,
      r_finished_at := Some (st_clock st)\<rparr>)"
    by (simp add: finished_def fun_eq_iff)
  from assms obtain d2 where ins: "insert_artifacts (r_id r) as ?d1 = Inr d2"
    and out: "insert_outbox st (r_id r) (''run.'' @ status_str (outcome_status code)) d2 = Inr d'"
    by (auto simp: finish_row_def Let_def fn)
  note i = insert_artifacts_Inr [OF ins]
  from out i show "d' = d\<lparr>runs_t := update_by r_id (r_id r) (finished st code) (runs_t d),
      artifacts_t := artifacts_t d @ map (artifact_row_of (r_id r)) as,
      outbox_t := outbox_t d @ [outbox_row_of st (r_id r) (''run.'' @ status_str (outcome_status code))]\<rparr>"
    and "st_uuid st \<notin> ob_id ` set (outbox_t d)"
    by (auto simp: insert_outbox_Inr update_run_def)
  show "distinct (map artifact_key (artifacts_t d'))" if "distinct (map artifact_key (artifacts_t d))"
  proof -
    have "artifacts_t d' = artifacts_t d2" using out by (auto simp: insert_outbox_Inr)
    moreover have "distinct (map artifact_key (artifacts_t ?d1))" using that by (simp add: update_run_def)
    ultimately show ?thesis using i by metis
  qed
  show "\<And>a. a \<in> set as \<Longrightarrow> 0 \<le> a_size_bytes a" using i by blast
qed

lemma finished_simps [simp]:
  "r_id (finished st code r) = r_id r" "r_status (finished st code r) = outcome_status code"
  "same_request r (finished st code r)" "terminal (finished st code r)"
  "\<not> accepted_unfinished (finished st code r)"
  by (auto simp: finished_def same_request_def outcome_terminal accepted_unfinished_def
      active_statuses_def outcome_status_def terminal_statuses_def)

lemma finished_lifecycle:
  assumes "lifecycle_ok r" and "\<not> truthy code \<Longrightarrow> r_status r = RUNNING"
  shows "lifecycle_ok (finished st code r)"
  using assms by (auto simp: lifecycle_ok_def finished_def outcome_status_def split: run_status.splits)

lemma finish_row_wf_runs:
  assumes wf: "wf_runs d" and row: "find_run i d = Some r"
    and succ: "\<not> truthy code \<Longrightarrow> r_status r \<noteq> QUEUED"
    and fin: "finish_row st r code as d = Inr d'"
  shows "wf_runs d'"
proof (cases "terminal r")
  case True
  with fin wf show ?thesis by (simp add: finish_row_terminal)
next
  case False
  note e = finish_row_effect [OF fin False]
  from find_by_Some [OF row] have r: "r \<in> set (runs_t d)" "r_id r = i" by auto
  have "r_status r = RUNNING" if "\<not> truthy code"
    using succ [OF that] False by (cases "r_status r") (auto simp: terminal_statuses_def)
  then have ok: "lifecycle_ok (finished st code r)"
    by (intro finished_lifecycle wf_runsD(7) [OF wf r(1)])
  show ?thesis
  proof (rule wf_runs_transition [OF wf row, where f = "finished st code" and d' = d'
        and evs = "[outbox_row_of st i (''run.'' @ status_str (outcome_status code))]"
        and as = "map (artifact_row_of i) as"])
    show "expected_events (finished st code r)
        = expected_events r @ map ob_event_type [outbox_row_of st i (''run.'' @ status_str (outcome_status code))]"
      using False by (simp add: expected_events_def outbox_row_of_def outcome_terminal)
    show "distinct (map ob_id (outbox_t d'))"
      using e(1,2) wf_runsD(2) [OF wf] by (auto simp: outbox_row_of_def)
    show "distinct (map artifact_key (artifacts_t d'))"
      by (rule e(3)) (rule wf_runsD(3) [OF wf])
  qed (use ok e(1,4) r False in \<open>auto simp: outbox_row_of_def artifact_row_of_def outcome_terminal\<close>)
qed

lemma finish_row_wf_db:
  assumes wf: "wf_db d" and row: "find_run i d = Some r"
    and succ: "\<not> truthy code \<Longrightarrow> r_status r \<noteq> QUEUED"
    and fin: "finish_row st r code as d = Inr d'"
  shows "wf_db d'"
proof (cases "terminal r")
  case True
  with fin wf show ?thesis by (simp add: finish_row_terminal)
next
  case False
  from find_by_Some [OF row] have r: "r_id r = i" by auto
  note e = finish_row_effect [OF fin False]
  show ?thesis
    by (rule wf_db_transition [OF wf finish_row_wf_runs [OF wf_dbD(1) [OF wf] row succ fin],
          where f = "finished st code"])
      (use e(1) row r in auto)
qed

lemma finish_row_running_count:
  assumes "wf_runs d" and "find_run i d = Some r" and "finish_row st r code as d = Inr d'"
  shows "running_count d' \<le> running_count d"
proof (cases "terminal r")
  case True
  with assms(3) show ?thesis by (simp add: finish_row_terminal)
next
  case False
  from find_by_Some [OF assms(2)] have "r \<in> set (runs_t d)" by auto
  from count_where_update_by [OF wf_runsD(1) [OF assms(1)] this, of "\<lambda>r. r_status r = RUNNING" "finished st code"]
  show ?thesis
    by (auto simp: running_count_def finish_row_effect(1) [OF assms(3) False] outcome_status_def
        split: if_splits)
qed

lemma finish_row_advance:
  assumes "finish_row st r code as d = Inr d'" and "find_run i d = Some r"
  shows "runs_advance d d'"
proof (cases "terminal r")
  case True
  with assms show ?thesis by (simp add: finish_row_terminal)
next
  case False
  from find_by_Some [OF assms(2)] have i: "r_id r = i" by blast
  show ?thesis
  proof (rule runs_advance_update [where f = "finished st code", OF _ _ assms(2)])
    show "runs_t d' = update_by r_id i (finished st code) (runs_t d)"
      by (simp add: finish_row_effect(1) [OF assms(1) False] i)
    show "row_advance r (finished st code r)"
      using False by (cases "r_status r")
        (auto simp: row_advance_def less_eq_run_status_def outcome_status_def terminal_statuses_def,
          auto simp: finished_def)
  qed simp
qed

end
