(* ===== verification/Model_Catalog.thy ===== *)
theory Model_Catalog
  imports Run_Outcomes
begin

text \<open>
  The catalog on the database (\<open>infrastructure/persistence/model_catalog.py\<close>): registration,
  lookup and listing as transactions on the tables. Registration keeps the invariant: in
  particular it never changes what an accepted, unfinished run computes.
\<close>

section \<open>Registration\<close>

definition upsert_model :: "string \<Rightarrow> string \<Rightarrow> db \<Rightarrow> db" where
  "upsert_model model_id display_name d =
     (if model_id \<in> m_id ` set (models_t d) then d
      else d\<lparr>models_t := models_t d @ [\<lparr>m_id = model_id, m_display_name = display_name\<rparr>]\<rparr>)"

definition release_order :: "release_row \<Rightarrow> timestamp \<times> uuid" where
  "release_order r = (rel_created_at r, rel_id r)"

definition matching_release :: "string \<Rightarrow> string \<Rightarrow> db \<Rightarrow> release_row option" where
  "matching_release model_id img d =
     first_of (sort_key release_order
       (filter (\<lambda>r. rel_model_id r = model_id \<and> rel_image_digest r = img) (releases_t d)))"

text \<open>
  PostgreSQL's \<open>parameters ->> 'mode'\<close>: the text of the member, \<open>NULL\<close> when it is absent
  or null. Stored parameters are the ones \<open>prepare\<close> returned, so the member is a string. A
  \<open>NULL\<close> is no mode of either definition and drops out.
\<close>

fun mode_text :: "json \<Rightarrow> string option" where
  "mode_text (JObj kvs) =
     (case map_of kvs ''mode'' of
        None \<Rightarrow> None | Some JNull \<Rightarrow> None | Some (JStr s) \<Rightarrow> Some s | Some v \<Rightarrow> Some (dumps False True v))"
| "mode_text _ = None"

definition active_modes :: "uuid \<Rightarrow> db \<Rightarrow> string list" where
  "active_modes release_id d =
     remdups (List.map_filter (\<lambda>r. mode_text (r_parameters r))
       (filter (\<lambda>r. r_model_release_id r = release_id \<and> r_accepted_at r \<noteq> None
          \<and> r_status r \<in> set active_statuses) (runs_t d)))"

definition insert_release :: "stamp \<Rightarrow> string \<Rightarrow> string \<Rightarrow> json \<Rightarrow> db \<Rightarrow> exn + (release_row \<times> db)" where
  "insert_release st model_id img execution d =
     (if st_uuid st \<in> rel_id ` set (releases_t d) then Inl (unique_violation ''pk_model_releases'')
      else if model_id \<notin> m_id ` set (models_t d)
      then Inl (foreign_key_violation ''fk_model_releases_model_id_models'')
      else
        (let row = \<lparr>rel_id = st_uuid st, rel_model_id = model_id, rel_image_digest = img,
               rel_execution_definition = execution, rel_created_at = st_txtime st\<rparr>
         in Inr (row, d\<lparr>releases_t := releases_t d @ [row]\<rparr>)))"

definition snapshot :: "release_row \<Rightarrow> model_row \<Rightarrow> exn + model_release" where
  "snapshot release model =
     bind_res (release_of_rows model release) (\<lambda>def. Inr \<lparr>mr_id = rel_id release, mr_definition = def\<rparr>)"

definition store_release :: "stamp \<Rightarrow> release_definition \<Rightarrow> db \<Rightarrow> exn + (release_row \<times> db)" where
  "store_release st def d =
     (let execution = definition_to_dict (rd_execution_definition def) in
      case matching_release (rd_model_id def) (rd_image_digest def) d of
        None \<Rightarrow> insert_release st (rd_model_id def) (rd_image_digest def) execution d
      | Some release \<Rightarrow>
          bind_res (definition_from_dict (rel_execution_definition release)) (\<lambda>current.
          bind_res (ensure_active_modes_unchanged current (rd_execution_definition def)
              (active_modes (rel_id release) d)) (\<lambda>_.
          Inr (release\<lparr>rel_execution_definition := execution\<rparr>,
            d\<lparr>releases_t := update_by rel_id (rel_id release)
                (\<lambda>r. r\<lparr>rel_execution_definition := execution\<rparr>) (releases_t d)\<rparr>))))"

definition rename_model :: "string \<Rightarrow> string \<Rightarrow> db \<Rightarrow> db" where
  "rename_model model_id display_name d =
     d\<lparr>models_t := update_by m_id model_id (\<lambda>m. m\<lparr>m_display_name := display_name\<rparr>) (models_t d)\<rparr>"

definition register_body :: "stamp \<Rightarrow> release_definition \<Rightarrow> db \<Rightarrow> exn + (model_release \<times> db)" where
  "register_body st def d =
     (let d1 = rename_model (rd_model_id def) (rd_display_name def)
            (upsert_model (rd_model_id def) (rd_display_name def) d)
      in bind_res (store_release st def d1) (\<lambda>(release, d2).
         case find_model (rd_model_id def) d2 of
           None \<Rightarrow> Inl AttributeError
         | Some model \<Rightarrow> bind_res (snapshot release model) (\<lambda>s. Inr (s, d2))))"

definition register :: "stamp \<Rightarrow> release_definition \<Rightarrow> db \<Rightarrow> (exn + model_release) \<times> db" where
  "register st def = transaction (register_body st def)"

section \<open>Reading\<close>

text \<open>The inner join drops a release without a model, which the foreign key excludes.\<close>

definition release_join :: "db \<Rightarrow> (release_row \<times> model_row) list" where
  "release_join d = List.map_filter (\<lambda>r. map_option (Pair r) (find_model (rel_model_id r) d)) (releases_t d)"

definition get_release :: "uuid \<Rightarrow> db \<Rightarrow> exn + model_release" where
  "get_release release_id d =
     (case filter (\<lambda>rm. rel_id (fst rm) = release_id) (release_join d) of
        [] \<Rightarrow> Inl (ModelReleaseNotFound ''Model release does not exist.'')
      | rm # _ \<Rightarrow> snapshot (fst rm) (snd rm))"

definition join_order :: "release_row \<times> model_row \<Rightarrow> string \<times> timestamp \<times> uuid" where
  "join_order rm = (m_id (snd rm), rel_created_at (fst rm), rel_id (fst rm))"

definition list_releases :: "db \<Rightarrow> exn + model_release list" where
  "list_releases d = map_res (\<lambda>rm. snapshot (fst rm) (snd rm)) (sort_key join_order (release_join d))"

section \<open>What registration changes\<close>

lemma upsert_rename:
  fixes k n :: string
  assumes "distinct (map m_id (models_t d))"
  defines "d1 \<equiv> rename_model k n (upsert_model k n d)"
  shows "distinct (map m_id (models_t d1))" and "m_id ` set (models_t d1) = insert k (m_id ` set (models_t d))"
    and "releases_t d1 = releases_t d" and "runs_t d1 = runs_t d" and "outbox_t d1 = outbox_t d"
    and "artifacts_t d1 = artifacts_t d" and "rejected_t d1 = rejected_t d"
    and "users_t d1 = users_t d" and "identities_t d1 = identities_t d" and "roles_t d1 = roles_t d"
    and "user_roles_t d1 = user_roles_t d"
    and "\<exists>m. find_model k d1 = Some m \<and> m_id m = k \<and> m_display_name m = n"
proof -
  let ?u = "upsert_model k n d"
  have keys: "map m_id (models_t d1) = map m_id (models_t ?u)"
    unfolding d1_def rename_model_def by (simp add: map_update_by)
  show "distinct (map m_id (models_t d1))"
    unfolding keys using assms(1) by (auto simp: upsert_model_def)
  have "set (map m_id (models_t d1)) = insert k (m_id ` set (models_t d))"
    unfolding keys by (auto simp: upsert_model_def)
  then show "m_id ` set (models_t d1) = insert k (m_id ` set (models_t d))" by simp
  have "k \<in> m_id ` set (models_t ?u)" by (auto simp: upsert_model_def)
  then obtain m where "find_model k ?u = Some m"
    by (metis find_by_None not_None_eq)
  moreover from find_by_Some [OF this] have "m_id m = k" by blast
  ultimately show "\<exists>m. find_model k d1 = Some m \<and> m_id m = k \<and> m_display_name m = n"
    unfolding d1_def rename_model_def by (simp add: find_by_update_by)
qed (simp_all add: d1_def rename_model_def upsert_model_def)

lemma matching_release_Some:
  assumes "matching_release k img d = Some rel"
  shows "rel \<in> set (releases_t d)" and "rel_model_id rel = k" and "rel_image_digest rel = img"
  using first_of_Some [OF assms [unfolded matching_release_def]] by auto

lemma matching_release_None:
  "matching_release k img d = None \<Longrightarrow>
    (k, img) \<notin> (\<lambda>r. (rel_model_id r, rel_image_digest r)) ` set (releases_t d)"
  by (auto simp: matching_release_def filter_empty_conv)

lemma mode_text_mode_params [simp]: "mode_text (mode_params m) = Some m"
  by simp

lemma active_modes_mem:
  assumes "r \<in> set (runs_t d)" and "accepted_unfinished r" and "r_parameters r = mode_params m"
    and "r_model_release_id r = i"
  shows "m \<in> set (active_modes i d)"
  using assms
  by (force simp: active_modes_def accepted_unfinished_def set_map_filter)

text \<open>
  Under the invariant, whether a run still describes its release's computation depends only on
  the model, the image and the selected invocation.
\<close>

lemma wf_catalog_model:
  assumes "wf_catalog d" and "rel \<in> set (releases_t d)"
  obtains mdl ex where "find_model (rel_model_id rel) d = Some mdl" and "m_id mdl = rel_model_id rel"
    and "definition_from_dict (rel_execution_definition rel) = Inr ex"
proof -
  from assms obtain ex where "rel_model_id rel \<in> m_id ` set (models_t d)"
    and ex: "definition_from_dict (rel_execution_definition rel) = Inr ex"
    by (auto simp: wf_catalog_def)
  then obtain mdl where "find_model (rel_model_id rel) d = Some mdl"
    by (metis find_by_None not_None_eq)
  with find_by_Some [OF this] ex that show thesis by blast
qed

lemma run_compatible_iff:
  assumes "wf_catalog d" and "find_release (r_model_release_id r) d = Some rel"
    and "definition_from_dict (rel_execution_definition rel) = Inr ex" and "r_parameters r = mode_params m"
  shows "run_compatible d r \<longleftrightarrow> (\<exists>i. map_of (modes ex) m = Some i
    \<and> run_digest (rel_model_id rel) (rel_image_digest rel) i m = r_fingerprint r)"
proof -
  from find_by_Some [OF assms(2)] have "rel \<in> set (releases_t d)" by blast
  then obtain mdl where "find_model (rel_model_id rel) d = Some mdl" and "m_id mdl = rel_model_id rel"
    by (rule wf_catalog_model [OF assms(1)])
  with assms(2-4) show ?thesis
    by (simp add: run_compatible_def load_release_definition_def release_of_rows_def matches_mode_params
        split: option.splits)
qed

lemma wf_catalog_run:
  assumes "wf_catalog d" and "r \<in> set (runs_t d)"
  obtains rel m where "find_release (r_model_release_id r) d = Some rel" and "rel \<in> set (releases_t d)"
    and "rel_id rel = r_model_release_id r" and "r_parameters r = mode_params m"
proof -
  from assms obtain m where "r_model_release_id r \<in> rel_id ` set (releases_t d)"
    and m: "r_parameters r = mode_params m" by (auto simp: wf_catalog_def)
  then obtain rel where "find_release (r_model_release_id r) d = Some rel"
    by (metis find_by_None not_None_eq)
  with find_by_Some [OF this] m that show thesis by blast
qed

text \<open>
  A change of the catalog alone is safe when every run's release stays, with the same model and
  image, and agrees on the modes of accepted unfinished runs.
\<close>

lemma wf_db_catalog_change:
  assumes wf: "wf_db d" and cat: "wf_catalog d'"
    and runs: "runs_t d' = runs_t d" "outbox_t d' = outbox_t d" "artifacts_t d' = artifacts_t d"
    and keep: "\<And>r rel m ex. \<lbrakk>r \<in> set (runs_t d); accepted_unfinished r; r_parameters r = mode_params m;
       find_release (r_model_release_id r) d = Some rel;
       definition_from_dict (rel_execution_definition rel) = Inr ex\<rbrakk> \<Longrightarrow>
       \<exists>rel' ex'. find_release (r_model_release_id r) d' = Some rel' \<and> rel_model_id rel' = rel_model_id rel
         \<and> rel_image_digest rel' = rel_image_digest rel
         \<and> definition_from_dict (rel_execution_definition rel') = Inr ex'
         \<and> map_of (modes ex') m = map_of (modes ex) m"
  shows "wf_db d'"
proof -
  have "wf_runs d'" using wf_dbD(1) [OF wf] runs by (simp add: wf_runs_def run_events_def)
  moreover have "protected_runs d'"
    unfolding protected_runs_def runs
  proof (intro ballI impI)
    fix r assume r: "r \<in> set (runs_t d)" and acc: "accepted_unfinished r"
    from wf_catalog_run [OF wf_dbD(2) [OF wf] r] obtain rel m where
      rel: "find_release (r_model_release_id r) d = Some rel" "rel \<in> set (releases_t d)"
      and m: "r_parameters r = mode_params m" by blast
    from wf_catalog_model [OF wf_dbD(2) [OF wf] rel(2)] obtain ex where
      ex: "definition_from_dict (rel_execution_definition rel) = Inr ex" by blast
    from keep [OF r acc m rel(1) ex] obtain rel' ex' where
      rel': "find_release (r_model_release_id r) d' = Some rel'"
      and same: "rel_model_id rel' = rel_model_id rel" "rel_image_digest rel' = rel_image_digest rel"
        "map_of (modes ex') m = map_of (modes ex) m"
      and ex': "definition_from_dict (rel_execution_definition rel') = Inr ex'" by blast
    have "run_compatible d r" using wf_dbD(3) [OF wf] r acc by (simp add: protected_runs_def)
    then show "run_compatible d' r"
      unfolding run_compatible_iff [OF wf_dbD(2) [OF wf] rel(1) ex m]
        run_compatible_iff [OF cat rel' ex' m] same .
  qed
  ultimately show ?thesis using cat by (simp add: wf_db_def)
qed

section \<open>Registration keeps the invariant\<close>

lemma wf_db_upsert_rename:
  assumes "wf_db d" shows "wf_db (rename_model k n (upsert_model k n d))" (is "wf_db ?d")
proof -
  note c = wf_dbD(2) [OF assms]
  have "distinct (map m_id (models_t d))" using c by (simp add: wf_catalog_def)
  note u = upsert_rename [OF this, of k n]
  show ?thesis
  proof (rule wf_db_catalog_change [OF assms])
    show "wf_catalog ?d" using c u(1-4) by (auto simp: wf_catalog_def)
  qed (use u(3-6) in auto)
qed

lemma insert_release_wf:
  assumes wf: "wf_db d" and ins: "insert_release st k img (definition_to_dict ex) d = Inr (row, d')"
    and ex: "wf_definition ex" and new: "matching_release k img d = None"
  shows "wf_db d'"
proof -
  from ins have row: "row = \<lparr>rel_id = st_uuid st, rel_model_id = k, rel_image_digest = img,
      rel_execution_definition = definition_to_dict ex, rel_created_at = st_txtime st\<rparr>"
    and d': "d' = d\<lparr>releases_t := releases_t d @ [row]\<rparr>"
    and fresh: "st_uuid st \<notin> rel_id ` set (releases_t d)" and mdl: "k \<in> m_id ` set (models_t d)"
    by (auto simp: insert_release_def Let_def split: if_splits)
  show ?thesis
  proof (rule wf_db_catalog_change [OF wf])
    show "wf_catalog d'"
      using wf_dbD(2) [OF wf] fresh mdl matching_release_None [OF new] definition_roundtrip [OF ex]
      unfolding wf_catalog_def by (auto simp: d' row)
  qed (auto simp: d' find_by_append)
qed

lemma replace_release_wf:
  assumes wf: "wf_db d" and rel: "rel \<in> set (releases_t d)" and ex: "wf_definition ex"
    and cur: "definition_from_dict (rel_execution_definition rel) = Inr cur"
    and agree: "\<And>m. m \<in> set (active_modes (rel_id rel) d) \<Longrightarrow> map_of (modes cur) m = map_of (modes ex) m"
  shows "wf_db (d\<lparr>releases_t := update_by rel_id (rel_id rel)
           (\<lambda>r. r\<lparr>rel_execution_definition := definition_to_dict ex\<rparr>) (releases_t d)\<rparr>)" (is "wf_db ?d")
proof -
  let ?f = "\<lambda>r. r\<lparr>rel_execution_definition := definition_to_dict ex\<rparr>"
  note c = wf_dbD(2) [OF wf]
  have keys: "map rel_id (releases_t ?d) = map rel_id (releases_t d)"
    "map (\<lambda>r. (rel_model_id r, rel_image_digest r)) (releases_t ?d)
      = map (\<lambda>r. (rel_model_id r, rel_image_digest r)) (releases_t d)"
    by (simp_all add: map_update_by)
  have find: "find_release j ?d = map_option (\<lambda>r. if rel_id r = rel_id rel then ?f r else r) (find_release j d)" for j
    by (simp add: find_by_update_by)
  show ?thesis
  proof (rule wf_db_catalog_change [OF wf])
    have "rel_id ` set (releases_t ?d) = rel_id ` set (releases_t d)"
      unfolding list.set_map [symmetric] keys(1) ..
    moreover have "rel_model_id x \<in> m_id ` set (models_t d) \<and> (\<exists>e. definition_from_dict (rel_execution_definition x) = Inr e)"
      if "x \<in> set (releases_t ?d)" for x
      using that c definition_roundtrip [OF ex] by (auto simp: set_update_by wf_catalog_def)
    ultimately show "wf_catalog ?d"
      using c keys by (simp add: wf_catalog_def)
  next
    fix r x m e
    assume r: "r \<in> set (runs_t d)" "accepted_unfinished r" "r_parameters r = mode_params m"
      and x: "find_release (r_model_release_id r) d = Some x"
      and e: "definition_from_dict (rel_execution_definition x) = Inr e"
    show "\<exists>x' e'. find_release (r_model_release_id r) ?d = Some x' \<and> rel_model_id x' = rel_model_id x
        \<and> rel_image_digest x' = rel_image_digest x \<and> definition_from_dict (rel_execution_definition x') = Inr e'
        \<and> map_of (modes e') m = map_of (modes e) m"
    proof (cases "rel_id x = rel_id rel")
      case True
      from find_by_Some [OF x] have "x \<in> set (releases_t d)" "rel_id x = r_model_release_id r" by auto
      moreover have "x = rel"
        using True rel find_by_distinct [of rel_id "releases_t d"] c calculation(1)
        by (metis option.inject wf_catalog_def)
      ultimately have "map_of (modes e) m = map_of (modes ex) m"
        using agree [OF active_modes_mem [OF r]] e cur by simp
      with True show ?thesis using find [of "r_model_release_id r"] x definition_roundtrip [OF ex] by simp
    next
      case False
      then show ?thesis using find [of "r_model_release_id r"] x e by simp
    qed
  qed auto
qed

lemma register_wf_db:
  assumes wf: "wf_db d" and ex: "wf_definition (rd_execution_definition def)"
    and reg: "register st def d = (res, d')"
  shows "wf_db d'"
proof (cases res)
  case (Inl e)
  with reg wf show ?thesis by (simp add: register_def transaction_raise)
next
  case (Inr s)
  let ?d1 = "rename_model (rd_model_id def) (rd_display_name def)
      (upsert_model (rd_model_id def) (rd_display_name def) d)"
  from reg Inr obtain row where st: "store_release st def ?d1 = Inr (row, d')"
    by (auto simp: register_def transaction_commit register_body_def Let_def split: option.splits)
  note wf1 = wf_db_upsert_rename [OF wf, of "rd_model_id def" "rd_display_name def"]
  show ?thesis
  proof (cases "matching_release (rd_model_id def) (rd_image_digest def) ?d1")
    case None
    with st show ?thesis by (intro insert_release_wf [OF wf1 _ ex]) (auto simp: store_release_def Let_def)
  next
    case (Some rel)
    from st Some obtain cur where cur: "definition_from_dict (rel_execution_definition rel) = Inr cur"
      and agree: "\<forall>m \<in> set (active_modes (rel_id rel) ?d1).
        map_of (modes cur) m = map_of (modes (rd_execution_definition def)) m"
      and d': "d' = ?d1\<lparr>releases_t := update_by rel_id (rel_id rel)
          (\<lambda>r. r\<lparr>rel_execution_definition := definition_to_dict (rd_execution_definition def)\<rparr>) (releases_t ?d1)\<rparr>"
      by (auto simp: store_release_def Let_def ensure_active_modes_unchanged_Inr)
    show ?thesis unfolding d'
      by (rule replace_release_wf [OF wf1 matching_release_Some(1) [OF Some] ex cur]) (use agree in blast)
  qed
qed

text \<open>A registered release is found again under the identifier registration returned.\<close>

lemma find_model_release:
  assumes "wf_catalog d" and "rel \<in> set (releases_t d)"
  shows "\<exists>mdl. find_model (rel_model_id rel) d = Some mdl
    \<and> get_release (rel_id rel) d = snapshot rel mdl"
proof -
  let ?join = "List.map_filter (\<lambda>r. map_option (Pair r) (find_model (rel_model_id r) d))"
  from wf_catalog_model [OF assms] obtain mdl where mdl: "find_model (rel_model_id rel) d = Some mdl" by blast
  have "filter (\<lambda>rm. rel_id (fst rm) = rel_id rel) (?join rels) = [(rel, mdl)]"
    if "rel \<in> set rels" and "distinct (map rel_id rels)" for rels
    using that
  proof (induction rels)
    case (Cons r rels)
    have "filter (\<lambda>rm. rel_id (fst rm) = rel_id rel) (?join rels) = []" if "r = rel"
      using Cons.prems(2) that by (auto simp: filter_empty_conv set_map_filter image_iff)
    with Cons mdl show ?case
      by (cases "r = rel") (auto simp: List.map_filter_def split: option.splits)
  qed simp
  with assms mdl show ?thesis
    by (simp add: get_release_def release_join_def wf_catalog_def)
qed

lemma store_release_result:
  assumes "store_release st def d = Inr (row, d')"
  shows "row \<in> set (releases_t d')" and "rel_model_id row = rd_model_id def"
    and "rel_image_digest row = rd_image_digest def" and "models_t d' = models_t d"
    and "rel_execution_definition row = definition_to_dict (rd_execution_definition def)"
  using assms matching_release_Some [of "rd_model_id def" "rd_image_digest def" d]
  by (force simp: store_release_def insert_release_def set_update_by Let_def
      split: option.splits if_splits)+

lemma register_get_release:
  assumes wf: "wf_db d" and ex: "wf_definition (rd_execution_definition def)"
    and reg: "register st def d = (Inr rel, d')"
  shows "get_release (mr_id rel) d' = Inr rel" and "mr_definition rel = def"
proof -
  let ?d1 = "rename_model (rd_model_id def) (rd_display_name def)
      (upsert_model (rd_model_id def) (rd_display_name def) d)"
  from reg obtain row mdl where st: "store_release st def ?d1 = Inr (row, d')"
    and mdl: "find_model (rd_model_id def) d' = Some mdl" and snap: "snapshot row mdl = Inr rel"
    by (auto simp: register_def transaction_commit register_body_def Let_def split: option.splits)
  note r = store_release_result [OF st]
  have "wf_db d'" by (rule register_wf_db [OF wf ex reg])
  from find_model_release [OF wf_dbD(2) [OF this] r(1)] mdl snap r(2)
  show "get_release (mr_id rel) d' = Inr rel"
    by (auto simp: snapshot_def)
  have "distinct (map m_id (models_t d))" using wf_dbD(2) [OF wf] by (simp add: wf_catalog_def)
  from upsert_rename(12) [OF this, of "rd_model_id def" "rd_display_name def"] mdl
  have "m_id mdl = rd_model_id def" and "m_display_name mdl = rd_display_name def" by (auto simp: r(4))
  with snap r(3,5) show "mr_definition rel = def"
    by (auto simp: snapshot_def release_of_rows_def definition_roundtrip [OF ex])
qed

section \<open>The catalog port\<close>

text \<open>
  What the application relies on of a \<open>Catalog\<close>: registration is all or nothing, keeps the
  store consistent, and a registered release can be read back.
\<close>

locale catalog_port =
  fixes inv :: "'s \<Rightarrow> bool"
    and reg :: "release_definition \<Rightarrow> 's \<Rightarrow> (exn + model_release) \<times> 's"
    and get :: "uuid \<Rightarrow> 's \<Rightarrow> exn + model_release"
  assumes reg_inv: "inv s \<Longrightarrow> wf_definition (rd_execution_definition def) \<Longrightarrow> inv (snd (reg def s))"
    and reg_rollback: "fst (reg def s) = Inl e \<Longrightarrow> snd (reg def s) = s"
    and reg_get: "inv s \<Longrightarrow> wf_definition (rd_execution_definition def) \<Longrightarrow> reg def s = (Inr rel, s')
      \<Longrightarrow> get (mr_id rel) s' = Inr rel \<and> mr_definition rel = def"
begin

lemma register_release_inv:
  assumes "inv s" shows "inv (snd (register_release reg config s))"
  using assms reg_inv release_config_wf [of config]
  by (auto simp: register_release_def wf_release_def split: sum.splits)

lemma register_release_rollback:
  "fst (register_release reg config s) = Inl e \<Longrightarrow> snd (register_release reg config s) = s"
  using reg_rollback by (auto simp: register_release_def split: sum.splits)

lemma register_release_get:
  assumes "inv s" and "register_release reg config s = (Inr rel, s')"
  shows "get (mr_id rel) s' = Inr rel" and "release_config config = Inr (mr_definition rel)"
    and "wf_release (mr_definition rel)"
proof -
  from assms(2) obtain def where def: "release_config config = Inr def" and r: "reg def s = (Inr rel, s')"
    by (auto simp: register_release_def split: sum.splits)
  from release_config_wf [OF def] have wf: "wf_release def" .
  then have "wf_definition (rd_execution_definition def)" by (simp add: wf_release_def)
  from reg_get [OF assms(1) this r] def wf
  show "get (mr_id rel) s' = Inr rel" and "release_config config = Inr (mr_definition rel)"
    and "wf_release (mr_definition rel)" by auto
qed

end

interpretation sql_catalog: catalog_port wf_db "register st" get_release for st
proof
  fix s :: db and def :: release_definition
  assume "wf_db s" "wf_definition (rd_execution_definition def)"
  then show "wf_db (snd (register st def s))"
    by (cases "register st def s") (simp add: register_wf_db)
next
  show "snd (register st def s) = s" if "fst (register st def s) = Inl e" for def :: release_definition and s e
    using that by (auto simp: register_def dest: transaction_rollback)
qed (auto dest: register_get_release)

end
