(* ===== verification/Submission.thy ===== *)
theory Submission
  imports Model_Catalog
begin

text \<open>
  Submitting a run: the use case (\<open>application/runs/submission.py\<close>), the admission bounds
  (\<open>application/runs/admission.py\<close>) and their persistence
  (\<open>infrastructure/persistence/run_submissions.py\<close>). The advisory lock serialises the
  transactions that count and insert, so a transaction is one atomic step here. Submission
  commits a run together with its request event or nothing, and never exceeds the bounds.
\<close>

section \<open>Admission bounds\<close>

record run_admission_limits =
  per_user :: int
  global_total :: int

definition make_limits :: "int \<Rightarrow> int \<Rightarrow> exn + run_admission_limits" where
  "make_limits u g =
     (if u < 1 \<or> g < 1 then Inl (ValueError ''Run admission limits must be positive.'')
      else Inr \<lparr>per_user = u, global_total = g\<rparr>)"

definition check_limits :: "run_admission_limits \<Rightarrow> nat \<Rightarrow> nat \<Rightarrow> exn + unit" where
  "check_limits l user_count total_count =
     (if int user_count \<ge> per_user l
      then Inl (RunAdmissionExceeded ''Your outstanding run limit has been reached.'')
      else if int total_count \<ge> global_total l
      then Inl (RunAdmissionExceeded ''The platform outstanding run limit has been reached.'')
      else Inr ())"

section \<open>The use case\<close>

record queued_run =
  q_id :: uuid
  q_model_release_id :: uuid
  q_requested_by :: "uuid option"
  q_parameters :: json
  q_fingerprint :: string
  q_status :: run_status

definition prepare_run ::
  "model_release \<Rightarrow> uuid \<Rightarrow> json \<Rightarrow> uuid option \<Rightarrow> exn + queued_run" where
  "prepare_run release run_id parameters requested_by =
     bind_res (prepare (rd_execution_definition (mr_definition release)) parameters) (\<lambda>effective.
     bind_res (fingerprint (mr_definition release) effective) (\<lambda>f.
     Inr \<lparr>q_id = run_id, q_model_release_id = mr_id release, q_requested_by = requested_by,
       q_parameters = effective, q_fingerprint = f, q_status = QUEUED\<rparr>))"

text \<open>\<open>SubmitRun.execute\<close> over its two ports; \<open>run_id\<close> is the fresh \<open>uuid4()\<close>.\<close>

definition submit_run ::
  "(uuid \<Rightarrow> 's \<Rightarrow> exn + model_release) \<Rightarrow> (queued_run \<Rightarrow> 's \<Rightarrow> (exn + unit) \<times> 's) \<Rightarrow> uuid
   \<Rightarrow> uuid \<Rightarrow> json \<Rightarrow> uuid option \<Rightarrow> 's \<Rightarrow> (exn + queued_run) \<times> 's" where
  "submit_run get save_requested run_id release_id parameters requested_by s =
     (case bind_res (get release_id s) (\<lambda>release. prepare_run release run_id parameters requested_by) of
        Inl e \<Rightarrow> (Inl e, s)
      | Inr run \<Rightarrow>
          (case save_requested run s of
             (Inl e, s') \<Rightarrow> (Inl e, s')
           | (Inr _, s') \<Rightarrow> (Inr run, s')))"

section \<open>Persistence\<close>

definition run_row_of :: "stamp \<Rightarrow> queued_run \<Rightarrow> run_row" where
  "run_row_of st run =
     \<lparr>r_id = q_id run, r_model_release_id = q_model_release_id run,
      r_requested_by = q_requested_by run, r_parameters = q_parameters run,
      r_fingerprint = q_fingerprint run, r_status = q_status run, r_accepted_at = None,
      r_failure_code = None, r_dispatch_started_at = None, r_finished_at = None,
      r_job_namespace = None, r_job_uid = None, r_created_at = st_txtime st\<rparr>"

definition is_object :: "json \<Rightarrow> bool" where
  "is_object j = (case j of JObj _ \<Rightarrow> True | _ \<Rightarrow> False)"

definition insert_run :: "stamp \<Rightarrow> queued_run \<Rightarrow> db \<Rightarrow> exn + db" where
  "insert_run st run d =
     (if \<not> (length (q_fingerprint run) = 64 \<and> list_all lower_hex (q_fingerprint run))
      then Inl (check_violation ''ck_runs_fingerprint_sha256'')
      else if \<not> is_object (q_parameters run) then Inl (check_violation ''ck_runs_parameters_object'')
      else if q_id run \<in> r_id ` set (runs_t d) then Inl (unique_violation ''pk_runs'')
      else if q_model_release_id run \<notin> rel_id ` set (releases_t d)
      then Inl (foreign_key_violation ''fk_runs_model_release_id_model_releases'')
      else if \<exists>u. q_requested_by run = Some u \<and> u \<notin> u_id ` set (users_t d)
      then Inl (foreign_key_violation ''fk_runs_requested_by_users'')
      else Inr (d\<lparr>runs_t := runs_t d @ [run_row_of st run]\<rparr>))"

definition admit :: "run_admission_limits option \<Rightarrow> queued_run \<Rightarrow> db \<Rightarrow> exn + unit" where
  "admit limits run d =
     (case limits of
        None \<Rightarrow> Inr ()
      | Some l \<Rightarrow> check_limits l (owned_active_count (q_requested_by run) d) (active_count d))"

definition requester_known :: "queued_run \<Rightarrow> db \<Rightarrow> bool" where
  "requester_known run d =
     (case q_requested_by run of None \<Rightarrow> True | Some u \<Rightarrow> find_by u_id u (users_t d) \<noteq> None)"

definition save_body :: "run_admission_limits option \<Rightarrow> stamp \<Rightarrow> queued_run \<Rightarrow> db \<Rightarrow> exn + (unit \<times> db)" where
  "save_body limits st run d =
     bind_res (admit limits run d) (\<lambda>_.
     bind_res (require (requester_known run d)
       (RequesterNotFound ''The requested_by MIC3 user does not exist.'')) (\<lambda>_.
     bind_res (insert_run st run d) (\<lambda>d1.
     bind_res (insert_outbox st (q_id run) ''run.requested'' d1) (\<lambda>d2. Inr ((), d2)))))"

definition save_requested ::
  "run_admission_limits option \<Rightarrow> stamp \<Rightarrow> queued_run \<Rightarrow> db \<Rightarrow> (exn + unit) \<times> db" where
  "save_requested limits st run = transaction (save_body limits st run)"

definition submit ::
  "run_admission_limits option \<Rightarrow> stamp \<Rightarrow> uuid \<Rightarrow> uuid \<Rightarrow> json \<Rightarrow> uuid option \<Rightarrow> db
   \<Rightarrow> (exn + queued_run) \<times> db" where
  "submit limits st = submit_run get_release (save_requested limits st)"

section \<open>What a prepared run is\<close>

lemma prepare_run_Inr:
  assumes "prepare_run rel i p owner = Inr q"
  obtains m inv where "q_parameters q = mode_params m" and "q_status q = QUEUED" and "q_id q = i"
    and "q_model_release_id q = mr_id rel" and "q_requested_by q = owner"
    and "map_of (modes (rd_execution_definition (mr_definition rel))) m = Some inv"
    and "q_fingerprint q = run_digest (rd_model_id (mr_definition rel)) (rd_image_digest (mr_definition rel)) inv m"
proof -
  from assms obtain eff f where eff: "prepare (rd_execution_definition (mr_definition rel)) p = Inr eff"
    and f: "fingerprint (mr_definition rel) eff = Inr f"
    and q: "q = \<lparr>q_id = i, q_model_release_id = mr_id rel, q_requested_by = owner,
      q_parameters = eff, q_fingerprint = f, q_status = QUEUED\<rparr>"
    by (auto simp: prepare_run_def)
  from prepare_Inr [OF eff] obtain m where "eff = mode_params m" by blast
  with f q that show thesis
    by (auto simp: fingerprint_mode_params split: option.splits)
qed

section \<open>What saving commits\<close>

lemma save_requested_Inr:
  "save_requested limits st q d = (Inr (), d') \<longleftrightarrow>
     admit limits q d = Inr () \<and> requester_known q d
     \<and> length (q_fingerprint q) = 64 \<and> list_all lower_hex (q_fingerprint q) \<and> is_object (q_parameters q)
     \<and> q_id q \<notin> r_id ` set (runs_t d) \<and> q_model_release_id q \<in> rel_id ` set (releases_t d)
     \<and> st_uuid st \<notin> ob_id ` set (outbox_t d)
     \<and> d' = d\<lparr>runs_t := runs_t d @ [run_row_of st q],
          outbox_t := outbox_t d @ [outbox_row_of st (q_id q) ''run.requested'']\<rparr>" (is "?L \<longleftrightarrow> ?R")
proof -
  have user: "requester_known q d \<Longrightarrow> \<not> (\<exists>u. q_requested_by q = Some u \<and> u \<notin> u_id ` set (users_t d))"
    by (auto simp: requester_known_def find_by_None split: option.splits)
  have id: "q_id q \<in> r_id ` set (runs_t (d\<lparr>runs_t := runs_t d @ [run_row_of st q]\<rparr>))"
    by (simp add: run_row_of_def)
  show ?thesis
  proof
    assume ?L
    then show ?R
      by (auto simp: save_requested_def transaction_commit save_body_def insert_run_def
          insert_outbox_Inr split: if_splits)
  next
    assume ?R
    then show ?L
      using user id by (simp add: save_requested_def transaction_commit save_body_def insert_run_def
          insert_outbox_Inr)
  qed
qed

lemma save_requested_rollback: "save_requested limits st q d = (Inl e, d') \<Longrightarrow> d' = d"
  by (simp add: save_requested_def transaction_raise)

lemma save_requested_wf_db:
  assumes wf: "wf_db d" and q: "q_status q = QUEUED" "q_parameters q = mode_params m"
    and save: "save_requested limits st q d = (res, d')"
  shows "wf_db d'"
proof (cases res)
  case (Inl e)
  with save wf show ?thesis by (auto dest: save_requested_rollback)
next
  case (Inr u)
  note s = save [unfolded Inr, simplified, unfolded save_requested_Inr]
  from s have d': "d' = d\<lparr>runs_t := runs_t d @ [run_row_of st q],
      outbox_t := outbox_t d @ [outbox_row_of st (q_id q) ''run.requested'']\<rparr>"
    and fresh: "q_id q \<notin> r_id ` set (runs_t d)" "st_uuid st \<notin> ob_id ` set (outbox_t d)"
    and rel: "q_model_release_id q \<in> rel_id ` set (releases_t d)" by auto
  note w = wf_runsD [OF wf_dbD(1) [OF wf]]
  let ?r = "run_row_of st q"
  have ev: "run_events d' j = run_events d j @ (if j = q_id q then [''run.requested''] else [])" for j
    by (simp add: run_events_def d' outbox_row_of_def)
  have none: "run_events d (q_id q) = []"
    using fresh(1) w(4) unfolding run_events_def by (force simp: filter_empty_conv)
  have new: "lifecycle_ok ?r \<and> run_events d' (r_id ?r) = expected_events ?r"
    using q none ev by (simp add: lifecycle_ok_def run_row_of_def expected_events_def terminal_statuses_def)
  have old: "lifecycle_ok r \<and> run_events d' (r_id r) = expected_events r" if "r \<in> set (runs_t d)" for r
    using that w(7,8) fresh(1) ev [of "r_id r"] by force
  have "wf_runs d'"
    unfolding wf_runs_def
  proof (intro conjI)
    show "distinct (map r_id (runs_t d'))" using w(1) fresh(1) by (simp add: d' run_row_of_def)
    show "distinct (map ob_id (outbox_t d'))" using w(2) fresh(2) by (simp add: d' outbox_row_of_def)
    show "distinct (map artifact_key (artifacts_t d'))" using w(3) by (simp add: d')
    show "ob_run_id ` set (outbox_t d') \<subseteq> r_id ` set (runs_t d')"
      using w(4) by (auto simp: d' outbox_row_of_def run_row_of_def)
    show "\<forall>a \<in> set (artifacts_t d'). 0 \<le> ar_size_bytes a
        \<and> (\<exists>r \<in> set (runs_t d'). r_id r = ar_run_id a \<and> terminal r)"
      using w(5,6) by (auto simp: d')
    show "\<forall>r \<in> set (runs_t d'). lifecycle_ok r \<and> run_events d' (r_id r) = expected_events r"
      using new old by (auto simp: d')
  qed
  moreover have "wf_catalog d'"
    using wf_dbD(2) [OF wf] rel q(2) by (simp add: wf_catalog_def d' run_row_of_def)
  moreover have "protected_runs d'"
    unfolding protected_runs_def
  proof (intro ballI impI)
    fix r assume "r \<in> set (runs_t d')" and acc: "accepted_unfinished r"
    then have "r \<in> set (runs_t d)" by (auto simp: d' run_row_of_def accepted_unfinished_def)
    with acc have "run_compatible d r" using wf_dbD(3) [OF wf] by (simp add: protected_runs_def)
    then show "run_compatible d' r" using run_compatible_cong [of d' d r r] by (simp add: d')
  qed
  ultimately show ?thesis by (simp add: wf_db_def)
qed

section \<open>The submission store\<close>

text \<open>
  The \<open>RunSubmissionStore\<close> port: commit run and event together, or roll back both. \<open>runs\<close>
  and \<open>events\<close> read the identifiers of the stored runs and the (run, type) pairs of the
  stored events.
\<close>

locale run_submission_store =
  fixes save :: "queued_run \<Rightarrow> 's \<Rightarrow> (exn + unit) \<times> 's"
    and runs :: "'s \<Rightarrow> uuid list" and events :: "'s \<Rightarrow> (uuid \<times> string) list"
  assumes save_ok: "save q s = (Inr u, s') \<Longrightarrow>
      runs s' = runs s @ [q_id q] \<and> events s' = events s @ [(q_id q, ''run.requested'')]
      \<and> q_id q \<notin> set (runs s)"
    and save_fail: "save q s = (Inl e, s') \<Longrightarrow> s' = s"
begin

lemma submit_atomic:
  assumes "submit_run get save i rid p owner s = (res, s')"
  shows "case res of
      Inl e \<Rightarrow> s' = s
    | Inr q \<Rightarrow> q_id q = i \<and> i \<notin> set (runs s) \<and> runs s' = runs s @ [i]
        \<and> events s' = events s @ [(i, ''run.requested'')]"
proof (cases "bind_res (get rid s) (\<lambda>release. prepare_run release i p owner)")
  case (Inl e)
  with assms have "res = Inl e \<and> s' = s" by (auto simp: submit_run_def)
  then show ?thesis by simp
next
  case (Inr q)
  then have "q_id q = i" by (auto simp: prepare_run_def)
  with assms Inr save_ok [of q s] save_fail [of q s] show ?thesis
    by (auto simp: submit_run_def split: prod.splits sum.splits)
qed

lemma submit_parameters:
  assumes "submit_run get save i rid p owner s = (Inr q, s')"
  obtains rel m inv where "get rid s = Inr rel" and "q_parameters q = mode_params m"
    and "map_of (modes (rd_execution_definition (mr_definition rel))) m = Some inv"
    and "q_fingerprint q = run_digest (rd_model_id (mr_definition rel)) (rd_image_digest (mr_definition rel)) inv m"
    and "q_status q = QUEUED" and "q_requested_by q = owner" and "q_model_release_id q = mr_id rel"
    and "save q s = (Inr (), s')"
proof -
  from assms obtain rel where rel: "get rid s = Inr rel" and q: "prepare_run rel i p owner = Inr q"
    and save: "save q s = (Inr (), s')"
    by (auto simp: submit_run_def split: sum.splits prod.splits)
  from prepare_run_Inr [OF q] that rel save show thesis by metis
qed

end

interpretation sql_submissions: run_submission_store "save_requested limits st"
    "\<lambda>d. map r_id (runs_t d)" "\<lambda>d. map (\<lambda>e. (ob_run_id e, ob_event_type e)) (outbox_t d)" for limits st
  by standard (auto simp: save_requested_Inr run_row_of_def outbox_row_of_def dest: save_requested_rollback)

lemma submit_wf_db:
  assumes wf: "wf_db d" and sub: "submit limits st i rid p owner d = (res, d')"
  shows "wf_db d'"
proof (cases res)
  case (Inl e)
  with sql_submissions.submit_atomic [OF sub [unfolded submit_def]] wf show ?thesis by simp
next
  case (Inr q)
  from sql_submissions.submit_parameters [OF sub [unfolded submit_def Inr]] obtain m where
    "q_parameters q = mode_params m" "q_status q = QUEUED" "save_requested limits st q d = (Inr (), d')"
    by metis
  with save_requested_wf_db [OF wf] show ?thesis by blast
qed

text \<open>Admission: within the bounds after every accepted submission.\<close>

lemma check_limits_Inr:
  "check_limits l u t = Inr x \<longleftrightarrow> int u < per_user l \<and> int t < global_total l"
  by (auto simp: check_limits_def)

lemma save_requested_counts:
  assumes "save_requested limits st q d = (Inr (), d')" and "q_status q = QUEUED"
  shows "active_count d' = Suc (active_count d)"
    and "owned_active_count (q_requested_by q) d' = Suc (owned_active_count (q_requested_by q) d)"
    and "running_count d' = running_count d"
  using assms
  by (auto simp: save_requested_Inr active_count_def owned_active_count_def running_count_def
      run_row_of_def active_statuses_def)

lemma submit_within_limits:
  assumes "submit (Some l) st i rid p owner d = (Inr q, d')"
  shows "int (active_count d') \<le> global_total l" and "int (owned_active_count owner d') \<le> per_user l"
proof -
  from sql_submissions.submit_parameters [OF assms [unfolded submit_def]] have
    q: "q_requested_by q = owner" "q_status q = QUEUED" and save: "save_requested (Some l) st q d = (Inr (), d')"
    by metis+
  from save have "admit (Some l) q d = Inr ()" by (simp add: save_requested_Inr)
  with save_requested_counts [OF save q(2)] q(1)
  show "int (active_count d') \<le> global_total l" and "int (owned_active_count owner d') \<le> per_user l"
    by (auto simp: admit_def check_limits_Inr)
qed

text \<open>What a successful submission stored.\<close>

lemma submit_rows:
  assumes "submit limits st i rid params owner d = (Inr q, d')"
  shows "i \<notin> r_id ` set (runs_t d)" and "q_id q = i" and "q_requested_by q = owner" and "q_status q = QUEUED"
    and "runs_t d' = runs_t d @ [run_row_of st q]" and "outbox_t d' = outbox_t d @ [outbox_row_of st i ''run.requested'']"
proof -
  note s = sql_submissions.submit_parameters [OF assms [unfolded submit_def]]
  from s have save: "save_requested limits st q d = (Inr (), d')" and q: "q_status q = QUEUED" "q_requested_by q = owner"
    by metis+
  from sql_submissions.submit_atomic [OF assms [unfolded submit_def]] have "q_id q = i" by simp
  with save q show "i \<notin> r_id ` set (runs_t d)" "q_id q = i" "q_requested_by q = owner" "q_status q = QUEUED"
    "runs_t d' = runs_t d @ [run_row_of st q]" "outbox_t d' = outbox_t d @ [outbox_row_of st i ''run.requested'']"
    by (auto simp: save_requested_Inr run_row_of_def)
qed

end
