(* ===== verification/Acceptance.thy ===== *)
theory Acceptance
  imports Submission
begin

text \<open>
  Accepting an existing run (\<open>application/runs/acceptance.py\<close>,
  \<open>infrastructure/persistence/run_acceptance.py\<close>): the use case over the ports of its
  transaction, and the SQL transaction that provides them. Acceptance is decided once: a second
  delivery of the same request changes nothing, and an accepted run is one whose fingerprint
  matched its release under the release's lock.
\<close>

section \<open>The use case\<close>

record run_for_acceptance =
  fa_id :: uuid
  fa_parameters :: json
  fa_fingerprint :: string
  fa_status :: run_status
  fa_accepted_at :: "timestamp option"
  fa_failure_code :: "string option"

record acceptance_result =
  ac_run :: run_for_acceptance
  ac_outcome :: string

definition accept_body ::
  "('t \<Rightarrow> run_for_acceptance) \<Rightarrow> ('t \<Rightarrow> exn + release_definition)
   \<Rightarrow> (run_for_acceptance \<Rightarrow> 't \<Rightarrow> exn + 't) \<Rightarrow> timestamp \<Rightarrow> 't \<Rightarrow> exn + (acceptance_result \<times> 't)" where
  "accept_body get_run load_release save_outcome now t =
     (let run = get_run t in
      if fa_accepted_at run \<noteq> None \<or> fa_status run \<noteq> QUEUED
      then Inr (\<lparr>ac_run = run, ac_outcome = ''unchanged''\<rparr>, t)
      else
        bind_res (load_release t) (\<lambda>release.
        bind_res (matches_fingerprint release (fa_parameters run) (fa_fingerprint run)) (\<lambda>compatible.
        let outcome = (if compatible then run\<lparr>fa_accepted_at := Some now\<rparr>
              else run\<lparr>fa_status := FAILED, fa_failure_code := Some ''execution_definition_changed''\<rparr>)
        in bind_res (save_outcome outcome t) (\<lambda>t'.
           Inr (\<lparr>ac_run = outcome,
                 ac_outcome = (if compatible then ''accepted'' else ''failed-run'')\<rparr>, t')))))"

section \<open>The SQL transaction\<close>

record acceptance_tx =
  tx_row :: run_row
  tx_release :: "release_row option"
  tx_db :: db

definition tx_run :: "acceptance_tx \<Rightarrow> run_for_acceptance" where
  "tx_run t = \<lparr>fa_id = r_id (tx_row t), fa_parameters = r_parameters (tx_row t),
     fa_fingerprint = r_fingerprint (tx_row t), fa_status = r_status (tx_row t),
     fa_accepted_at = r_accepted_at (tx_row t), fa_failure_code = r_failure_code (tx_row t)\<rparr>"

definition tx_load_release :: "acceptance_tx \<Rightarrow> exn + release_definition" where
  "tx_load_release t =
     (case tx_release t of None \<Rightarrow> Inl AttributeError | Some rel \<Rightarrow> load_release_definition (tx_db t) rel)"

text \<open>The row object is the session's view of the stored row, so each write shows in both.\<close>

definition tx_refresh :: "acceptance_tx \<Rightarrow> db \<Rightarrow> acceptance_tx" where
  "tx_refresh t d =
     (case find_run (r_id (tx_row t)) d of None \<Rightarrow> t | Some row \<Rightarrow> t\<lparr>tx_row := row, tx_db := d\<rparr>)"

definition save_outcome :: "stamp \<Rightarrow> run_for_acceptance \<Rightarrow> acceptance_tx \<Rightarrow> exn + acceptance_tx" where
  "save_outcome st run t =
     (let i = r_id (tx_row t) in
      bind_res
        (if fa_status run = FAILED then finish_row st (tx_row t) (fa_failure_code run) [] (tx_db t)
         else Inr (update_run i (\<lambda>r. r\<lparr>r_status := fa_status run\<rparr>) (tx_db t)))
        (\<lambda>d. Inr (tx_refresh t (update_run i (\<lambda>r. r\<lparr>r_accepted_at := fa_accepted_at run,
            r_failure_code := fa_failure_code run\<rparr>) d))))"

definition open_acceptance :: "uuid \<Rightarrow> db \<Rightarrow> exn + acceptance_tx" where
  "open_acceptance run_id d =
     (case find_run run_id d of
        None \<Rightarrow> Inl (RunNotFound ''Run does not exist.'')
      | Some row \<Rightarrow>
          Inr \<lparr>tx_row = row, tx_release = find_release (r_model_release_id row) d, tx_db = d\<rparr>)"

definition execute_with_outcome :: "stamp \<Rightarrow> uuid \<Rightarrow> db \<Rightarrow> (exn + acceptance_result) \<times> db" where
  "execute_with_outcome st run_id =
     transaction (\<lambda>d. bind_res (open_acceptance run_id d) (\<lambda>t.
       bind_res (accept_body tx_run tx_load_release (save_outcome st) (st_clock st) t) (\<lambda>(res, t').
       Inr (res, tx_db t'))))"

section \<open>The transaction port\<close>

locale acceptance_transaction =
  fixes valid :: "'t \<Rightarrow> bool" and get_run :: "'t \<Rightarrow> run_for_acceptance"
    and load :: "'t \<Rightarrow> exn + release_definition"
    and save :: "run_for_acceptance \<Rightarrow> 't \<Rightarrow> exn + 't"
  assumes save_accepted: "\<lbrakk>valid t; fa_status (get_run t) = QUEUED; run = get_run t\<lparr>fa_accepted_at := Some n\<rparr>;
      save run t = Inr t'\<rbrakk> \<Longrightarrow> valid t' \<and> get_run t' = run"
    and save_failed: "\<lbrakk>valid t; fa_status (get_run t) = QUEUED; c \<noteq> [];
      run = get_run t\<lparr>fa_status := FAILED, fa_failure_code := Some c\<rparr>; save run t = Inr t'\<rbrakk>
      \<Longrightarrow> valid t' \<and> get_run t' = run"
begin

abbreviation accept :: "timestamp \<Rightarrow> 't \<Rightarrow> exn + (acceptance_result \<times> 't)" where
  "accept \<equiv> accept_body get_run load save"

lemma accept_cases:
  assumes "accept n t = Inr (res, t')"
  obtains
    (unchanged) "fa_accepted_at (get_run t) \<noteq> None \<or> fa_status (get_run t) \<noteq> QUEUED" "t' = t"
      "res = \<lparr>ac_run = get_run t, ac_outcome = ''unchanged''\<rparr>"
  | (accepted) rel where "fa_accepted_at (get_run t) = None" "fa_status (get_run t) = QUEUED"
      "load t = Inr rel" "matches_fingerprint rel (fa_parameters (get_run t)) (fa_fingerprint (get_run t)) = Inr True"
      "save (get_run t\<lparr>fa_accepted_at := Some n\<rparr>) t = Inr t'"
      "res = \<lparr>ac_run = get_run t\<lparr>fa_accepted_at := Some n\<rparr>, ac_outcome = ''accepted''\<rparr>"
  | (failed) rel where "fa_accepted_at (get_run t) = None" "fa_status (get_run t) = QUEUED"
      "load t = Inr rel" "matches_fingerprint rel (fa_parameters (get_run t)) (fa_fingerprint (get_run t)) = Inr False"
      "save (get_run t\<lparr>fa_status := FAILED, fa_failure_code := Some ''execution_definition_changed''\<rparr>) t = Inr t'"
      "res = \<lparr>ac_run = get_run t\<lparr>fa_status := FAILED, fa_failure_code := Some ''execution_definition_changed''\<rparr>,
        ac_outcome = ''failed-run''\<rparr>"
proof (cases "fa_accepted_at (get_run t) \<noteq> None \<or> fa_status (get_run t) \<noteq> QUEUED")
  case True
  then have "accept n t = Inr (\<lparr>ac_run = get_run t, ac_outcome = ''unchanged''\<rparr>, t)"
    by (simp add: accept_body_def Let_def)
  with assms have "res = \<lparr>ac_run = get_run t, ac_outcome = ''unchanged''\<rparr>" "t' = t" by auto
  then show thesis by (intro unchanged [OF True])
next
  case False
  then have q: "fa_accepted_at (get_run t) = None" "fa_status (get_run t) = QUEUED" by auto
  from assms q obtain rel b where rel: "load t = Inr rel"
    and b: "matches_fingerprint rel (fa_parameters (get_run t)) (fa_fingerprint (get_run t)) = Inr b"
    by (fastforce simp: accept_body_def Let_def)
  note body = assms [unfolded accept_body_def Let_def, simplified q rel b bind_res.simps]
  show thesis
  proof (cases b)
    case True
    with body show thesis by (intro accepted [OF q rel]) (simp_all add: b)
  next
    case False
    with body show thesis by (intro failed [OF q rel]) (simp_all add: b)
  qed
qed

lemma accept_result:
  assumes "valid t" and "accept n t = Inr (res, t')"
  shows "valid t' \<and> get_run t' = ac_run res \<and> fa_id (ac_run res) = fa_id (get_run t)
    \<and> (fa_accepted_at (ac_run res) \<noteq> None \<or> fa_status (ac_run res) \<noteq> QUEUED)"
  using assms(2)
proof (cases rule: accept_cases)
  case unchanged
  with assms(1) show ?thesis by auto
next
  case (accepted rel)
  from save_accepted [OF assms(1) accepted(2) refl accepted(5)] accepted(6) show ?thesis by simp
next
  case (failed rel)
  from save_failed [OF assms(1) failed(2) _ refl failed(5)] failed(6) show ?thesis by simp
qed

lemma accept_idempotent:
  assumes "valid t" and "accept n t = Inr (res, t')"
  shows "accept n' t' = Inr (\<lparr>ac_run = ac_run res, ac_outcome = ''unchanged''\<rparr>, t')"
  using accept_result [OF assms] by (auto simp: accept_body_def Let_def)

end

section \<open>The SQL transaction provides the port\<close>

definition valid_tx :: "acceptance_tx \<Rightarrow> bool" where
  "valid_tx t \<longleftrightarrow> find_run (r_id (tx_row t)) (tx_db t) = Some (tx_row t)"

lemma find_run_update_run:
  "(\<And>x. r_id (f x) = r_id x) \<Longrightarrow>
    find_run j (update_run i f d) = map_option (\<lambda>r. if r_id r = i then f r else r) (find_run j d)"
  by (simp add: update_run_def find_by_update_by)

lemma update_run_update_run:
  "(\<And>x. r_id (f x) = r_id x) \<Longrightarrow> update_run i g (update_run i f d) = update_run i (\<lambda>r. g (f r)) d"
  by (simp add: update_run_def update_by_def)

lemma finish_row_find_run:
  assumes "finish_row st r code as d = Inr d'" and "\<not> terminal r"
  shows "find_run j d' = map_option (\<lambda>x. if r_id x = r_id r then finished st code x else x) (find_run j d)"
  by (simp add: finish_row_effect(1) [OF assms] find_by_update_by)

lemma save_outcome_accepted:
  assumes "valid_tx t" and "r_status (tx_row t) = QUEUED" and "r_failure_code (tx_row t) = fc"
    and "save_outcome st (tx_run t\<lparr>fa_accepted_at := Some n\<rparr>) t = Inr t'"
  shows "tx_db t' = update_run (r_id (tx_row t)) (\<lambda>r. r\<lparr>r_status := QUEUED, r_accepted_at := Some n, r_failure_code := fc\<rparr>) (tx_db t)"
    and "tx_row t' = (tx_row t)\<lparr>r_accepted_at := Some n\<rparr>"
  using assms
  by (auto simp: save_outcome_def Let_def tx_run_def tx_refresh_def valid_tx_def
      update_run_update_run find_run_update_run)

lemma save_outcome_failed:
  assumes "valid_tx t" and "r_status (tx_row t) = QUEUED" and "c \<noteq> []"
    and "save_outcome st (tx_run t\<lparr>fa_status := FAILED, fa_failure_code := Some c\<rparr>) t = Inr t'"
  shows "\<exists>d. finish_row st (tx_row t) (Some c) [] (tx_db t) = Inr d
      \<and> tx_db t' = update_run (r_id (tx_row t)) (\<lambda>r. r\<lparr>r_accepted_at := r_accepted_at (tx_row t), r_failure_code := Some c\<rparr>) d
      \<and> tx_row t' = finished st (Some c) (tx_row t)"
proof -
  from assms(2) have nt: "\<not> terminal (tx_row t)" by (simp add: terminal_statuses_def)
  from assms(4) obtain d where fin: "finish_row st (tx_row t) (Some c) [] (tx_db t) = Inr d"
    and t': "t' = tx_refresh t (update_run (r_id (tx_row t))
      (\<lambda>r. r\<lparr>r_accepted_at := r_accepted_at (tx_row t), r_failure_code := Some c\<rparr>) d)"
    by (auto simp: save_outcome_def Let_def tx_run_def)
  have "find_run (r_id (tx_row t)) d = Some (finished st (Some c) (tx_row t))"
    using finish_row_find_run [OF fin nt] assms(1) by (simp add: valid_tx_def)
  then show ?thesis
    using fin t' by (auto simp: tx_refresh_def find_run_update_run finished_def)
qed

interpretation sql_acceptance: acceptance_transaction valid_tx tx_run tx_load_release "save_outcome st" for st
proof
  fix t run n t'
  assume t: "valid_tx t" "fa_status (tx_run t) = QUEUED" "run = tx_run t\<lparr>fa_accepted_at := Some n\<rparr>"
    "save_outcome st run t = Inr t'"
  then have q: "r_status (tx_row t) = QUEUED" by (simp add: tx_run_def)
  note s = save_outcome_accepted [OF t(1) q refl t(4) [unfolded t(3)]]
  have "find_run (r_id (tx_row t)) (tx_db t') = Some ((tx_row t)\<lparr>r_accepted_at := Some n\<rparr>)"
    using t(1) q by (simp add: s(1) find_run_update_run valid_tx_def)
  then show "valid_tx t' \<and> tx_run t' = run" by (simp add: valid_tx_def s(2) t(3) tx_run_def)
next
  fix t run c t'
  assume t: "valid_tx t" "fa_status (tx_run t) = QUEUED" "c \<noteq> []"
    "run = tx_run t\<lparr>fa_status := FAILED, fa_failure_code := Some c\<rparr>" "save_outcome st run t = Inr t'"
  then have q: "r_status (tx_row t) = QUEUED" by (simp add: tx_run_def)
  from save_outcome_failed [OF t(1) q t(3) t(5) [unfolded t(4)]] obtain d where
    fin: "finish_row st (tx_row t) (Some c) [] (tx_db t) = Inr d"
    and db: "tx_db t' = update_run (r_id (tx_row t))
      (\<lambda>r. r\<lparr>r_accepted_at := r_accepted_at (tx_row t), r_failure_code := Some c\<rparr>) d"
    and row: "tx_row t' = finished st (Some c) (tx_row t)" by blast
  have "find_run (r_id (tx_row t)) d = Some (finished st (Some c) (tx_row t))"
    using finish_row_find_run [OF fin] q t(1) by (simp add: valid_tx_def terminal_statuses_def)
  then have "find_run (r_id (tx_row t)) (tx_db t') = Some (finished st (Some c) (tx_row t))"
    by (simp add: db find_run_update_run) (simp add: finished_def)
  then show "valid_tx t' \<and> tx_run t' = run"
    using t(3) by (simp add: valid_tx_def row t(4) tx_run_def) (simp add: finished_def outcome_status_def truthy_def)
qed

section \<open>Acceptance on the database\<close>

lemma execute_with_outcome_Inr:
  assumes "execute_with_outcome st i d = (Inr res, d')"
  obtains row t' where "find_run i d = Some row" and "r_id row = i"
    and "accept_body tx_run tx_load_release (save_outcome st) (st_clock st)
      \<lparr>tx_row = row, tx_release = find_release (r_model_release_id row) d, tx_db = d\<rparr> = Inr (res, t')"
    and "d' = tx_db t'"
proof -
  from assms obtain row t' where row: "find_run i d = Some row"
    and "accept_body tx_run tx_load_release (save_outcome st) (st_clock st)
      \<lparr>tx_row = row, tx_release = find_release (r_model_release_id row) d, tx_db = d\<rparr> = Inr (res, t')"
    and "d' = tx_db t'"
    by (auto simp: execute_with_outcome_def transaction_commit open_acceptance_def split: option.splits)
  with find_by_Some [OF row] that show thesis by blast
qed

text \<open>The three outcomes a request can have, with what each leaves in the tables.\<close>

lemma execute_with_outcome_cases:
  assumes "execute_with_outcome st i d = (Inr res, d')"
  obtains
    (unchanged) row where "find_run i d = Some row" "r_accepted_at row \<noteq> None \<or> r_status row \<noteq> QUEUED"
      "d' = d" "ac_outcome res = ''unchanged''"
  | (accepted) row where "find_run i d = Some row" "r_accepted_at row = None" "r_status row = QUEUED"
      "run_compatible d row" "ac_outcome res = ''accepted''"
      "d' = update_run i (\<lambda>r. r\<lparr>r_status := QUEUED, r_accepted_at := Some (st_clock st),
         r_failure_code := r_failure_code row\<rparr>) d"
  | (failed) row d1 where "find_run i d = Some row" "r_accepted_at row = None" "r_status row = QUEUED"
      "\<not> run_compatible d row" "ac_outcome res = ''failed-run''"
      "finish_row st row (Some ''execution_definition_changed'') [] d = Inr d1"
      "d' = update_run i (\<lambda>r. r\<lparr>r_accepted_at := None, r_failure_code := Some ''execution_definition_changed''\<rparr>) d1"
proof -
  from execute_with_outcome_Inr [OF assms] obtain row t' where row: "find_run i d = Some row" "r_id row = i"
    and body: "accept_body tx_run tx_load_release (save_outcome st) (st_clock st)
      \<lparr>tx_row = row, tx_release = find_release (r_model_release_id row) d, tx_db = d\<rparr> = Inr (res, t')"
    and d': "d' = tx_db t'" by blast
  let ?t = "\<lparr>tx_row = row, tx_release = find_release (r_model_release_id row) d, tx_db = d\<rparr>"
  have valid: "valid_tx ?t" using row by (simp add: valid_tx_def)
  have run: "fa_status (tx_run ?t) = r_status row" "fa_accepted_at (tx_run ?t) = r_accepted_at row"
    "fa_parameters (tx_run ?t) = r_parameters row" "fa_fingerprint (tx_run ?t) = r_fingerprint row"
    by (simp_all add: tx_run_def)
  have compat: "run_compatible d row \<longleftrightarrow> b"
    if "tx_load_release ?t = Inr rel" "matches_fingerprint rel (r_parameters row) (r_fingerprint row) = Inr b" for rel b
    using that by (auto simp: run_compatible_def tx_load_release_def split: option.splits)
  from body show thesis
  proof (cases rule: sql_acceptance.accept_cases)
    case unchanged
    with row d' run show thesis by (intro that(1) [of row]) simp_all
  next
    case (accepted rel)
    with run have q: "r_accepted_at row = None" "r_status row = QUEUED" by simp_all
    have "run_compatible d row" using compat [of rel True] accepted(3,4) run by simp
    moreover have "d' = update_run i (\<lambda>r. r\<lparr>r_status := QUEUED, r_accepted_at := Some (st_clock st),
        r_failure_code := r_failure_code row\<rparr>) d"
      using save_outcome_accepted(1) [OF valid _ refl accepted(5)] q row(2) d' by simp
    ultimately show thesis using that(2) [OF row(1) q] accepted(6) by simp
  next
    case (failed rel)
    with run have q: "r_accepted_at row = None" "r_status row = QUEUED" by simp_all
    have "\<not> run_compatible d row" using compat [of rel False] failed(3,4) run by simp
    moreover from save_outcome_failed [OF valid _ _ failed(5)] q row(2) d' obtain d1 where
      "finish_row st row (Some ''execution_definition_changed'') [] d = Inr d1"
      "d' = update_run i (\<lambda>r. r\<lparr>r_accepted_at := None, r_failure_code := Some ''execution_definition_changed''\<rparr>) d1"
      by auto
    ultimately show thesis using that(3) [OF row(1) q] failed(6) by simp
  qed
qed

lemma execute_with_outcome_rollback: "execute_with_outcome st i d = (Inl e, d') \<Longrightarrow> d' = d"
  by (simp add: execute_with_outcome_def transaction_raise)

lemma finish_row_then_same:
  assumes "finish_row st r code as d = Inr d1" and "find_run (r_id r) d = Some r" and "\<not> terminal r"
    and "wf_runs d" and "\<And>x. r_id (f x) = r_id x" and "f (finished st code r) = finished st code r"
  shows "update_run (r_id r) f d1 = d1"
proof -
  let ?g = "\<lambda>x. if r_id x = r_id r then finished st code x else x"
  have runs: "runs_t d1 = map ?g (runs_t d)"
    by (simp add: finish_row_effect(1) [OF assms(1,3)] update_by_def)
  have "(if r_id (?g x) = r_id r then f (?g x) else ?g x) = ?g x" if "x \<in> set (runs_t d)" for x
  proof (cases "r_id x = r_id r")
    case True
    from find_run_mem [OF wf_runsD(1) [OF assms(4)] that] assms(2) have "x = r"
      unfolding True by simp
    with assms(6) show ?thesis by simp
  qed simp
  then have "update_by r_id (r_id r) f (runs_t d1) = runs_t d1"
    unfolding runs update_by_def map_map o_def by (intro map_cong refl)
  then show ?thesis by (simp add: update_run_def)
qed

lemma execute_with_outcome_wf_db:
  assumes wf: "wf_db d" and ex: "execute_with_outcome st i d = (res, d')"
  shows "wf_db d'"
proof (cases res)
  case (Inl e)
  with ex wf show ?thesis by (auto dest: execute_with_outcome_rollback)
next
  case (Inr a)
  from ex [unfolded Inr] show ?thesis
  proof (cases rule: execute_with_outcome_cases)
    case (unchanged row)
    with wf show ?thesis by simp
  next
    case (accepted row)
    let ?f = "\<lambda>r. r\<lparr>r_status := QUEUED, r_accepted_at := Some (st_clock st), r_failure_code := r_failure_code row\<rparr>"
    from find_by_Some [OF accepted(1)] have row: "row \<in> set (runs_t d)" by blast
    have "wf_runs (update_run i ?f d)"
      by (rule wf_runs_update_run [OF wf_dbD(1) [OF wf] accepted(1)])
        (use wf_runsD(7) [OF wf_dbD(1) [OF wf] row] accepted(3) in \<open>auto simp: lifecycle_ok_def terminal_statuses_def\<close>)
    then show ?thesis unfolding accepted(6)
      by (rule wf_db_transition [OF wf, where f = ?f])
        (use accepted(1,4) in \<open>auto simp: update_run_def same_request_def\<close>)
  next
    case (failed row d1)
    from find_by_Some [OF failed(1)] have row: "r_id row = i" by blast
    have "d' = d1"
      unfolding failed(7) row [symmetric]
      by (rule finish_row_then_same [OF failed(6)])
        (use failed(1,2,3) row wf_dbD(1) [OF wf] in \<open>auto simp: terminal_statuses_def finished_def\<close>)
    with finish_row_wf_db [OF wf failed(1) _ failed(6)] failed(3) show ?thesis by (simp add: truthy_def)
  qed
qed

lemma execute_with_outcome_idempotent:
  assumes "execute_with_outcome st i d = (Inr res, d')"
  shows "execute_with_outcome st' i d' = (Inr \<lparr>ac_run = ac_run res, ac_outcome = ''unchanged''\<rparr>, d')"
proof -
  from execute_with_outcome_Inr [OF assms] obtain row t' where row: "find_run i d = Some row" "r_id row = i"
    and body: "accept_body tx_run tx_load_release (save_outcome st) (st_clock st)
      \<lparr>tx_row = row, tx_release = find_release (r_model_release_id row) d, tx_db = d\<rparr> = Inr (res, t')"
    and d': "d' = tx_db t'" by blast
  have "valid_tx \<lparr>tx_row = row, tx_release = find_release (r_model_release_id row) d, tx_db = d\<rparr>"
    using row by (simp add: valid_tx_def)
  note r = sql_acceptance.accept_result [OF this body]
  have id: "r_id (tx_row t') = i"
    using r row(2) by (simp add: tx_run_def) (metis run_for_acceptance.select_convs(1))
  from r have found: "find_run i d' = Some (tx_row t')" by (simp add: valid_tx_def id d')
  let ?t = "\<lparr>tx_row = tx_row t', tx_release = find_release (r_model_release_id (tx_row t')) d', tx_db = d'\<rparr>"
  have "tx_run ?t = ac_run res" using r by (simp add: tx_run_def)
  with r found show ?thesis
    by (simp add: execute_with_outcome_def transaction_commit open_acceptance_def accept_body_def Let_def)
qed

section \<open>Which runs are not found\<close>

lemma load_release_definition_error:
  "load_release_definition d rel = Inl e \<Longrightarrow> e = AttributeError \<or> (\<exists>msg. e = ModelError msg)"
  by (auto simp: load_release_definition_def release_of_rows_def bind_res_Inl_iff
      split: option.splits dest: definition_from_dict_error)

lemma matches_fingerprint_error:
  assumes "matches_fingerprint rel p f = Inl e" shows "e = TypeError \<or> (\<exists>k. e = KeyError k)"
proof -
  have get: "py_getitem p k = Inl e' \<Longrightarrow> e' = TypeError \<or> (\<exists>k. e' = KeyError k)" for k e'
    by (cases p) (auto split: option.splits)
  from assms have "fingerprint rel p = Inl e" "\<And>m. e \<noteq> ModelError m"
    by (auto simp: matches_fingerprint_def split: sum.splits exn.splits)
  with get show ?thesis
    by (auto simp: fingerprint_def fingerprint_payload_def bind_res_Inl_iff dest!: resolve_error)
qed

lemma finish_row_error: "finish_row st r code as d = Inl e \<Longrightarrow> \<exists>x. e = DBAPIError x"
proof -
  have art: "insert_artifacts i as d = Inl e \<Longrightarrow> \<exists>x. e = DBAPIError x" for i as d
    by (induction as arbitrary: d)
      (auto simp: insert_artifact_def data_exception_def integrity_error_def bind_res_Inl_iff split: if_splits)
  have out: "insert_outbox st i ty d = Inl e \<Longrightarrow> \<exists>x. e = DBAPIError x" for i ty d
    by (auto simp: insert_outbox_def integrity_error_def split: if_splits)
  assume "finish_row st r code as d = Inl e"
  with art out show ?thesis
    by (auto simp: finish_row_def Let_def bind_res_Inl_iff split: if_splits)
qed

lemma execute_with_outcome_missing:
  "execute_with_outcome st i d = (Inl (RunNotFound m), d') \<longleftrightarrow>
     find_run i d = None \<and> m = ''Run does not exist.'' \<and> d' = d" (is "?L \<longleftrightarrow> ?R")
proof
  assume ?R
  then show ?L by (simp add: execute_with_outcome_def transaction_raise open_acceptance_def)
next
  assume l: ?L
  show ?R
  proof (cases "find_run i d")
    case None
    with l show ?thesis by (simp add: execute_with_outcome_def transaction_raise open_acceptance_def)
  next
    case (Some row)
    let ?t = "\<lparr>tx_row = row, tx_release = find_release (r_model_release_id row) d, tx_db = d\<rparr>"
    from l Some have "accept_body tx_run tx_load_release (save_outcome st) (st_clock st) ?t = Inl (RunNotFound m)"
      by (auto simp: execute_with_outcome_def transaction_raise open_acceptance_def bind_res_Inl_iff)
    then have "tx_load_release ?t = Inl (RunNotFound m)
        \<or> (\<exists>rel. matches_fingerprint rel (r_parameters row) (r_fingerprint row) = Inl (RunNotFound m))
        \<or> (\<exists>run. save_outcome st run ?t = Inl (RunNotFound m))"
      by (auto simp: accept_body_def Let_def bind_res_Inl_iff tx_run_def split: if_splits)
    then show ?thesis
      by (auto simp: tx_load_release_def save_outcome_def Let_def bind_res_Inl_iff split: option.splits if_splits
          dest: load_release_definition_error matches_fingerprint_error finish_row_error)
  qed
qed

end
