(* ===== verification/Consumption.thy ===== *)
theory Consumption
  imports Acceptance
begin

text \<open>
  Handling one record of the request topic (\<open>application/runs/consumption.py\<close>) and the
  durable rejections (\<open>infrastructure/persistence/rejections.py\<close>). Kafka delivers at least
  once; the lemmas show that delivering a handled record again changes nothing.
\<close>

section \<open>Locations and rejections\<close>

record record_location =
  l_topic :: string
  l_partition :: int
  l_offset :: int

record rejection =
  rej_code :: string
  rej_diagnostic :: string

section \<open>The use case\<close>

definition run_not_found :: rejection where
  "run_not_found = \<lparr>rej_code = ''run_not_found'', rej_diagnostic = ''Run does not exist.''\<rparr>"

definition reject :: "('l \<Rightarrow> rejection \<Rightarrow> 's \<Rightarrow> (exn + unit) \<times> 's) \<Rightarrow> 'l \<Rightarrow> rejection \<Rightarrow> 's \<Rightarrow> (exn + string) \<times> 's" where
  "reject record location rejection s =
     (case record location rejection s of
        (Inl e, s') \<Rightarrow> (Inl e, s')
      | (Inr _, s') \<Rightarrow> (Inr ''rejected'', s'))"

text \<open>\<open>ConsumeRequest.execute\<close>; a request is a run identifier (\<open>Inl\<close>) or a rejection.\<close>

definition consume_request ::
  "(uuid \<Rightarrow> 's \<Rightarrow> (exn + acceptance_result) \<times> 's) \<Rightarrow> ('l \<Rightarrow> rejection \<Rightarrow> 's \<Rightarrow> (exn + unit) \<times> 's)
   \<Rightarrow> 'l \<Rightarrow> uuid + rejection \<Rightarrow> 's \<Rightarrow> (exn + string) \<times> 's" where
  "consume_request accept record location request s =
     (case request of
        Inr rejection \<Rightarrow> reject record location rejection s
      | Inl run_id \<Rightarrow>
          (case accept run_id s of
             (Inr res, s') \<Rightarrow> (Inr (ac_outcome res), s')
           | (Inl e, s') \<Rightarrow>
               (case e of RunNotFound _ \<Rightarrow> reject record location run_not_found s' | _ \<Rightarrow> (Inl e, s'))))"

section \<open>Durable rejections\<close>

definition location_key :: "rejected_row \<Rightarrow> string \<times> int \<times> int" where
  "location_key r = (rj_topic r, rj_partition r, rj_offset r)"

text \<open>
  The column types bound the partition to 32 bits, the offset to 64 bits and the two texts to
  64 and 256 characters; a value out of range is an error of the statement.
\<close>

definition record_body :: "stamp \<Rightarrow> record_location \<Rightarrow> rejection \<Rightarrow> db \<Rightarrow> exn + (unit \<times> db)" where
  "record_body st l rej d =
     (if l_partition l < - (2 ^ 31) \<or> l_partition l \<ge> 2 ^ 31
         \<or> l_offset l < - (2 ^ 63) \<or> l_offset l \<ge> 2 ^ 63 then Inl (data_exception ''22003'')
      else if length (rej_code rej) > 64 \<or> length (rej_diagnostic rej) > 256
      then Inl (data_exception ''22001'')
      else if (l_topic l, l_partition l, l_offset l) \<in> location_key ` set (rejected_t d) then Inr ((), d)
      else Inr ((), d\<lparr>rejected_t := rejected_t d @
        [\<lparr>rj_topic = l_topic l, rj_partition = l_partition l, rj_offset = l_offset l,
          rj_reason_code = rej_code rej, rj_diagnostic = rej_diagnostic rej,
          rj_recorded_at = st_txtime st\<rparr>]\<rparr>))"

definition record_rejection :: "stamp \<Rightarrow> record_location \<Rightarrow> rejection \<Rightarrow> db \<Rightarrow> (exn + unit) \<times> db" where
  "record_rejection st l rej = transaction (record_body st l rej)"

definition consume :: "stamp \<Rightarrow> record_location \<Rightarrow> uuid + rejection \<Rightarrow> db \<Rightarrow> (exn + string) \<times> db" where
  "consume st = consume_request (execute_with_outcome st) (record_rejection st)"

section \<open>Redelivery\<close>

text \<open>
  The two ports of the consumer: an acceptance that is decided once, and a rejection store whose
  \<open>record\<close> commits once or raises without claiming it was saved. \<open>acc'\<close> and \<open>rec'\<close> are
  the operations of a later delivery, with another clock.
\<close>

locale rejection_store =
  fixes rec rec' :: "'l \<Rightarrow> rejection \<Rightarrow> 's \<Rightarrow> (exn + unit) \<times> 's"
    and recorded :: "'l \<Rightarrow> 's \<Rightarrow> bool"
  assumes rec_ok: "rec l r s = (Inr u, s') \<Longrightarrow> recorded l s'"
    and rec_fail: "rec l r s = (Inl e, s') \<Longrightarrow> s' = s"
    and rec_again: "rec l r s = (Inr u, s') \<Longrightarrow> rec' l r s' = (Inr (), s')"

locale request_consumer = rejection_store rec rec' recorded
  for rec rec' :: "'l \<Rightarrow> rejection \<Rightarrow> 's \<Rightarrow> (exn + unit) \<times> 's" and recorded :: "'l \<Rightarrow> 's \<Rightarrow> bool" +
  fixes acc acc' :: "uuid \<Rightarrow> 's \<Rightarrow> (exn + acceptance_result) \<times> 's"
  assumes acc_again: "acc i s = (Inr res, s') \<Longrightarrow>
      acc' i s' = (Inr \<lparr>ac_run = ac_run res, ac_outcome = ''unchanged''\<rparr>, s')"
    and acc_outcome: "acc i s = (Inr res, s') \<Longrightarrow> ac_outcome res \<noteq> ''rejected''"
    and acc_fail: "acc i s = (Inl e, s') \<Longrightarrow> s' = s"
    and acc_missing: "acc i s = (Inl (RunNotFound m), s') \<Longrightarrow> rec l r s' = (Inr u, s'')
      \<Longrightarrow> acc' i s'' = (Inl (RunNotFound m), s'')"
begin

lemma reject_again:
  "reject rec l r s = (Inr res, s') \<Longrightarrow> reject rec' l r s' = (Inr ''rejected'', s') \<and> recorded l s'"
  using rec_again rec_ok by (auto simp: reject_def split: prod.splits sum.splits)

lemma redelivery:
  assumes "consume_request acc rec l req s = (Inr res, s')"
  shows "consume_request acc' rec' l req s' = (Inr (if res = ''rejected'' then res else ''unchanged''), s')"
proof (cases req)
  case (Inr rej)
  with assms have r: "reject rec l rej s = (Inr res, s')" by (simp add: consume_request_def)
  then have "res = ''rejected''" by (auto simp: reject_def split: prod.splits sum.splits)
  with Inr reject_again [OF r] show ?thesis by (simp add: consume_request_def)
next
  case (Inl i)
  obtain r s1 where acc: "acc i s = (r, s1)" by (cases "acc i s")
  show ?thesis
  proof (cases r)
    case (Inr a)
    with acc Inl assms have "s1 = s'" "res = ac_outcome a" by (auto simp: consume_request_def)
    with acc_again [of i s a s1] acc_outcome [of i s a s1] acc Inr Inl show ?thesis
      by (simp add: consume_request_def)
  next
    case e: (Inl e)
    with acc Inl assms obtain m where m: "e = RunNotFound m" and r: "reject rec l run_not_found s1 = (Inr res, s')"
      by (auto simp: consume_request_def split: exn.splits)
    from r have res: "res = ''rejected''" and rec: "\<exists>u. rec l run_not_found s1 = (Inr u, s')"
      by (auto simp: reject_def split: prod.splits sum.splits)
    with acc_missing [OF acc [unfolded e m]] have "acc' i s' = (Inl (RunNotFound m), s')" by blast
    with Inl res reject_again [OF r] show ?thesis by (simp add: consume_request_def)
  qed
qed

text \<open>An exception leaves no trace, so the record can be delivered again.\<close>

lemma consume_fail:
  assumes "consume_request acc rec l req s = (Inl e, s')" shows "s' = s"
proof -
  have rej: "reject rec l r s1 = (Inl e, s') \<Longrightarrow> s' = s1" for r s1
    using rec_fail by (auto simp: reject_def split: prod.splits sum.splits)
  show ?thesis
    using assms rej acc_fail
    by (cases req) (auto simp: consume_request_def split: prod.splits sum.splits exn.splits, metis+)
qed

end

lemma record_rejection_Inr:
  assumes "record_rejection st l rej d = (Inr u, d')"
  shows "(l_topic l, l_partition l, l_offset l) \<in> location_key ` set (rejected_t d')"
    and "\<exists>rows. d' = d\<lparr>rejected_t := rejected_t d @ rows\<rparr>"
    and "record_rejection st' l rej d' = (Inr (), d')"
    and "distinct (map location_key (rejected_t d)) \<Longrightarrow> distinct (map location_key (rejected_t d'))"
  using assms
  by (auto simp: record_rejection_def transaction_commit record_body_def location_key_def
      split: if_splits intro: exI [of _ "[]"])

lemma record_rejection_rollback: "record_rejection st l rej d = (Inl e, d') \<Longrightarrow> d' = d"
  by (simp add: record_rejection_def transaction_raise)

interpretation sql_consumer: request_consumer "record_rejection st" "record_rejection st'"
    "\<lambda>l d. (l_topic l, l_partition l, l_offset l) \<in> location_key ` set (rejected_t d)"
    "execute_with_outcome st" "execute_with_outcome st'" for st st'
proof
  fix i d res d'
  assume "execute_with_outcome st i d = (Inr res, d')"
  then show "ac_outcome res \<noteq> ''rejected''"
    by (rule execute_with_outcome_cases) auto
next
  fix i d m d' l r u d''
  assume "execute_with_outcome st i d = (Inl (RunNotFound m), d')" "record_rejection st l r d' = (Inr u, d'')"
  with record_rejection_Inr(2) [of st l r d' u d'']
  show "execute_with_outcome st' i d'' = (Inl (RunNotFound m), d'')"
    by (auto simp: execute_with_outcome_missing)
qed (auto dest: record_rejection_Inr record_rejection_rollback execute_with_outcome_rollback
    execute_with_outcome_idempotent)

lemma record_rejection_wf_db:
  assumes "wf_db d" and "record_rejection st l rej d = (res, d')" shows "wf_db d'"
proof (cases res)
  case (Inl e)
  with assms show ?thesis by (auto dest: record_rejection_rollback)
next
  case (Inr u)
  from record_rejection_Inr(2) [OF assms(2) [unfolded Inr]] obtain rows where
    "d' = d\<lparr>rejected_t := rejected_t d @ rows\<rparr>" by blast
  with assms(1) show ?thesis
    by (simp add: wf_db_def wf_runs_def wf_catalog_def protected_runs_def run_events_def
        run_compatible_def load_release_definition_def)
qed

lemma consume_wf_db:
  assumes "wf_db d" and "consume st l req d = (res, d')" shows "wf_db d'"
proof -
  have rej: "wf_db d'" if "reject (record_rejection st) l r d1 = (res, d')" "wf_db d1" for r d1
  proof (cases "record_rejection st l r d1")
    case (Pair u d2)
    with that have "d' = d2" by (auto simp: reject_def split: sum.splits)
    with record_rejection_wf_db [OF that(2) Pair] show ?thesis by simp
  qed
  show ?thesis
  proof (cases req)
    case (Inr r)
    with assms rej show ?thesis by (auto simp: consume_def consume_request_def)
  next
    case (Inl i)
    obtain r d1 where acc: "execute_with_outcome st i d = (r, d1)" by (cases "execute_with_outcome st i d")
    have "wf_db d1" by (rule execute_with_outcome_wf_db [OF assms(1) acc])
    with assms(2) Inl acc rej [of _ d1] show ?thesis
      by (auto simp: consume_def consume_request_def split: sum.splits exn.splits)
  qed
qed

end
