(* ===== verification/Publication.thy ===== *)
theory Publication
  imports Run_Outcomes
begin

text \<open>
  The transactional outbox: the use case (\<open>application/runs/publication.py\<close>), its SQL store
  (\<open>infrastructure/persistence/outbox.py\<close>) and the Kafka publisher
  (\<open>infrastructure/kafka_publication.py\<close>). Delivery is at least once: an event is marked
  only after the broker acknowledged it, and a batch that fails leaves every mark undone.
\<close>

section \<open>Dates\<close>

text \<open>
  \<open>datetime.isoformat()\<close> of an instant in UTC, given in microseconds since 1970-01-01: the
  proleptic Gregorian date of a day number counts eras of 400 years from 0000-03-01.
\<close>

definition civil_from_days :: "int \<Rightarrow> int \<times> int \<times> int" where
  "civil_from_days days =
     (let z = days + 719468;
          era = z div 146097;
          doe = z mod 146097;
          yoe = (doe - doe div 1460 + doe div 36524 - doe div 146096) div 365;
          doy = doe - (365 * yoe + yoe div 4 - yoe div 100);
          mp = (5 * doy + 2) div 153;
          day = doy - (153 * mp + 2) div 5 + 1;
          month = (if mp < 10 then mp + 3 else mp - 9);
          year = yoe + era * 400 + (if month \<le> 2 then 1 else 0)
      in (year, month, day))"

definition pad :: "nat \<Rightarrow> int \<Rightarrow> string" where
  "pad w n = (let s = show_int n in replicate (w - length s) CHR ''0'' @ s)"

definition isoformat :: "timestamp \<Rightarrow> string" where
  "isoformat t =
     (let us = t mod 1000000; secs = t div 1000000; sod = secs mod 86400;
          (y, m, dd) = civil_from_days (secs div 86400)
      in pad 4 y @ ''-'' @ pad 2 m @ ''-'' @ pad 2 dd @ ''T''
         @ pad 2 (sod div 3600) @ '':'' @ pad 2 (sod mod 3600 div 60) @ '':'' @ pad 2 (sod mod 60)
         @ (if us = 0 then [] else ''.'' @ pad 6 us) @ ''+00:00'')"

section \<open>The use case\<close>

record run_event =
  ev_id :: uuid
  ev_run_id :: uuid
  ev_event_type :: string
  ev_created_at :: timestamp

text \<open>
  The loop over the batch: publish, then mark. What the publisher did to the world stays even
  when a later event fails.
\<close>

fun publish_events ::
  "(run_event \<Rightarrow> 'w \<Rightarrow> (exn + unit) \<times> 'w) \<Rightarrow> (uuid \<Rightarrow> 't \<Rightarrow> 't) \<Rightarrow> run_event list \<Rightarrow> 't \<Rightarrow> 'w
   \<Rightarrow> (exn + 't) \<times> 'w" where
  "publish_events publish mark [] t w = (Inr t, w)"
| "publish_events publish mark (e # es) t w =
     (case publish e w of
        (Inl x, w') \<Rightarrow> (Inl x, w')
      | (Inr _, w') \<Rightarrow> publish_events publish mark es (mark (ev_id e) t) w')"

text \<open>
  \<open>PublishOutbox.execute\<close>: \<open>claim\<close> opens the transaction and gives the batch;
  \<open>commit\<close> ends it, returning the exception of a failed commit. On any exception the stored
  state is the one before.
\<close>

definition publish_outbox ::
  "(int \<Rightarrow> 's \<Rightarrow> run_event list \<times> 's) \<Rightarrow> (uuid \<Rightarrow> 's \<Rightarrow> 's) \<Rightarrow> ('s \<Rightarrow> exn option)
   \<Rightarrow> (run_event \<Rightarrow> 'w \<Rightarrow> (exn + unit) \<times> 'w) \<Rightarrow> int \<Rightarrow> 's \<times> 'w \<Rightarrow> (exn + nat) \<times> 's \<times> 'w" where
  "publish_outbox claim mark commit publish limit sw =
     (let (s, w) = sw in
      if \<not> (1 \<le> limit \<and> limit \<le> 100)
      then (Inl (ValueError ''Outbox batch size must be between 1 and 100.''), s, w)
      else
        (let (events, t) = claim limit s in
         case publish_events publish mark events t w of
           (Inl e, w') \<Rightarrow> (Inl e, s, w')
         | (Inr t', w') \<Rightarrow>
             (case commit t' of
                Some e \<Rightarrow> (Inl e, s, w')
              | None \<Rightarrow> (Inr (length events), t', w'))))"

section \<open>The SQL outbox\<close>

definition outbox_order :: "outbox_row \<Rightarrow> timestamp \<times> uuid" where
  "outbox_order e = (ob_created_at e, ob_id e)"

definition event_of_row :: "outbox_row \<Rightarrow> run_event" where
  "event_of_row e = \<lparr>ev_id = ob_id e, ev_run_id = ob_run_id e, ev_event_type = ob_event_type e,
     ev_created_at = ob_created_at e\<rparr>"

text \<open>\<open>locked\<close> are the rows other transactions hold; \<open>SKIP LOCKED\<close> passes over them.\<close>

definition unpublished :: "db \<Rightarrow> outbox_row list" where
  "unpublished d = sort_key outbox_order (filter (\<lambda>e. ob_published_at e = None) (outbox_t d))"

definition claim_outbox :: "(uuid \<Rightarrow> bool) \<Rightarrow> int \<Rightarrow> db \<Rightarrow> run_event list \<times> db" where
  "claim_outbox locked limit d =
     (map event_of_row (take (nat limit) (filter (\<lambda>e. \<not> locked (ob_id e)) (unpublished d))), d)"

text \<open>\<open>clock\<close> gives the time at which each event is marked.\<close>

definition mark_published :: "(uuid \<Rightarrow> timestamp) \<Rightarrow> uuid \<Rightarrow> db \<Rightarrow> db" where
  "mark_published clock event_id d =
     d\<lparr>outbox_t := update_by ob_id event_id (\<lambda>e. e\<lparr>ob_published_at := Some (clock event_id)\<rparr>) (outbox_t d)\<rparr>"

definition sql_publish_outbox ::
  "(uuid \<Rightarrow> bool) \<Rightarrow> (uuid \<Rightarrow> timestamp) \<Rightarrow> (db \<Rightarrow> exn option)
   \<Rightarrow> (run_event \<Rightarrow> 'w \<Rightarrow> (exn + unit) \<times> 'w) \<Rightarrow> int \<Rightarrow> db \<times> 'w \<Rightarrow> (exn + nat) \<times> db \<times> 'w" where
  "sql_publish_outbox locked clock commit publish =
     publish_outbox (claim_outbox locked) (mark_published clock) commit publish"

section \<open>The Kafka publisher\<close>

text \<open>
  What the producer answers: it refuses the message, or each \<open>poll\<close> happens at a monotonic
  time and may run the delivery callback or raise.
\<close>

datatype delivery_report = Acknowledged | NotAcknowledged string | PollFailed
datatype produce_response = Refused | Polls "(int \<times> delivery_report option) list"

record broker =
  acknowledged :: "(string \<times> string \<times> string) list"
  responses :: "produce_response list"

text \<open>\<open>None\<close>: the loop is still waiting after the given polls.\<close>

fun await_delivery :: "int \<Rightarrow> (int \<times> delivery_report option) list \<Rightarrow> (exn + unit) option" where
  "await_delivery deadline [] = None"
| "await_delivery deadline ((now, report) # rest) =
     (if deadline - now \<le> 0 then Some (Inl (PublicationError ''Kafka acknowledgement timed out.''))
      else case report of
        None \<Rightarrow> await_delivery deadline rest
      | Some Acknowledged \<Rightarrow> Some (Inr ())
      | Some PollFailed \<Rightarrow> Some (Inl (PublicationError ''Kafka publication failed.''))
      | Some (NotAcknowledged name) \<Rightarrow>
          Some (Inl (PublicationError (''Kafka delivery was not acknowledged ('' @ name @ '').''))))"

definition supported_event_types :: "string list" where
  "supported_event_types = [''run.requested'', ''run.succeeded'', ''run.failed'']"

definition event_payload :: "run_event \<Rightarrow> string" where
  "event_payload e = dumps False True (JObj
     [(''schema_version'', JInt 1), (''event_id'', JStr (uuid_str (ev_id e))),
      (''run_id'', JStr (uuid_str (ev_run_id e))), (''event_type'', JStr (ev_event_type e)),
      (''created_at'', JStr (isoformat (ev_created_at e)))])"

definition event_topic :: "string \<Rightarrow> string \<Rightarrow> run_event \<Rightarrow> string" where
  "event_topic requests_topic events_topic e =
     (if ev_event_type e = ''run.requested'' then requests_topic else events_topic)"

text \<open>
  The responses are consumed one per message; an exhausted list stands for a broker that is not
  reachable. A list of polls that ends without an answer is continued by the deadline.
\<close>

definition kafka_publish :: "string \<Rightarrow> string \<Rightarrow> int \<Rightarrow> run_event \<Rightarrow> broker \<Rightarrow> (exn + unit) \<times> broker" where
  "kafka_publish requests_topic events_topic deadline e w =
     (if ev_event_type e \<notin> set supported_event_types
      then (Inl (PublicationError ''Unsupported outbox event type.''), w)
      else case responses w of
        [] \<Rightarrow> (Inl (PublicationError ''Kafka acknowledgement timed out.''), w)
      | Refused # rest \<Rightarrow> (Inl (PublicationError ''Kafka publication failed.''), w\<lparr>responses := rest\<rparr>)
      | Polls ps # rest \<Rightarrow>
          (case await_delivery deadline (ps @ [(deadline, None)]) of
             Some (Inr _) \<Rightarrow>
               (Inr (), w\<lparr>responses := rest, acknowledged := acknowledged w @
                  [(event_topic requests_topic events_topic e, uuid_str (ev_run_id e), event_payload e)]\<rparr>)
           | Some (Inl x) \<Rightarrow> (Inl x, w\<lparr>responses := rest\<rparr>)
           | None \<Rightarrow> (Inl (RuntimeError []), w\<lparr>responses := rest\<rparr>)))"

section \<open>Publication over its ports\<close>

locale event_publisher =
  fixes publish :: "run_event \<Rightarrow> 'w \<Rightarrow> (exn + unit) \<times> 'w"
    and acked :: "'w \<Rightarrow> 'm list" and msg :: "run_event \<Rightarrow> 'm"
  assumes publish_ack: "publish e w = (Inr u, w') \<Longrightarrow> acked w' = acked w @ [msg e]"
    and publish_fail: "publish e w = (Inl x, w') \<Longrightarrow> acked w' = acked w \<and> (\<exists>m. x = PublicationError m)"

locale outbox_publication = event_publisher publish acked msg
  for publish :: "run_event \<Rightarrow> 'w \<Rightarrow> (exn + unit) \<times> 'w" and acked :: "'w \<Rightarrow> 'm list" and msg +
  fixes claim :: "int \<Rightarrow> 's \<Rightarrow> run_event list \<times> 's" and mark :: "uuid \<Rightarrow> 's \<Rightarrow> 's"
    and known :: "'s \<Rightarrow> uuid set" and marked :: "'s \<Rightarrow> uuid set"
  assumes claim_known: "claim n s = (es, t) \<Longrightarrow> ev_id ` set es \<subseteq> known t \<and> marked t = marked s"
    and known_mark: "known (mark i t) = known t"
    and marked_mark: "i \<in> known t \<Longrightarrow> marked (mark i t) = insert i (marked t)"
begin

lemma publish_events_ok:
  assumes "publish_events publish mark es t w = (Inr t', w')" and "ev_id ` set es \<subseteq> known t"
  shows "acked w' = acked w @ map msg es \<and> marked t' = marked t \<union> ev_id ` set es"
  using assms
proof (induction es arbitrary: t w)
  case Nil
  then show ?case by simp
next
  case (Cons e es)
  from Cons.prems(1) obtain w1 where w1: "publish e w = (Inr (), w1)"
    and rest: "publish_events publish mark es (mark (ev_id e) t) w1 = (Inr t', w')"
    by (auto split: prod.splits sum.splits)
  from Cons.prems(2) have "ev_id ` set es \<subseteq> known (mark (ev_id e) t)" by (simp add: known_mark)
  from Cons.IH [OF rest this] publish_ack [OF w1] marked_mark [of "ev_id e" t] Cons.prems(2)
  show ?case by simp
qed

lemma publish_events_fail:
  assumes "publish_events publish mark es t w = (Inl x, w')"
  shows "(\<exists>k < length es. acked w' = acked w @ map msg (take k es)) \<and> (\<exists>m. x = PublicationError m)"
  using assms
proof (induction es arbitrary: t w)
  case Nil
  then show ?case by simp
next
  case (Cons e es)
  show ?case
  proof (cases "publish e w")
    case (Pair r w1)
    show ?thesis
    proof (cases r)
      case (Inl y)
      with Pair Cons.prems have "x = y" "w' = w1" by auto
      with publish_fail [of e w y w1] Pair Inl show ?thesis
        by (auto intro: exI [of _ 0])
    next
      case (Inr u)
      with Pair Cons.prems have "publish_events publish mark es (mark (ev_id e) t) w1 = (Inl x, w')" by simp
      from Cons.IH [OF this] obtain k where k: "k < length es" "acked w' = acked w1 @ map msg (take k es)"
        and m: "\<exists>m. x = PublicationError m" by blast
      from publish_ack [of e w u w1] Pair Inr k have "acked w' = acked w @ map msg (take (Suc k) (e # es))" by simp
      with k(1) m show ?thesis by (metis Suc_less_eq length_Cons)
    qed
  qed
qed

lemma publish_outbox_ok:
  assumes "publish_outbox claim mark commit publish n (s, w) = (Inr count, s', w')"
  shows "count = length (fst (claim n s)) \<and> acked w' = acked w @ map msg (fst (claim n s))
    \<and> marked s' = marked s \<union> ev_id ` set (fst (claim n s))"
proof -
  obtain es t where c: "claim n s = (es, t)" by (cases "claim n s")
  from assms c have p: "publish_events publish mark es t w = (Inr s', w')" and "count = length es"
    by (auto simp: publish_outbox_def split: if_splits prod.splits sum.splits option.splits)
  with publish_events_ok [OF p] claim_known [OF c] c show ?thesis by simp
qed

lemma publish_outbox_fail:
  assumes "publish_outbox claim mark commit publish n (s, w) = (Inl x, s', w')"
  shows "s' = s \<and> (\<exists>k. acked w' = acked w @ map msg (take k (fst (claim n s))))"
proof -
  obtain es t where c: "claim n s = (es, t)" by (cases "claim n s")
  consider (limit) "s' = s" "w' = w" | (publish) "s' = s" "publish_events publish mark es t w = (Inl x, w')"
    | (commit) t' where "s' = s" "publish_events publish mark es t w = (Inr t', w')"
    using assms c by (auto simp: publish_outbox_def split: if_splits prod.splits sum.splits option.splits)
  then show ?thesis
  proof cases
    case limit
    then show ?thesis by (auto intro: exI [of _ 0])
  next
    case publish
    with publish_events_fail [OF publish(2)] c show ?thesis by auto
  next
    case (commit t')
    with publish_events_ok [OF commit(2)] claim_known [OF c] c show ?thesis
      by (auto intro: exI [of _ "length es"])
  qed
qed

text \<open>Every event marked in the store has been acknowledged: the invariant of the outbox.\<close>

definition confirmed :: "'s \<Rightarrow> 'w \<Rightarrow> bool" where
  "confirmed s w \<longleftrightarrow> (\<forall>i \<in> marked s. \<exists>e. ev_id e = i \<and> msg e \<in> set (acked w))"

lemma publish_outbox_confirmed:
  assumes "confirmed s w" and "publish_outbox claim mark commit publish n (s, w) = (res, s', w')"
  shows "confirmed s' w'"
proof (cases res)
  case (Inl x)
  with publish_outbox_fail [of commit n s w x s' w'] assms show ?thesis
    by (auto simp: confirmed_def) blast
next
  case (Inr c)
  with publish_outbox_ok [of commit n s w c s' w'] assms show ?thesis by (fastforce simp: confirmed_def)
qed

end

section \<open>The SQL outbox and the Kafka publisher provide the ports\<close>

lemma await_delivery_bounded:
  "p \<in> set ps \<Longrightarrow> deadline \<le> fst p \<Longrightarrow> \<exists>r. await_delivery deadline ps = Some r"
  by (induction ps) (auto split: option.splits delivery_report.splits)

lemma await_delivery_error: "await_delivery deadline ps = Some (Inl x) \<Longrightarrow> \<exists>m. x = PublicationError m"
  by (induction ps) (auto split: option.splits delivery_report.splits if_splits)

abbreviation kafka_message :: "string \<Rightarrow> string \<Rightarrow> run_event \<Rightarrow> string \<times> string \<times> string" where
  "kafka_message rt et e \<equiv> (event_topic rt et e, uuid_str (ev_run_id e), event_payload e)"

definition marked_events :: "db \<Rightarrow> uuid set" where
  "marked_events d = ob_id ` {e \<in> set (outbox_t d). ob_published_at e \<noteq> None}"

interpretation sql_outbox: outbox_publication "kafka_publish rt et deadline" acknowledged "kafka_message rt et"
    "claim_outbox locked" "mark_published clock" "\<lambda>d. ob_id ` set (outbox_t d)" marked_events
  for rt et deadline locked clock
proof
  have never: "\<exists>r. await_delivery deadline (ps @ [(deadline, None)]) = Some r" for ps
    by (rule await_delivery_bounded [of "(deadline, None)"]) auto
  fix e w x w' u
  show "acknowledged w' = acknowledged w \<and> (\<exists>m. x = PublicationError m)"
    if "kafka_publish rt et deadline e w = (Inl x, w')"
    using that await_delivery_error never
    by (auto simp: kafka_publish_def split: if_splits list.splits produce_response.splits option.splits sum.splits)
      (metis option.distinct(1))
  show "acknowledged w' = acknowledged w @ [kafka_message rt et e]"
    if "kafka_publish rt et deadline e w = (Inr u, w')"
    using that
    by (auto simp: kafka_publish_def split: if_splits list.splits produce_response.splits option.splits sum.splits)
next
  fix n s es t
  assume c: "claim_outbox locked n s = (es, t)"
  show "ev_id ` set es \<subseteq> ob_id ` set (outbox_t t) \<and> marked_events t = marked_events s"
    using c by (auto simp: claim_outbox_def event_of_row_def unpublished_def dest!: in_set_takeD)
next
  show "ob_id ` set (outbox_t (mark_published clock i t)) = ob_id ` set (outbox_t t)" for i t
    unfolding list.set_map [symmetric] mark_published_def by (simp add: map_update_by)
next
  show "marked_events (mark_published clock i t) = insert i (marked_events t)"
    if "i \<in> ob_id ` set (outbox_t t)" for i t
  proof -
    have mem: "j \<in> marked_events x \<longleftrightarrow> (\<exists>e \<in> set (outbox_t x). ob_id e = j \<and> ob_published_at e \<noteq> None)" for j x
      by (auto simp: marked_events_def)
    have "j \<in> marked_events (mark_published clock i t) \<longleftrightarrow> j = i \<or> j \<in> marked_events t" for j
      unfolding mem using that by (cases "j = i") (auto simp: mark_published_def set_update_by bex_Un)
    then show ?thesis by blast
  qed
qed

section \<open>Publication keeps the invariant\<close>

lemma run_events_mark: "run_events (mark_published clock j d) i = run_events d i"
proof -
  have "map ob_event_type (filter (\<lambda>e. ob_run_id e = i) (update_by ob_id j f es))
      = map ob_event_type (filter (\<lambda>e. ob_run_id e = i) es)"
    if "\<And>e. ob_run_id (f e) = ob_run_id e" "\<And>e. ob_event_type (f e) = ob_event_type e" for es and f :: "outbox_row \<Rightarrow> outbox_row"
    using that by (induction es) (auto simp: update_by_def)
  then show ?thesis by (simp add: run_events_def mark_published_def)
qed

lemma mark_published_wf_db: "wf_db d \<Longrightarrow> wf_db (mark_published clock j d)" (is "_ \<Longrightarrow> wf_db ?d")
proof -
  assume wf: "wf_db d"
  have same: "runs_t ?d = runs_t d" "artifacts_t ?d = artifacts_t d" "models_t ?d = models_t d"
      "releases_t ?d = releases_t d"
    by (simp_all add: mark_published_def)
  have ids: "map ob_id (outbox_t ?d) = map ob_id (outbox_t d)" "map ob_run_id (outbox_t ?d) = map ob_run_id (outbox_t d)"
    by (simp_all add: mark_published_def map_update_by)
  have "ob_run_id ` set (outbox_t ?d) = ob_run_id ` set (outbox_t d)"
    unfolding list.set_map [symmetric] ids ..
  with wf show ?thesis
    by (simp add: wf_db_def wf_runs_def wf_catalog_def protected_runs_def run_compatible_def
        load_release_definition_def run_events_mark same ids)
qed

lemma publish_events_marks:
  assumes "publish_events publish (mark_published clock) es d w = (Inr d', w')" and "P d"
    and "\<And>j d. P d \<Longrightarrow> P (mark_published clock j d)"
  shows "P d'"
  using assms(1,2)
  by (induction es arbitrary: d w) (auto split: prod.splits sum.splits intro: assms(3))

lemma sql_publish_outbox_keeps:
  assumes "sql_publish_outbox locked clock commit publish n (d, w) = (res, d', w')" and "P d"
    and "\<And>j d. P d \<Longrightarrow> P (mark_published clock j d)"
  shows "P d'"
  using assms publish_events_marks [of publish clock _ d w d' _ P]
  by (auto simp: sql_publish_outbox_def publish_outbox_def claim_outbox_def
      split: if_splits prod.splits sum.splits option.splits)

lemmas sql_publish_outbox_wf_db = sql_publish_outbox_keeps [where P = wf_db, OF _ _ mark_published_wf_db]

text \<open>The batch is the oldest unpublished events that no other publisher holds, in order.\<close>

lemma claim_outbox_batch:
  assumes "claim_outbox locked n d = (es, t)"
  shows "int (length es) \<le> max 0 n" and "sorted (map (\<lambda>e. (ev_created_at e, ev_id e)) es)"
    and "\<And>e. e \<in> set es \<Longrightarrow> ev_id e \<notin> {i. locked i}"
    and "int (length es) < n \<Longrightarrow> x \<in> set (outbox_t d) \<Longrightarrow> ob_published_at x = None
      \<Longrightarrow> \<not> locked (ob_id x) \<Longrightarrow> event_of_row x \<in> set es"
proof -
  let ?free = "filter (\<lambda>e. \<not> locked (ob_id e)) (unpublished d)"
  from assms have es: "es = map event_of_row (take (nat n) ?free)" by (auto simp: claim_outbox_def)
  show "int (length es) \<le> max 0 n" by (simp add: es)
  have "sorted (map outbox_order (unpublished d))" by (simp add: unpublished_def)
  then have "sorted (map outbox_order ?free)" by (rule sorted_filter)
  then have "sorted (map outbox_order (take (nat n) ?free))"
    unfolding take_map [symmetric] by (rule sorted_wrt_take)
  moreover have "(\<lambda>e. (ev_created_at e, ev_id e)) \<circ> event_of_row = outbox_order"
    by (auto simp: fun_eq_iff event_of_row_def outbox_order_def)
  ultimately show "sorted (map (\<lambda>e. (ev_created_at e, ev_id e)) es)" by (simp only: es map_map)
  show "ev_id e \<notin> {i. locked i}" if "e \<in> set es" for e
    using that by (auto simp: es event_of_row_def dest!: in_set_takeD)
  assume "int (length es) < n" "x \<in> set (outbox_t d)" "ob_published_at x = None" "\<not> locked (ob_id x)"
  then have "length ?free < nat n" "x \<in> set ?free"
    by (auto simp: es unpublished_def min_def split: if_splits)
  then show "event_of_row x \<in> set es" by (simp add: es)
qed

end
