(* ===== verification/Execution.thy ===== *)
theory Execution
  imports Acceptance
begin

text \<open>
  Durable execution: the coordination of Jobs (\<open>application/runs/execution.py\<close>), the output
  contract (\<open>application/runs/artifacts.py\<close>) and the SQL store that owns capacity, locks and
  outcomes (\<open>infrastructure/persistence/run_execution.py\<close>). The Kubernetes client and the
  artifact inventory are arguments. A claim is two reads of the tables with other transactions
  between them; a reconciliation is a sequence of short transactions.
\<close>

section \<open>Work, observations and outputs\<close>

record execution_work =
  w_id :: uuid
  w_release :: release_definition
  w_parameters :: json
  w_fingerprint :: string
  w_namespace :: "string option"
  w_job_uid :: "string option"

definition job_name :: "execution_work \<Rightarrow> string" where
  "job_name w = ''mic3-run-'' @ uuid_str (w_id w)"

text \<open>\<open>s.partition(sep)\<close> when \<open>sep\<close> occurs, and the second element of \<open>s.split(sep)\<close>.\<close>

fun cut_at :: "string \<Rightarrow> string \<Rightarrow> (string \<times> string) option" where
  "cut_at sep [] = None"
| "cut_at sep (c # cs) =
     (if starts_with (c # cs) sep then Some ([], drop (length sep) (c # cs))
      else map_option (\<lambda>(a, b). (c # a, b)) (cut_at sep cs))"

definition second_piece :: "string \<Rightarrow> string \<Rightarrow> exn + string" where
  "second_piece sep s =
     (case cut_at sep s of
        None \<Rightarrow> Inl IndexError
      | Some (_, rest) \<Rightarrow> Inr (case cut_at sep rest of None \<Rightarrow> rest | Some (a, _) \<Rightarrow> a))"

definition output_prefix :: "execution_work \<Rightarrow> exn + string" where
  "output_prefix w =
     bind_res (second_piece ''@sha256:'' (rd_image_digest (w_release w))) (\<lambda>sha.
       Inr (rd_model_id (w_release w) @ ''/sha256-'' @ sha @ ''/'' @ uuid_str (w_id w) @ ''/outputs/''))"

record job_observation =
  o_uid :: string
  o_state :: string
  o_failure_code :: "string option"

text \<open>\<open>VerifyOutputs.collect\<close>; in \<open>sizes\<close> a later entry of a key replaces an earlier one.\<close>

definition size_of :: "artifact list \<Rightarrow> string \<Rightarrow> int" where
  "size_of artifacts key =
     (case map_of (rev (map (\<lambda>a. (a_object_key a, a_size_bytes a)) artifacts)) key of
        Some n \<Rightarrow> n | None \<Rightarrow> 0)"

definition collect :: "(string \<Rightarrow> exn + artifact list) \<Rightarrow> execution_work \<Rightarrow> exn + artifact list" where
  "collect inventory work =
     bind_res (output_prefix work) (\<lambda>prefix.
     bind_res (inventory prefix) (\<lambda>artifacts.
     bind_res (resolve (rd_execution_definition (w_release work)) (w_parameters work)) (\<lambda>inv.
     let required = required_files (output_requirements inv) in
     if required \<noteq> [] \<and> list_ex (\<lambda>path. size_of artifacts (prefix @ path) \<le> 0) required
     then Inl (ExecutionFailure ''required_outputs_missing'' artifacts)
     else if \<not> list_ex (\<lambda>a. a_size_bytes a > 0) artifacts
     then Inl (ExecutionFailure ''outputs_empty'' artifacts)
     else Inr artifacts)))"

section \<open>Reconciliation\<close>

text \<open>
  The body of the \<open>try\<close>: \<open>save_uid\<close> and \<open>finish\<close> write the record in state \<open>s\<close>;
  \<open>observe\<close> acts on the cluster \<open>w\<close>; \<open>gather\<close> reads the outputs.
\<close>

definition attempt ::
  "(string \<Rightarrow> 's \<Rightarrow> (exn + unit) \<times> 's) \<Rightarrow> (string option \<Rightarrow> artifact list \<Rightarrow> 's \<Rightarrow> (exn + unit) \<times> 's)
   \<Rightarrow> (execution_work \<Rightarrow> 'w \<Rightarrow> (exn + job_observation) \<times> 'w) \<Rightarrow> (execution_work \<Rightarrow> 'w \<Rightarrow> exn + artifact list)
   \<Rightarrow> execution_work \<Rightarrow> 's \<Rightarrow> 'w \<Rightarrow> (exn + unit) \<times> 's \<times> 'w" where
  "attempt save_uid finish observe gather work s w =
     (case matches_fingerprint (w_release work) (w_parameters work) (w_fingerprint work) of
        Inl e \<Rightarrow> (Inl e, s, w)
      | Inr False \<Rightarrow> (Inl (ExecutionFailure ''execution_definition_changed'' []), s, w)
      | Inr True \<Rightarrow>
          (case observe work w of
             (Inl e, w1) \<Rightarrow> (Inl e, s, w1)
           | (Inr obs, w1) \<Rightarrow>
               (case save_uid (o_uid obs) s of
                  (Inl e, s1) \<Rightarrow> (Inl e, s1, w1)
                | (Inr _, s1) \<Rightarrow>
                    if o_state obs = ''failed'' then
                      (case finish (if truthy (o_failure_code obs) then o_failure_code obs else Some ''job_failed'') [] s1 of
                         (r, s2) \<Rightarrow> (r, s2, w1))
                    else if o_state obs = ''succeeded'' then
                      (case gather work w1 of
                         Inl e \<Rightarrow> (Inl e, s1, w1)
                       | Inr artifacts \<Rightarrow> (case finish None artifacts s1 of (r, s2) \<Rightarrow> (r, s2, w1)))
                    else (Inr (), s1, w1))))"

definition reconcile_record ::
  "('s \<Rightarrow> exn + execution_work option) \<Rightarrow> (string \<Rightarrow> 's \<Rightarrow> (exn + unit) \<times> 's)
   \<Rightarrow> (string option \<Rightarrow> artifact list \<Rightarrow> 's \<Rightarrow> (exn + unit) \<times> 's)
   \<Rightarrow> (execution_work \<Rightarrow> 'w \<Rightarrow> (exn + job_observation) \<times> 'w) \<Rightarrow> (execution_work \<Rightarrow> 'w \<Rightarrow> exn + artifact list)
   \<Rightarrow> 's \<Rightarrow> 'w \<Rightarrow> (exn + unit) \<times> 's \<times> 'w" where
  "reconcile_record load save_uid finish observe gather s w =
     (case load s of
        Inl e \<Rightarrow> (Inl e, s, w)
      | Inr None \<Rightarrow> (Inr (), s, w)
      | Inr (Some work) \<Rightarrow>
          (case attempt save_uid finish observe gather work s w of
             (Inl (ExecutionFailure code artifacts), s1, w1) \<Rightarrow>
               (case finish (Some code) artifacts s1 of (r, s2) \<Rightarrow> (r, s2, w1))
           | (r, s1, w1) \<Rightarrow> (r, s1, w1)))"

section \<open>The SQL execution record\<close>

definition record_load :: "uuid \<Rightarrow> db \<Rightarrow> exn + execution_work option" where
  "record_load run_id d =
     (case find_run run_id d of
        None \<Rightarrow> Inr None
      | Some row \<Rightarrow>
          if r_status row \<noteq> RUNNING then Inr None
          else case find_release (r_model_release_id row) d of
            None \<Rightarrow> Inl AttributeError
          | Some rel \<Rightarrow>
              bind_res (load_release_definition d rel) (\<lambda>def.
                Inr (Some \<lparr>w_id = r_id row, w_release = def, w_parameters = r_parameters row,
                  w_fingerprint = r_fingerprint row, w_namespace = r_job_namespace row,
                  w_job_uid = r_job_uid row\<rparr>)))"

definition save_job_uid :: "uuid \<Rightarrow> string \<Rightarrow> db \<Rightarrow> (exn + unit) \<times> db" where
  "save_job_uid run_id uid = transaction (\<lambda>d.
     case find_run run_id d of
       None \<Rightarrow> Inl AttributeError
     | Some row \<Rightarrow>
         if r_job_uid row \<noteq> None \<and> r_job_uid row \<noteq> Some uid
         then Inl (ExecutionFailure ''job_identity_conflict'' [])
         else if r_status row = RUNNING
         then Inr ((), update_run run_id (\<lambda>r. r\<lparr>r_job_uid := Some uid\<rparr>) d)
         else Inr ((), d))"

definition finish :: "stamp \<Rightarrow> uuid \<Rightarrow> string option \<Rightarrow> artifact list \<Rightarrow> db \<Rightarrow> (exn + unit) \<times> db" where
  "finish st run_id failure_code artifacts = transaction (\<lambda>d.
     case find_run run_id d of
       None \<Rightarrow> Inl AttributeError
     | Some row \<Rightarrow> bind_res (finish_row st row failure_code artifacts d) (\<lambda>d'. Inr ((), d')))"

text \<open>
  The advisory lock key of a run: \<open>int.from_bytes(run_id.bytes[:8], "big", signed=True)\<close>.
\<close>

definition lock_key :: "uuid \<Rightarrow> int" where
  "lock_key run_id = sint (ucast (drop_bit 64 run_id) :: 64 word)"

text \<open>
  \<open>reconcile\<close> under the advisory lock. \<open>acquired\<close> is whether the lock was free;
  \<open>between\<close> is what other transactions commit while the cluster is asked.
\<close>

definition reconcile ::
  "bool \<Rightarrow> (db \<Rightarrow> db) \<Rightarrow> stamp \<Rightarrow> (execution_work \<Rightarrow> 'w \<Rightarrow> (exn + job_observation) \<times> 'w)
   \<Rightarrow> (string \<Rightarrow> 'w \<Rightarrow> exn + artifact list) \<Rightarrow> uuid \<Rightarrow> db \<Rightarrow> 'w \<Rightarrow> (exn + unit) \<times> db \<times> 'w" where
  "reconcile acquired between st observe inventory run_id d w =
     (if \<not> acquired then (Inr (), d, w)
      else reconcile_record (record_load run_id) (\<lambda>uid s. save_job_uid run_id uid (between s))
        (\<lambda>code artifacts s. finish st run_id code artifacts (between s)) observe
        (\<lambda>work w. collect (\<lambda>prefix. inventory prefix w) work) d w)"

section \<open>Claiming\<close>

definition claim_candidate :: "int \<Rightarrow> db \<Rightarrow> run_row option" where
  "claim_candidate capacity d =
     (if int (running_count d) \<ge> capacity then None
      else first_of (sort_key run_order
        (filter (\<lambda>r. r_status r = QUEUED \<and> r_accepted_at r \<noteq> None) (runs_t d))))"

definition start_row :: "stamp \<Rightarrow> string \<Rightarrow> run_row \<Rightarrow> run_row" where
  "start_row st namespace r = r\<lparr>r_status := RUNNING, r_dispatch_started_at := Some (st_clock st),
     r_job_namespace := Some namespace\<rparr>"

text \<open>
  The rest of the claim, after the release and the run of the candidate are locked: \<open>d\<close> is
  the state read under those locks. Then \<open>claim_next\<close> starts the run or fails it.
\<close>

definition claim_locked :: "stamp \<Rightarrow> string \<Rightarrow> run_row \<Rightarrow> db \<Rightarrow> exn + (uuid option \<times> db)" where
  "claim_locked st namespace candidate d =
     (case find_run (r_id candidate) d of
        None \<Rightarrow> Inl AttributeError
      | Some row \<Rightarrow>
          if r_status row \<noteq> QUEUED \<or> r_accepted_at row = None then Inr (None, d)
          else
            bind_res (case find_release (r_model_release_id candidate) d of
                None \<Rightarrow> Inl AttributeError | Some rel \<Rightarrow> load_release_definition d rel) (\<lambda>release.
            bind_res (matches_fingerprint release (r_parameters row) (r_fingerprint row)) (\<lambda>compatible.
            if \<not> compatible
            then bind_res (finish_row st row (Some ''execution_definition_changed'') [] d) (\<lambda>d'. Inr (None, d'))
            else Inr (Some (r_id row), update_run (r_id row) (start_row st namespace) d))))"

definition claim_next :: "stamp \<Rightarrow> string \<Rightarrow> int \<Rightarrow> (db \<Rightarrow> db) \<Rightarrow> db \<Rightarrow> (exn + uuid option) \<times> db" where
  "claim_next st namespace capacity between d =
     (case claim_candidate capacity d of
        None \<Rightarrow> (Inr None, d)
      | Some candidate \<Rightarrow> transaction (claim_locked st namespace candidate) (between d))"

section \<open>The tick\<close>

definition running_ids :: "db \<Rightarrow> uuid list" where
  "running_ids d = map r_id (sort_key run_order (filter (\<lambda>r. r_status r = RUNNING) (runs_t d)))"

fun reconcile_all :: "(uuid \<Rightarrow> 's \<Rightarrow> (exn + unit) \<times> 's) \<Rightarrow> uuid list \<Rightarrow> 's \<Rightarrow> (exn + unit) \<times> 's" where
  "reconcile_all rec [] s = (Inr (), s)"
| "reconcile_all rec (i # is) s =
     (case rec i s of (Inl e, s') \<Rightarrow> (Inl e, s') | (Inr _, s') \<Rightarrow> reconcile_all rec is s')"

definition tick ::
  "('s \<Rightarrow> uuid list) \<Rightarrow> (uuid \<Rightarrow> 's \<Rightarrow> (exn + unit) \<times> 's) \<Rightarrow> ('s \<Rightarrow> (exn + uuid option) \<times> 's) \<Rightarrow> 's
   \<Rightarrow> (exn + unit) \<times> 's" where
  "tick ids rec claim s =
     (case reconcile_all rec (ids s) s of
        (Inl e, s1) \<Rightarrow> (Inl e, s1)
      | (Inr _, s1) \<Rightarrow>
          (case claim s1 of
             (Inl e, s2) \<Rightarrow> (Inl e, s2)
           | (Inr None, s2) \<Rightarrow> (Inr (), s2)
           | (Inr (Some i), s2) \<Rightarrow> rec i s2))"

section \<open>The record port\<close>

text \<open>
  What reconciliation relies on of the \<open>ExecutionRecord\<close>: its writes keep the store consistent
  and only move it forward once the run has been started. \<open>adv\<close> is the store's order.
\<close>

locale execution_record =
  fixes inv :: "'s \<Rightarrow> bool" and adv :: "'s \<Rightarrow> 's \<Rightarrow> bool" and begun :: "'s \<Rightarrow> bool"
    and load :: "'s \<Rightarrow> exn + execution_work option"
    and save :: "string \<Rightarrow> 's \<Rightarrow> (exn + unit) \<times> 's"
    and fin :: "string option \<Rightarrow> artifact list \<Rightarrow> 's \<Rightarrow> (exn + unit) \<times> 's"
  assumes adv_refl: "adv s s" and adv_trans: "adv s s' \<Longrightarrow> adv s' s'' \<Longrightarrow> adv s s''"
    and load_begun: "load s = Inr (Some work) \<Longrightarrow> begun s"
    and save_keeps: "inv s \<Longrightarrow> begun s \<Longrightarrow> save u s = (r, s') \<Longrightarrow> inv s' \<and> adv s s' \<and> begun s'"
    and fin_keeps: "inv s \<Longrightarrow> begun s \<Longrightarrow> fin c as s = (r, s') \<Longrightarrow> inv s' \<and> adv s s' \<and> begun s'"
begin

lemma attempt_keeps:
  assumes "inv s" and "begun s" and "attempt save fin observe gather work s w = (r, s', w')"
  shows "inv s' \<and> adv s s' \<and> begun s'"
proof -
  have fin: "inv s2 \<and> adv s s2 \<and> begun s2" if "save u s = (q, s1)" "fin c as s1 = (p, s2)" for u q s1 c as p s2
    using save_keeps [OF assms(1,2) that(1)] fin_keeps [OF _ _ that(2)] adv_trans by blast
  from assms(3) consider "s' = s" | u q where "save u s = (q, s')"
    | u q s1 c as p where "save u s = (q, s1)" "fin c as s1 = (p, s')"
    by (auto simp: attempt_def split: sum.splits bool.splits prod.splits if_splits)
  then show ?thesis
    using assms(1,2) adv_refl save_keeps fin by cases blast+
qed

lemma reconcile_record_keeps:
  assumes "inv s" and "reconcile_record load save fin observe gather s w = (r, s', w')"
  shows "inv s' \<and> adv s s'"
proof (cases "\<exists>work. load s = Inr (Some work)")
  case False
  then have "s' = s" using assms(2) by (auto simp: reconcile_record_def split: sum.splits option.splits)
  with assms(1) adv_refl show ?thesis by simp
next
  case True
  then obtain work where work: "load s = Inr (Some work)" by blast
  obtain q s1 w1 where att: "attempt save fin observe gather work s w = (q, s1, w1)"
    by (cases "attempt save fin observe gather work s w") auto
  note k = attempt_keeps [OF assms(1) load_begun [OF work] att]
  from assms(2) work att consider "s' = s1" | c as p where "fin c as s1 = (p, s')"
    by (auto simp: reconcile_record_def split: sum.splits exn.splits prod.splits)
  then show ?thesis
    using k fin_keeps adv_trans by cases blast+
qed

end

section \<open>The SQL record provides the port\<close>

lemma record_load_started: "record_load i d = Inr (Some work) \<Longrightarrow> started i d"
  by (auto simp: record_load_def started_def split: option.splits if_splits)

lemma save_job_uid_keeps:
  assumes wf: "wf_db d" and save: "save_job_uid i u d = (res, d')"
  shows "wf_db d' \<and> runs_advance d d' \<and> running_count d' = running_count d"
proof (cases "\<exists>row. find_run i d = Some row \<and> r_status row = RUNNING \<and> res = Inr ()")
  case False
  with save have "d' = d"
    by (auto simp: save_job_uid_def transaction.simps split: option.splits if_splits)
  with wf show ?thesis by simp
next
  case True
  then obtain row where row: "find_run i d = Some row" "r_status row = RUNNING" and r: "res = Inr ()" by blast
  let ?f = "\<lambda>r. r\<lparr>r_job_uid := Some u\<rparr>"
  from save row r have d': "d' = update_run i ?f d" and uid: "r_job_uid row = None \<or> r_job_uid row = Some u"
    by (auto simp: save_job_uid_def transaction_commit split: if_splits)
  from find_by_Some [OF row(1)] have mem: "row \<in> set (runs_t d)" "r_id row = i" by auto
  note w = wf_dbD(1) [OF wf]
  have "wf_runs d'"
    unfolding d' by (rule wf_runs_update_run [OF w row(1)])
      (use wf_runsD(7) [OF w mem(1)] row(2) in \<open>auto simp: lifecycle_ok_def\<close>)
  then have "wf_db d'"
    unfolding d' by (rule wf_db_transition [OF wf, where f = ?f])
      (use row(1) in \<open>auto simp: update_run_def same_request_def accepted_unfinished_def\<close>)
  moreover have "runs_advance d d'"
    by (rule runs_advance_update [where f = ?f, OF _ _ row(1)])
      (use uid row(2) in \<open>auto simp: d' update_run_def row_advance_def same_request_def terminal_statuses_def\<close>)
  moreover have "running_count d' = running_count d"
    using count_where_update_by [OF wf_runsD(1) [OF w] mem(1), of "\<lambda>r. r_status r = RUNNING" ?f] mem(2)
    by (simp add: running_count_def d' update_run_def)
  ultimately show ?thesis by blast
qed

lemma finish_keeps:
  assumes wf: "wf_db d" and st: "started i d" and fin: "finish st i code as d = (res, d')"
  shows "wf_db d' \<and> runs_advance d d' \<and> running_count d' \<le> running_count d"
proof (cases res)
  case (Inl e)
  with fin wf show ?thesis by (simp add: finish_def transaction_raise)
next
  case (Inr u)
  from st obtain row where row: "find_run i d = Some row" "r_status row \<noteq> QUEUED" by (auto simp: started_def)
  with fin Inr have f: "finish_row st row code as d = Inr d'"
    by (auto simp: finish_def transaction_commit)
  from finish_row_wf_db [OF wf row(1) _ f] finish_row_advance [OF f row(1)]
    finish_row_running_count [OF wf_dbD(1) [OF wf] row(1) f] row(2)
  show ?thesis by blast
qed

text \<open>What other transactions may do to the tables between two of a reconciliation.\<close>

definition harmless :: "(db \<Rightarrow> db) \<Rightarrow> bool" where
  "harmless env \<longleftrightarrow> (\<forall>d. wf_db d \<longrightarrow> wf_db (env d) \<and> runs_advance d (env d))"

lemma sql_record:
  assumes "harmless env"
  shows "execution_record wf_db runs_advance (started i) (record_load i)
    (\<lambda>u d. save_job_uid i u (env d)) (\<lambda>c as d. finish st i c as (env d))"
proof
  fix d u r d'
  assume d: "wf_db d" "started i d"
  with assms have env: "wf_db (env d)" "runs_advance d (env d)" by (auto simp: harmless_def)
  with started_advance [OF d(2)] have st: "started i (env d)" by blast
  show "wf_db d' \<and> runs_advance d d' \<and> started i d'" if "save_job_uid i u (env d) = (r, d')"
    using save_job_uid_keeps [OF env(1) that] env(2) started_advance [OF st] runs_advance_trans by blast
  show "wf_db d' \<and> runs_advance d d' \<and> started i d'" if "finish st i c as (env d) = (r, d')" for c as
    using finish_keeps [OF env(1) st that] env(2) started_advance [OF st] runs_advance_trans by blast
qed (auto intro: runs_advance_trans record_load_started)

interpretation sql_execution: execution_record wf_db runs_advance "started i" "record_load i"
    "save_job_uid i" "finish st i" for i st
  using sql_record [of "\<lambda>d. d"] by (simp add: harmless_def)

lemma reconcile_keeps:
  assumes "harmless between" and "wf_db d"
    and "reconcile acquired between st observe inventory i d w = (r, d', w')"
  shows "wf_db d' \<and> runs_advance d d'"
proof (cases acquired)
  case True
  with assms(3) show ?thesis
    unfolding reconcile_def
    by (intro execution_record.reconcile_record_keeps [OF sql_record [OF assms(1)] assms(2)]) simp
next
  case False
  with assms(2,3) show ?thesis by (simp add: reconcile_def)
qed

section \<open>Output locations\<close>

lemma cut_at_found:
  assumes "c \<notin> set a" shows "cut_at (c # sep) (a @ c # sep @ b) = Some (a, b)"
  using assms by (induction a) (auto simp: starts_with_def)

lemma cut_at_absent:
  assumes "c \<notin> set a" shows "cut_at (c # sep) a = None"
  using assms by (induction a) (auto simp: starts_with_def)

lemma digest_pattern_parts:
  assumes "fullmatch digest_pattern s"
  obtains name sha where "s = name @ ''@sha256:'' @ sha" and "CHR ''@'' \<notin> set name"
    and "length sha = 64" and "list_all lower_hex sha"
  using assms unfolding digest_pattern_def
  by (auto elim!: fullmatch_SeqE simp: list_all_iff) blast

lemma lower_hex_no:
  assumes "list_all lower_hex s" shows "CHR ''@'' \<notin> set s" and "CHR ''/'' \<notin> set s"
  using assms by (auto simp: list_all_iff lower_hex_def)

lemma output_prefix_wf:
  assumes "wf_release (w_release w)"
  obtains sha where "output_prefix w = Inr (rd_model_id (w_release w) @ ''/sha256-'' @ sha @ ''/''
      @ uuid_str (w_id w) @ ''/outputs/'')"
    and "length sha = 64" and "list_all lower_hex sha" and "CHR ''/'' \<notin> set (rd_model_id (w_release w))"
proof -
  from assms have img: "fullmatch digest_pattern (rd_image_digest (w_release w))"
    and key: "fullmatch key_pattern (rd_model_id (w_release w))" by (auto simp: wf_release_def)
  from img obtain name sha where s: "rd_image_digest (w_release w) = name @ ''@sha256:'' @ sha"
    and at: "CHR ''@'' \<notin> set name" and sha: "length sha = 64" "list_all lower_hex sha"
    by (rule digest_pattern_parts)
  have "cut_at ''@sha256:'' (rd_image_digest (w_release w)) = Some (name, sha)"
    using cut_at_found [OF at, of "''sha256:''" sha] by (simp add: s)
  moreover have "cut_at ''@sha256:'' sha = None"
    by (rule cut_at_absent) (rule lower_hex_no(1) [OF sha(2)])
  ultimately have "output_prefix w = Inr (rd_model_id (w_release w) @ ''/sha256-'' @ sha @ ''/''
      @ uuid_str (w_id w) @ ''/outputs/'')"
    by (simp add: output_prefix_def second_piece_def)
  moreover have "CHR ''/'' \<notin> set (rd_model_id (w_release w))"
    using key by (auto simp: key_pattern_iff list_all_iff lower_alnum_def)
  ultimately show thesis using sha that by blast
qed

lemma slash_split:
  assumes "a @ CHR ''/'' # u = b @ CHR ''/'' # v" and "CHR ''/'' \<notin> set a" and "CHR ''/'' \<notin> set b"
  shows "a = b \<and> u = v"
  using assms by (induction a arbitrary: b) (auto simp: Cons_eq_append_conv append_eq_Cons_conv)

text \<open>
  No object lies under the output prefixes of two runs, whatever follows the prefixes.
\<close>

lemma output_prefix_disjoint:
  assumes "wf_release (w_release v)" and "wf_release (w_release w)"
    and "output_prefix v = Inr p" and "output_prefix w = Inr q" and "p @ x = q @ y"
  shows "w_id v = w_id w"
proof -
  from output_prefix_wf [OF assms(1)] assms(3) obtain sv where
    p: "p = rd_model_id (w_release v) @ ''/sha256-'' @ sv @ ''/'' @ uuid_str (w_id v) @ ''/outputs/''"
    and sv: "length sv = 64" "list_all lower_hex sv" "CHR ''/'' \<notin> set (rd_model_id (w_release v))"
    by (metis sum.inject(2))
  from output_prefix_wf [OF assms(2)] assms(4) obtain sw where
    q: "q = rd_model_id (w_release w) @ ''/sha256-'' @ sw @ ''/'' @ uuid_str (w_id w) @ ''/outputs/''"
    and sw: "length sw = 64" "list_all lower_hex sw" "CHR ''/'' \<notin> set (rd_model_id (w_release w))"
    by (metis sum.inject(2))
  have "''sha256-'' @ sv @ ''/'' @ uuid_str (w_id v) @ ''/outputs/'' @ x
      = ''sha256-'' @ sw @ ''/'' @ uuid_str (w_id w) @ ''/outputs/'' @ y"
    using assms(5) slash_split [OF _ sv(3) sw(3)] by (auto simp: p q)
  then have "uuid_str (w_id v) @ ''/outputs/'' @ x = uuid_str (w_id w) @ ''/outputs/'' @ y"
    using sv(1) sw(1) by simp
  then show ?thesis using length_uuid_str uuid_str_inject by (metis append_eq_append_conv)
qed

lemma size_of_pos:
  assumes "size_of as k > 0"
  shows "\<exists>a \<in> set as. a_object_key a = k \<and> a_size_bytes a > 0"
  using assms by (auto simp: size_of_def split: option.splits dest!: map_of_SomeD)

lemma collect_Inr:
  assumes "collect inventory work = Inr as"
  obtains prefix inv where "output_prefix work = Inr prefix" and "inventory prefix = Inr as"
    and "resolve (rd_execution_definition (w_release work)) (w_parameters work) = Inr inv"
    and "\<forall>path \<in> set (required_files (output_requirements inv)). size_of as (prefix @ path) > 0"
    and "\<exists>a \<in> set as. a_size_bytes a > 0"
proof -
  from assms obtain prefix inv where o: "output_prefix work = Inr prefix" and i: "inventory prefix = Inr as"
    and r: "resolve (rd_execution_definition (w_release work)) (w_parameters work) = Inr inv"
    and "\<not> (required_files (output_requirements inv) \<noteq> []
      \<and> list_ex (\<lambda>path. size_of as (prefix @ path) \<le> 0) (required_files (output_requirements inv)))"
    and "list_ex (\<lambda>a. a_size_bytes a > 0) as"
    by (auto simp: collect_def Let_def split: if_splits)
  then show thesis by (intro that [OF o i r]) (auto simp: list_ex_iff not_le)
qed

section \<open>Claiming\<close>

lemma claim_candidate_Some:
  assumes "claim_candidate capacity d = Some r"
  shows "int (running_count d) < capacity" and "r \<in> set (runs_t d)" and "r_status r = QUEUED"
    and "r_accepted_at r \<noteq> None"
    and "\<And>x. x \<in> set (runs_t d) \<Longrightarrow> r_status x = QUEUED \<Longrightarrow> r_accepted_at x \<noteq> None \<Longrightarrow> run_order r \<le> run_order x"
proof -
  let ?q = "filter (\<lambda>r. r_status r = QUEUED \<and> r_accepted_at r \<noteq> None) (runs_t d)"
  from assms show "int (running_count d) < capacity" by (auto simp: claim_candidate_def split: if_splits)
  from assms have f: "first_of (sort_key run_order ?q) = Some r"
    by (auto simp: claim_candidate_def split: if_splits)
  from first_of_Some [OF f] show "r \<in> set (runs_t d)" "r_status r = QUEUED" "r_accepted_at r \<noteq> None" by auto
  show "run_order r \<le> run_order x"
    if "x \<in> set (runs_t d)" "r_status x = QUEUED" "r_accepted_at x \<noteq> None" for x
    by (rule first_of_sorted [OF f]) (use that in simp)
qed

text \<open>
  Under the invariant an accepted queued run still matches its release, so a claim starts it
  and never fails it.
\<close>

lemma claim_locked_eq:
  assumes wf: "wf_db d" and row: "find_run (r_id c) d = Some row" and req: "r_model_release_id row = r_model_release_id c"
  shows "claim_locked st ns c d =
    (if r_status row = QUEUED \<and> r_accepted_at row \<noteq> None
     then Inr (Some (r_id c), update_run (r_id c) (start_row st ns) d) else Inr (None, d))"
proof (cases "r_status row = QUEUED \<and> r_accepted_at row \<noteq> None")
  case True
  from find_by_Some [OF row] have mem: "row \<in> set (runs_t d)" "r_id row = r_id c" by auto
  with True have "run_compatible d row"
    using wf_dbD(3) [OF wf] by (simp add: protected_runs_def accepted_unfinished_def active_statuses_def)
  with True row req mem(2) show ?thesis
    by (auto simp: claim_locked_def run_compatible_def)
next
  case False
  with row show ?thesis by (auto simp: claim_locked_def)
qed

lemma start_row_keeps:
  fixes st :: stamp and ns :: string
  assumes wf: "wf_db d" and row: "find_run i d = Some row" "r_status row = QUEUED" "r_accepted_at row \<noteq> None"
  defines "d' \<equiv> update_run i (start_row st ns) d"
  shows "wf_db d'" and "runs_advance d d'" and "running_count d' = Suc (running_count d)"
proof -
  from find_by_Some [OF row(1)] have mem: "row \<in> set (runs_t d)" "r_id row = i" by auto
  note w = wf_dbD(1) [OF wf]
  have simps: "r_id (start_row st ns x) = r_id x" "r_status (start_row st ns x) = RUNNING"
    "same_request x (start_row st ns x)" "r_accepted_at (start_row st ns x) = r_accepted_at x"
    "r_job_uid (start_row st ns x) = r_job_uid x" for x
    by (simp_all add: start_row_def same_request_def)
  have "lifecycle_ok (start_row st ns row)"
    using wf_runsD(7) [OF w mem(1)] row(2,3) by (simp add: lifecycle_ok_def start_row_def)
  then have "wf_runs d'"
    unfolding d'_def by (intro wf_runs_update_run [OF w row(1)])
      (use row(2) in \<open>auto simp: simps terminal_statuses_def\<close>)
  then show "wf_db d'"
    unfolding d'_def
    by (rule wf_db_transition [OF wf, where f = "start_row st ns"])
      (use row in \<open>auto simp: update_run_def simps accepted_unfinished_def active_statuses_def\<close>)
  have "r_dispatch_started_at row = None"
    using wf_runsD(7) [OF w mem(1)] row(2) by (simp add: lifecycle_ok_def)
  then show "runs_advance d d'"
    by (intro runs_advance_update [where f = "start_row st ns", OF _ _ row(1)])
      (use row(2) in \<open>auto simp: d'_def update_run_def simps row_advance_def less_eq_run_status_def terminal_statuses_def\<close>)
  show "running_count d' = Suc (running_count d)"
    using count_where_update_by [OF wf_runsD(1) [OF w] mem(1), of "\<lambda>r. r_status r = RUNNING" "start_row st ns"] row(2) mem(2)
    by (simp add: running_count_def d'_def update_run_def simps)
qed

lemma claim_locked_keeps:
  assumes wf: "wf_db d" and row: "find_run (r_id c) d = Some row" "r_model_release_id row = r_model_release_id c"
    and claim: "transaction (claim_locked st ns c) d = (res, d')"
  shows "wf_db d'" and "runs_advance d d'" and "running_count d' \<le> Suc (running_count d)"
    and "\<exists>oc. res = Inr oc"
proof -
  note eq = claim_locked_eq [OF wf row, of st ns]
  have start: "r_status row = QUEUED \<Longrightarrow> r_accepted_at row \<noteq> None \<Longrightarrow>
      wf_db (update_run (r_id c) (start_row st ns) d) \<and> runs_advance d (update_run (r_id c) (start_row st ns) d)
      \<and> running_count (update_run (r_id c) (start_row st ns) d) = Suc (running_count d)"
    using start_row_keeps [OF wf row(1)] by blast
  show "wf_db d'" and "runs_advance d d'" and "running_count d' \<le> Suc (running_count d)" and "\<exists>oc. res = Inr oc"
    using claim start wf by (auto simp: eq transaction.simps split: if_splits)
qed

section \<open>What success means\<close>

definition run_is :: "run_status \<Rightarrow> uuid \<Rightarrow> db \<Rightarrow> bool" where
  "run_is status i d \<longleftrightarrow> (\<exists>r. find_run i d = Some r \<and> r_status r = status)"

lemma run_is_unique: "run_is a i d \<Longrightarrow> run_is b i d \<Longrightarrow> a = b"
  by (auto simp: run_is_def)

lemma save_job_uid_running:
  assumes "run_is RUNNING i d" and "save_job_uid i u d = (q, d1)"
  shows "run_is RUNNING i d1" and "artifacts_t d1 = artifacts_t d"
  using assms
  by (auto simp: run_is_def save_job_uid_def transaction.simps find_run_update_run
      split: if_splits) (simp_all add: update_run_def)

lemma finish_running:
  assumes "run_is RUNNING i d" and "finish st i c as d = (p, d')"
  shows "p = Inr () \<and> run_is (outcome_status c) i d' \<and> artifacts_t d' = artifacts_t d @ map (artifact_row_of i) as
    \<or> (\<exists>x. p = Inl (DBAPIError x)) \<and> d' = d"
proof -
  from assms(1) obtain r where r: "find_run i d = Some r" "r_status r = RUNNING" by (auto simp: run_is_def)
  from find_by_Some [OF r(1)] have id: "r_id r = i" by blast
  from r(2) have nt: "\<not> terminal r" by (simp add: terminal_statuses_def)
  show ?thesis
  proof (cases "finish_row st r c as d")
    case (Inl e)
    with assms(2) r finish_row_error [OF Inl] show ?thesis by (auto simp: finish_def transaction.simps)
  next
    case (Inr d2)
    with assms(2) r have "p = Inr ()" "d' = d2" by (auto simp: finish_def transaction.simps)
    moreover have "run_is (outcome_status c) i d2"
      using finish_row_find_run [OF Inr nt, of i] r id by (simp add: run_is_def)
    moreover have "artifacts_t d2 = artifacts_t d @ map (artifact_row_of i) as"
      using finish_row_effect(1) [OF Inr nt] id by simp
    ultimately show ?thesis by simp
  qed
qed

lemma collect_named:
  assumes "\<And>p as. inventory p \<noteq> Inl (ExecutionFailure [] as)"
  shows "collect inventory work \<noteq> Inl (ExecutionFailure [] as)"
proof
  assume "collect inventory work = Inl (ExecutionFailure [] as)"
  then show False
    using assms resolve_error
    by (fastforce simp: collect_def Let_def bind_res_Inl_iff output_prefix_def second_piece_def
        split: if_splits option.splits)
qed

text \<open>The ways the body of a reconciliation can end.\<close>

lemma attempt_cases:
  assumes att: "attempt save fin observe gather work s w = (q, s', w')"
  obtains (fingerprint) e where "matches_fingerprint (w_release work) (w_parameters work) (w_fingerprint work) = Inl e"
      "q = Inl e" "s' = s"
    | (changed) "q = Inl (ExecutionFailure ''execution_definition_changed'' [])" "s' = s"
    | (unobserved) e where "observe work w = (Inl e, w')" "q = Inl e" "s' = s"
    | (conflict) u e where "save u s = (Inl e, s')" "q = Inl e"
    | (active) u where "save u s = (Inr (), s')" "q = Inr ()"
    | (failed) u s1 c where "save u s = (Inr (), s1)" "truthy c" "fin c [] s1 = (q, s')"
    | (ungathered) u e where "save u s = (Inr (), s')" "gather work w' = Inl e" "q = Inl e"
    | (gathered) ob s1 as where "observe work w = (Inr ob, w')" "o_state ob = ''succeeded''"
        "save (o_uid ob) s = (Inr (), s1)" "gather work w' = Inr as" "fin None as s1 = (q, s')"
proof (cases "matches_fingerprint (w_release work) (w_parameters work) (w_fingerprint work)")
  case (Inl e)
  with att fingerprint show thesis by (simp add: attempt_def)
next
  case (Inr ok)
  obtain o1 w1 where o1: "observe work w = (o1, w1)" by (cases "observe work w")
  show thesis
  proof (cases "ok \<and> (\<exists>ob. o1 = Inr ob)")
    case False
    with att Inr o1 changed unobserved show thesis by (cases ok; cases o1) (auto simp: attempt_def)
  next
    case True
    then obtain ob where ob: "o1 = Inr ob" and ok by blast
    obtain q' s1 where sv: "save (o_uid ob) s = (q', s1)" by (cases "save (o_uid ob) s")
    note body = att [unfolded attempt_def Inr, simplified \<open>ok\<close> o1 ob sv prod.case sum.case bool.case]
    show thesis
    proof (cases q')
      case (Inl e)
      with body sv \<open>ok\<close> show thesis by (intro conflict) auto
    next
      case u: (Inr u)
      with body sv o1 ob \<open>ok\<close> show thesis
        using active [of "o_uid ob"] ungathered [of "o_uid ob"] gathered [of ob s1]
          failed [of "o_uid ob" s1 "if truthy (o_failure_code ob) then o_failure_code ob else Some ''job_failed''"]
        by (cases "gather work w1") (auto simp: truthy_def split: prod.splits if_splits)
    qed
  qed
qed

lemma attempt_outcome:
  assumes obs: "\<And>work w as. fst (observe work w) \<noteq> Inl (ExecutionFailure [] as)"
    and gat: "\<And>work w as. gather work w \<noteq> Inl (ExecutionFailure [] as)"
    and run: "run_is RUNNING i d"
    and att: "attempt (save_job_uid i) (finish st i) observe gather work d w = (q, d1, w1)"
  shows "run_is RUNNING i d1 \<and> (\<forall>as. q \<noteq> Inl (ExecutionFailure [] as)) \<or> run_is FAILED i d1 \<and> q = Inr ()
    \<or> (\<exists>ob as. q = Inr () \<and> observe work w = (Inr ob, w1) \<and> o_state ob = ''succeeded'' \<and> gather work w1 = Inr as
        \<and> artifacts_t d1 = artifacts_t d @ map (artifact_row_of i) as)"
proof -
  have fin: "p = Inr () \<and> run_is (outcome_status c) i d2 \<and> artifacts_t d2 = artifacts_t d @ map (artifact_row_of i) as
      \<or> (\<exists>x. p = Inl (DBAPIError x)) \<and> run_is RUNNING i d2"
    if "save_job_uid i u d = (q', d')" "finish st i c as d' = (p, d2)" for u q' d' c as p d2
    using finish_running [OF _ that(2)] save_job_uid_running [OF run that(1)] by auto
  from att show ?thesis
  proof (cases rule: attempt_cases)
    case (fingerprint e)
    with run matches_fingerprint_error [OF fingerprint(1)] show ?thesis by auto
  next
    case changed
    with run show ?thesis by simp
  next
    case (unobserved e)
    with run obs [of work w] show ?thesis by simp
  next
    case (conflict u e)
    with save_job_uid_running [OF run conflict(1)] show ?thesis
      by (auto simp: save_job_uid_def transaction.simps split: option.splits if_splits)
  next
    case (active u)
    with save_job_uid_running [OF run active(1)] show ?thesis by simp
  next
    case (failed u s1 c)
    with fin [OF failed(1,3)] show ?thesis by (auto simp: outcome_status_def)
  next
    case (ungathered u e)
    with save_job_uid_running [OF run ungathered(1)] gat [of work w1] show ?thesis by simp
  next
    case (gathered ob s1 as)
    with fin [OF gathered(3,5)] show ?thesis by auto
  qed
qed

text \<open>
  A run that reconciliation moves to succeeded was observed as succeeded by the cluster, and its
  outputs were collected and recorded.
\<close>

lemma reconcile_success:
  assumes obs: "\<And>work w as. fst (observe work w) \<noteq> Inl (ExecutionFailure [] as)"
    and inv: "\<And>p w as. inventory p w \<noteq> Inl (ExecutionFailure [] as)"
    and run: "run_is RUNNING i d" and succ: "run_is SUCCEEDED i d'"
    and rec: "reconcile acquired (\<lambda>d. d) st observe inventory i d w = (r, d', w')"
  shows "\<exists>work ob as. record_load i d = Inr (Some work) \<and> observe work w = (Inr ob, w')
    \<and> o_state ob = ''succeeded'' \<and> collect (\<lambda>p. inventory p w') work = Inr as
    \<and> artifacts_t d' = artifacts_t d @ map (artifact_row_of i) as"
proof -
  let ?gather = "\<lambda>work w. collect (\<lambda>prefix. inventory prefix w) work"
  have ne: "d' \<noteq> d" using run succ run_is_unique [of RUNNING i d SUCCEEDED] by auto
  from rec ne have acq: acquired by (auto simp: reconcile_def split: if_splits)
  with rec ne obtain work where work: "record_load i d = Inr (Some work)"
    by (auto simp: reconcile_def reconcile_record_def split: sum.splits option.splits)
  obtain q d1 w1 where att: "attempt (save_job_uid i) (finish st i) observe ?gather work d w = (q, d1, w1)"
    by (cases "attempt (save_job_uid i) (finish st i) observe ?gather work d w") auto
  have gat: "\<And>work w as. ?gather work w \<noteq> Inl (ExecutionFailure [] as)"
    by (rule collect_named) (rule inv)
  note out = attempt_outcome [OF obs gat run att]
  from rec acq work att consider (same) "d' = d1" "w' = w1"
    | (handler) c as p where "q = Inl (ExecutionFailure c as)" "finish st i (Some c) as d1 = (p, d')"
    by (auto simp: reconcile_def reconcile_record_def split: sum.splits exn.splits prod.splits)
  then show ?thesis
  proof cases
    case same
    with out succ work run_is_unique [of RUNNING i d1 SUCCEEDED] run_is_unique [of FAILED i d1 SUCCEEDED]
    show ?thesis by auto
  next
    case (handler c as p)
    with out have "run_is RUNNING i d1" and "c \<noteq> []" by auto
    from finish_running [OF this(1) handler(2)] this have "run_is FAILED i d' \<or> run_is RUNNING i d'"
      by (auto simp: outcome_status_def truthy_def)
    with succ run_is_unique show ?thesis by blast
  qed
qed

section \<open>Lock keys\<close>

text \<open>The key fits PostgreSQL's \<open>bigint\<close> and determines the first eight bytes.\<close>

lemma lock_key_bounds:
  "- (2 ^ 63) \<le> lock_key i \<and> lock_key i < 2 ^ 63 \<and> lock_key i mod 2 ^ 64 = uint (drop_bit 64 i)"
proof -
  let ?k = "ucast (drop_bit 64 i) :: 64 word"
  have lt: "uint i < 2 ^ 128" using uint_lt2p [of i] by simp
  then have "take_bit 128 (uint i) = uint i" by (simp add: take_bit_int_eq_self)
  then have "uint (drop_bit 64 i) = uint i div 2 ^ 64"
    by (simp only: unsigned_drop_bit_eq) (simp add: drop_bit_eq_div)
  moreover note lt
  ultimately have "uint (drop_bit 64 i) < 2 ^ 64" by simp
  then have "uint ?k = uint (drop_bit 64 i)"
    by (simp add: unsigned_ucast_eq take_bit_int_eq_self)
  moreover have "lock_key i mod 2 ^ 64 = uint ?k"
    unfolding lock_key_def by (simp add: uint_sint take_bit_eq_mod)
  moreover have "- (2 ^ 63) \<le> sint ?k" "sint ?k < 2 ^ 63"
    using sint_greater_eq [of ?k] sint_less [of ?k] by simp_all
  ultimately show ?thesis by (simp add: lock_key_def)
qed

end
