(* ===== verification/System.thy ===== *)
theory System
  imports Consumption Publication Execution Users
begin

text \<open>
  The processes together: API requests, the catalog command, the worker, the publisher and the
  execution coordinator are interleaved transactions on one database. A claim of an execution
  slot holds the advisory lock over two transactions' worth of reads, so it is two steps with
  anything between them. Every reachable state is consistent, capacity is never exceeded, and a
  run's record only moves forward.
\<close>

section \<open>Each transaction moves forward\<close>

lemma finish_row_same_or_less:
  assumes "wf_runs d" and "find_run i d = Some r" and "finish_row st r code as d = Inr d'"
  shows "runs_advance d d' \<and> running_count d' \<le> running_count d"
  using finish_row_advance [OF assms(3,2)] finish_row_running_count [OF assms] by blast

lemma register_release_runs:
  assumes "register_release (register st) config d = (res, d')"
  shows "runs_t d' = runs_t d"
proof -
  have ins: "insert_release st k img ex d1 = Inr (row, d2) \<Longrightarrow> runs_t d2 = runs_t d1" for k img ex d1 row d2
    by (auto simp: insert_release_def Let_def split: if_splits)
  have store: "store_release st def d1 = Inr (row, d2) \<Longrightarrow> runs_t d2 = runs_t d1" for def d1 row d2
    by (auto simp: store_release_def Let_def split: option.splits dest: ins)
  have "register st def d = (res, d') \<Longrightarrow> runs_t d' = runs_t d" for def
    by (cases res)
      (auto simp: register_def transaction_commit transaction_raise register_body_def Let_def
        rename_model_def upsert_model_def split: option.splits dest!: store)
  with assms show ?thesis by (auto simp: register_release_def split: sum.splits)
qed

lemma submit_keeps_runs:
  assumes "submit limits st i rid p owner d = (res, d')"
  shows "runs_advance d d' \<and> running_count d' = running_count d"
proof (cases res)
  case (Inl e)
  with sql_submissions.submit_atomic [OF assms [unfolded submit_def]] show ?thesis by simp
next
  case (Inr q)
  from sql_submissions.submit_parameters [OF assms [unfolded submit_def Inr]] have
    "q_status q = QUEUED" and save: "save_requested limits st q d = (Inr (), d')" by metis+
  with save_requested_counts [OF save] show ?thesis
    using runs_advance_append [of d' d] by (auto simp: save_requested_Inr)
qed

lemma execute_with_outcome_advance:
  assumes wf: "wf_runs d" and ex: "execute_with_outcome st i d = (res, d')"
  shows "runs_advance d d' \<and> running_count d' \<le> running_count d"
proof (cases res)
  case (Inl e)
  with ex show ?thesis by (auto dest: execute_with_outcome_rollback)
next
  case (Inr a)
  from ex [unfolded Inr] show ?thesis
  proof (cases rule: execute_with_outcome_cases)
    case (unchanged row)
    then show ?thesis by simp
  next
    case (accepted row)
    let ?f = "\<lambda>r. r\<lparr>r_status := QUEUED, r_accepted_at := Some (st_clock st), r_failure_code := r_failure_code row\<rparr>"
    from find_by_Some [OF accepted(1)] have row: "row \<in> set (runs_t d)" "r_id row = i" by auto
    have "runs_advance d d'"
      by (rule runs_advance_update [where f = ?f, OF _ _ accepted(1)])
        (use accepted(2,3,6) in \<open>auto simp: update_run_def row_advance_def same_request_def terminal_statuses_def\<close>)
    moreover have "running_count d' = running_count d"
      using count_where_update_by [OF wf_runsD(1) [OF wf] row(1), of "\<lambda>r. r_status r = RUNNING" ?f] row(2) accepted(3,6)
      by (simp add: running_count_def update_run_def)
    ultimately show ?thesis by simp
  next
    case (failed row d1)
    from find_by_Some [OF failed(1)] have row: "r_id row = i" by blast
    have "d' = d1"
      unfolding failed(7) row [symmetric]
      by (rule finish_row_then_same [OF failed(6)])
        (use failed(1,2,3) row wf in \<open>auto simp: terminal_statuses_def finished_def\<close>)
    with finish_row_same_or_less [OF wf failed(1) failed(6)] show ?thesis by simp
  qed
qed

lemma record_rejection_runs: "record_rejection st l rej d = (res, d') \<Longrightarrow> runs_t d' = runs_t d"
  by (cases res) (auto dest: record_rejection_rollback record_rejection_Inr(2))

lemma reject_runs: "reject (record_rejection st) l rej d = (res, d') \<Longrightarrow> runs_t d' = runs_t d"
  by (auto simp: reject_def split: prod.splits sum.splits dest: record_rejection_runs)

lemma consume_advance:
  assumes wf: "wf_runs d" and c: "consume st l req d = (res, d')"
  shows "runs_advance d d' \<and> running_count d' \<le> running_count d"
proof (cases req)
  case (Inr rej)
  with c have "runs_t d' = runs_t d" by (auto simp: consume_def consume_request_def dest: reject_runs)
  then show ?thesis by (auto intro: runs_advance_same simp: running_count_def)
next
  case (Inl i)
  obtain r d1 where acc: "execute_with_outcome st i d = (r, d1)" by (cases "execute_with_outcome st i d")
  from c Inl acc have "runs_t d' = runs_t d1"
    by (auto simp: consume_def consume_request_def split: sum.splits exn.splits dest: reject_runs)
  with execute_with_outcome_advance [OF wf acc] show ?thesis
    by (auto simp: running_count_def intro: runs_advance_trans runs_advance_same)
qed

lemma sql_publish_outbox_runs:
  assumes "sql_publish_outbox locked clock commit publish n (d, w) = (res, d', w')"
  shows "runs_t d' = runs_t d"
  by (rule sql_publish_outbox_keeps [OF assms, where P = "\<lambda>x. runs_t x = runs_t d"])
    (simp_all add: mark_published_def)

section \<open>Runs and users do not interfere\<close>

definition users_frame :: "db \<Rightarrow> db \<Rightarrow> bool" where
  "users_frame d d' \<longleftrightarrow> users_t d' = users_t d \<and> identities_t d' = identities_t d \<and> roles_t d' = roles_t d
     \<and> user_roles_t d' = user_roles_t d"

definition runs_frame :: "db \<Rightarrow> db \<Rightarrow> bool" where
  "runs_frame d d' \<longleftrightarrow> models_t d' = models_t d \<and> releases_t d' = releases_t d \<and> runs_t d' = runs_t d
     \<and> artifacts_t d' = artifacts_t d \<and> outbox_t d' = outbox_t d \<and> rejected_t d' = rejected_t d"

lemma users_frame_refl [simp]: "users_frame d d"
  by (simp add: users_frame_def)

lemma runs_frame_refl [simp]: "runs_frame d d"
  by (simp add: runs_frame_def)

lemma users_frame_trans: "users_frame d d' \<Longrightarrow> users_frame d' d'' \<Longrightarrow> users_frame d d''"
  by (simp add: users_frame_def)

lemma wf_users_frame: "users_frame d d' \<Longrightarrow> wf_users d \<Longrightarrow> wf_users d'"
  by (simp add: users_frame_def wf_users_def)

lemma wf_db_frame: "runs_frame d d' \<Longrightarrow> wf_db d \<Longrightarrow> wf_db d'"
  by (simp add: runs_frame_def wf_db_def wf_runs_def wf_catalog_def protected_runs_def run_events_def
      run_compatible_def load_release_definition_def)

lemma update_run_frame [frame]: "users_frame d (update_run i f d)"
  by (simp add: users_frame_def update_run_def)

lemma finish_row_frame [frame]: "finish_row st r code as d = Inr d' \<Longrightarrow> users_frame d d'"
  by (cases "terminal r") (auto simp: finish_row_terminal users_frame_def dest: finish_row_effect(1))

lemma register_release_frame [frame]:
  assumes "register_release (register st) config d = (res, d')" shows "users_frame d d'"
proof -
  have ins: "insert_release st k img ex d1 = Inr (row, d2) \<Longrightarrow> users_frame d1 d2" for k img ex d1 row d2
    by (auto simp: insert_release_def Let_def users_frame_def split: if_splits)
  have store: "store_release st def d1 = Inr (row, d2) \<Longrightarrow> users_frame d1 d2" for def d1 row d2
    by (auto simp: store_release_def Let_def users_frame_def split: option.splits dest: ins [unfolded users_frame_def])
  have "register st def d = (res, d') \<Longrightarrow> users_frame d d'" for def
    by (cases res)
      (auto simp: register_def transaction_commit transaction_raise register_body_def Let_def users_frame_def
        rename_model_def upsert_model_def split: option.splits dest!: store [unfolded users_frame_def])
  with assms show ?thesis by (auto simp: register_release_def split: sum.splits)
qed

lemma submit_frame [frame]:
  assumes "submit limits st i rid p owner d = (res, d')" shows "users_frame d d'"
proof (cases res)
  case (Inl e)
  with sql_submissions.submit_atomic [OF assms [unfolded submit_def]] show ?thesis by simp
next
  case (Inr q)
  from sql_submissions.submit_parameters [OF assms [unfolded submit_def Inr]] have
    "save_requested limits st q d = (Inr (), d')" by metis
  then show ?thesis by (simp add: save_requested_Inr users_frame_def)
qed

lemma execute_with_outcome_frame [frame]:
  assumes "execute_with_outcome st i d = (res, d')" shows "users_frame d d'"
proof (cases res)
  case (Inl e)
  with assms show ?thesis by (auto dest: execute_with_outcome_rollback)
next
  case (Inr a)
  from assms [unfolded Inr] show ?thesis
    by (cases rule: execute_with_outcome_cases)
      (auto intro: frame users_frame_trans [OF finish_row_frame update_run_frame])
qed

lemma reject_frame [frame]: "reject (record_rejection st) l rej d = (res, d') \<Longrightarrow> users_frame d d'"
proof -
  have "record_rejection st l rej d = (r, d1) \<Longrightarrow> users_frame d d1" for r d1
    by (cases r) (auto simp: users_frame_def dest: record_rejection_rollback record_rejection_Inr(2))
  then show "reject (record_rejection st) l rej d = (res, d') \<Longrightarrow> users_frame d d'"
    by (auto simp: reject_def split: prod.splits sum.splits)
qed

lemma consume_frame [frame]:
  assumes "consume st l req d = (res, d')" shows "users_frame d d'"
proof (cases req)
  case (Inr rej)
  with assms show ?thesis by (auto simp: consume_def consume_request_def intro: frame)
next
  case (Inl i)
  obtain r d1 where acc: "execute_with_outcome st i d = (r, d1)" by (cases "execute_with_outcome st i d")
  from assms Inl acc have "users_frame d1 d'"
    by (auto simp: consume_def consume_request_def split: sum.splits exn.splits intro: reject_frame)
  with execute_with_outcome_frame [OF acc] show ?thesis by (rule users_frame_trans)
qed

lemma publish_frame [frame]:
  assumes "sql_publish_outbox locked clock commit publish n (d, w) = (res, d', w')" shows "users_frame d d'"
  by (rule sql_publish_outbox_keeps [OF assms, where P = "users_frame d"])
    (simp_all add: mark_published_def users_frame_def)

lemma save_job_uid_frame [frame]: "save_job_uid i u d = (res, d') \<Longrightarrow> users_frame d d'"
  by (auto simp: save_job_uid_def transaction.simps split: option.splits if_splits intro: frame)

lemma finish_frame [frame]: "finish st i code as d = (res, d') \<Longrightarrow> users_frame d d'"
  by (auto simp: finish_def transaction.simps split: option.splits sum.splits intro: frame)

lemma claim_frame [frame]: "transaction (claim_locked st ns c) d = (res, d') \<Longrightarrow> users_frame d d'"
  by (cases res) (auto simp: transaction_raise transaction_commit claim_locked_def
      split: option.splits if_splits intro: frame)

lemma current_user_frame:
  assumes "current_user_of st st' (\<lambda>d. d) (\<lambda>d. d) i d = (res, d')" shows "runs_frame d d'"
proof -
  have sync: "synchronize_profile (update_profile t) a i x = Inr (b, y) \<Longrightarrow> runs_frame x y" for t a x b y
    by (auto simp: synchronize_profile_def update_profile_def Let_def runs_frame_def split: if_splits)
  have create: "create_with_identity_and_role st i role x = Inr (a, y) \<Longrightarrow> runs_frame x y" for role x a y
    by (auto simp: runs_frame_def dest: create_Inr(4))
  have once: "resolve_once find_by_identity (create_with_identity_and_role st) (update_profile st) i x y = Inr (c, z)
      \<Longrightarrow> runs_frame y z" for x y z c
    by (auto simp: resolve_once_def and_current_def split: option.splits dest: create sync)
  have again: "resolve_again find_by_identity (update_profile st') i x y = Inr (c, z) \<Longrightarrow> runs_frame y z" for x y z c
    by (auto simp: resolve_again_def and_current_def split: option.splits dest: sync)
  show ?thesis
    using assms once again
    by (auto simp: current_user_of_def resolve_current_user_def transaction.simps split: sum.splits exn.splits prod.splits)
qed

lemma grant_admin_frame: "grant_admin st u d = (res, d') \<Longrightarrow> runs_frame d d'"
  by (cases res) (auto simp: grant_admin_def transaction_raise transaction_commit grant_body_def add_role_def
      insert_user_role_def runs_frame_def split: option.splits if_splits)

lemma current_user_wf_users:
  assumes wf: "wf_users d" and c: "current_user_of st st' (\<lambda>d. d) (\<lambda>d. d) i d = (res, d')" shows "wf_users d'"
proof (cases "transaction (resolve_once find_by_identity (create_with_identity_and_role st) (update_profile st) i d) d")
  case (Pair r d1)
  show ?thesis
  proof (cases r)
    case (Inr u)
    with Pair c have "d' = d1" by (simp add: current_user_of_def resolve_current_user_def)
    with sql_users.resolve_once_ok [OF wf, of st i u d1] Pair Inr show ?thesis by (simp add: transaction_commit)
  next
    case (Inl e)
    with Pair have d1: "d1 = d" by (simp add: transaction_raise)
    have sync: "synchronize_profile (update_profile st') a i d = Inr (b, y) \<Longrightarrow> wf_users y" for a b y
      using wf update_profile_wf_users [of d st' a "profile_updates a i" b y]
      by (auto simp: synchronize_profile_def Let_def split: if_splits)
    have "resolve_again find_by_identity (update_profile st') i d d = Inr (v, y) \<Longrightarrow> wf_users y" for v y
      by (auto simp: resolve_again_def and_current_def split: option.splits dest: sync)
    with c Pair Inl d1 wf show ?thesis
      by (auto simp: current_user_of_def resolve_current_user_def transaction.simps split: exn.splits sum.splits prod.splits)
  qed
qed

section \<open>The system\<close>

record system =
  sys_db :: db
  claiming :: "run_row option"

inductive sys_step :: "int \<Rightarrow> system \<Rightarrow> system \<Rightarrow> bool" for capacity :: int where
  register_step: "register_release (register st) config (sys_db s) = (res, d') \<Longrightarrow>
    sys_step capacity s (s\<lparr>sys_db := d'\<rparr>)"
| submit_step: "submit limits st i rid params owner (sys_db s) = (res, d') \<Longrightarrow>
    sys_step capacity s (s\<lparr>sys_db := d'\<rparr>)"
| consume_step: "consume st loc req (sys_db s) = (res, d') \<Longrightarrow> sys_step capacity s (s\<lparr>sys_db := d'\<rparr>)"
| publish_step: "sql_publish_outbox locked clock commit (kafka_publish rt et deadline) n (sys_db s, w) = (res, d', w')
    \<Longrightarrow> sys_step capacity s (s\<lparr>sys_db := d'\<rparr>)"
| job_uid_step: "started i (sys_db s) \<Longrightarrow> save_job_uid i uid (sys_db s) = (res, d') \<Longrightarrow>
    sys_step capacity s (s\<lparr>sys_db := d'\<rparr>)"
| finish_step: "started i (sys_db s) \<Longrightarrow> finish st i code as (sys_db s) = (res, d') \<Longrightarrow>
    sys_step capacity s (s\<lparr>sys_db := d'\<rparr>)"
| claim_begin_step: "claiming s = None \<Longrightarrow>
    sys_step capacity s (s\<lparr>claiming := claim_candidate capacity (sys_db s)\<rparr>)"
| claim_end_step: "claiming s = Some c \<Longrightarrow> transaction (claim_locked st ns c) (sys_db s) = (res, d') \<Longrightarrow>
    sys_step capacity s (s\<lparr>sys_db := d', claiming := None\<rparr>)"
| resolve_user_step: "current_user_of st st' (\<lambda>d. d) (\<lambda>d. d) ident (sys_db s) = (res, d') \<Longrightarrow>
    sys_step capacity s (s\<lparr>sys_db := d'\<rparr>)"
| grant_step: "grant_admin st u (sys_db s) = (res, d') \<Longrightarrow> sys_step capacity s (s\<lparr>sys_db := d'\<rparr>)"
| claim_abort_step: "sys_step capacity s (s\<lparr>claiming := None\<rparr>)"

definition sys_inv :: "int \<Rightarrow> system \<Rightarrow> bool" where
  "sys_inv capacity s \<longleftrightarrow> wf_db (sys_db s) \<and> wf_users (sys_db s) \<and> int (running_count (sys_db s)) \<le> capacity
     \<and> (\<forall>c. claiming s = Some c \<longrightarrow> int (running_count (sys_db s)) < capacity
          \<and> (\<exists>row. find_run (r_id c) (sys_db s) = Some row \<and> r_model_release_id row = r_model_release_id c))"

text \<open>A transaction that keeps the tables, moves runs forward and starts none keeps the invariant.\<close>

lemma sys_inv_passive:
  assumes "sys_inv capacity s" and "wf_db d'" and "runs_advance (sys_db s) d'"
    and "running_count d' \<le> running_count (sys_db s)" and "wf_users d'"
  shows "sys_inv capacity (s\<lparr>sys_db := d'\<rparr>)"
  using assms by (fastforce simp: sys_inv_def runs_advance_def row_advance_def same_request_def)

lemma sys_inv_runs_frame:
  assumes "sys_inv capacity s" and "runs_frame (sys_db s) d'" and "wf_users d'"
  shows "sys_inv capacity (s\<lparr>sys_db := d'\<rparr>) \<and> runs_advance (sys_db s) d'"
proof -
  from assms(2) have "runs_t d' = runs_t (sys_db s)" by (simp add: runs_frame_def)
  with assms wf_db_frame [OF assms(2)] show ?thesis
    using sys_inv_passive [OF assms(1), of d']
    by (simp add: runs_advance_same running_count_def sys_inv_def)
qed

lemma sys_step_keeps:
  assumes "sys_step capacity s s'" and "sys_inv capacity s"
  shows "sys_inv capacity s' \<and> runs_advance (sys_db s) (sys_db s')"
proof -
  from assms(2) have wf: "wf_db (sys_db s)" and wu: "wf_users (sys_db s)" by (simp_all add: sys_inv_def)
  note users = wf_users_frame [OF _ wu]
  from assms(1) show ?thesis
  proof (cases rule: sys_step.cases)
    case (register_step st config res d')
    have "wf_db d'" using sql_catalog.register_release_inv [OF wf, of st config] register_step(2) by simp
    moreover have "runs_t d' = runs_t (sys_db s)" by (rule register_release_runs [OF register_step(2)])
    ultimately show ?thesis
      using sys_inv_passive [OF assms(2), of d'] users [OF register_release_frame [OF register_step(2)]] register_step(1)
      by (simp add: runs_advance_same running_count_def)
  next
    case (submit_step limits st i rid params owner res d')
    then show ?thesis
      using sys_inv_passive [OF assms(2), of d'] submit_wf_db [OF wf submit_step(2)] submit_keeps_runs [OF submit_step(2)]
        users [OF submit_frame [OF submit_step(2)]] by simp
  next
    case (consume_step st loc req res d')
    then show ?thesis
      using sys_inv_passive [OF assms(2), of d'] consume_wf_db [OF wf consume_step(2)]
        consume_advance [OF wf_dbD(1) [OF wf] consume_step(2)] users [OF consume_frame [OF consume_step(2)]] by simp
  next
    case (publish_step locked clock commit rt et deadline n w res d' w')
    then show ?thesis
      using sys_inv_passive [OF assms(2), of d'] sql_publish_outbox_wf_db [OF publish_step(2) wf]
        sql_publish_outbox_runs [OF publish_step(2)] users [OF publish_frame [OF publish_step(2)]]
      by (simp add: running_count_def runs_advance_same)
  next
    case (job_uid_step i uid res d')
    then show ?thesis
      using sys_inv_passive [OF assms(2), of d'] save_job_uid_keeps [OF wf job_uid_step(3)]
        users [OF save_job_uid_frame [OF job_uid_step(3)]] by simp
  next
    case (finish_step i st code as res d')
    then show ?thesis
      using sys_inv_passive [OF assms(2), of d'] finish_keeps [OF wf finish_step(2,3)]
        users [OF finish_frame [OF finish_step(3)]] by simp
  next
    case claim_begin_step
    have "\<exists>row. find_run (r_id c) (sys_db s) = Some row \<and> r_model_release_id row = r_model_release_id c"
      if "claim_candidate capacity (sys_db s) = Some c" for c
      using find_run_mem [OF wf_runsD(1) [OF wf_dbD(1) [OF wf]] claim_candidate_Some(2) [OF that]] by blast
    with assms(2) claim_begin_step claim_candidate_Some(1) show ?thesis by (auto simp: sys_inv_def)
  next
    case (claim_end_step c st ns res d')
    from assms(2) claim_end_step(2) obtain row where row: "find_run (r_id c) (sys_db s) = Some row"
        "r_model_release_id row = r_model_release_id c" and cap: "int (running_count (sys_db s)) < capacity"
      by (auto simp: sys_inv_def)
    from claim_locked_keeps [OF wf row claim_end_step(3)] cap users [OF claim_frame [OF claim_end_step(3)]] claim_end_step(1)
    show ?thesis by (simp add: sys_inv_def)
  next
    case (resolve_user_step st st' ident res d')
    then show ?thesis
      using sys_inv_runs_frame [OF assms(2) current_user_frame [OF resolve_user_step(2)] current_user_wf_users [OF wu resolve_user_step(2)]]
      by simp
  next
    case (grant_step st u res d')
    then show ?thesis
      using sys_inv_runs_frame [OF assms(2) grant_admin_frame [OF grant_step(2)] grant_admin_wf_users [OF wu grant_step(2)]]
      by simp
  next
    case claim_abort_step
    with assms(2) show ?thesis by (simp add: sys_inv_def)
  qed
qed

section \<open>Reachable states\<close>

text \<open>The database the migrations leave: empty but for the two roles.\<close>

definition empty_db :: db where
  "empty_db = \<lparr>models_t = [], releases_t = [], runs_t = [], artifacts_t = [], outbox_t = [], rejected_t = [],
     users_t = [], identities_t = [], roles_t = seeded_roles 0 0, user_roles_t = []\<rparr>"

definition initial_system :: system where
  "initial_system = \<lparr>sys_db = empty_db, claiming = None\<rparr>"

lemma sys_steps_keep:
  assumes "(sys_step capacity)\<^sup>*\<^sup>* s s'" and "sys_inv capacity s"
  shows "sys_inv capacity s' \<and> runs_advance (sys_db s) (sys_db s')"
  using assms
proof (induction rule: rtranclp_induct)
  case base
  then show ?case by simp
next
  case (step y z)
  with sys_step_keeps [OF step(2)] runs_advance_trans show ?case by blast
qed

lemma sys_inv_initial: "0 \<le> capacity \<Longrightarrow> sys_inv capacity initial_system"
  by (simp add: sys_inv_def initial_system_def empty_db_def wf_db_def wf_runs_def wf_catalog_def
      protected_runs_def running_count_def wf_users_def seeded_roles_def)

lemmas sys_reachable = sys_steps_keep [OF _ sys_inv_initial]

end
