(* ===== verification/Live.thy ===== *)
theory Live
  imports Notifications System
begin

text \<open>
  The live view: the platform, the notification channel, the feed and its streams as one
  system. The steps are the sections of the code between which other threads and processes
  may run: a commit of the platform, the listener's batches (\<open>RunNotifications._run\<close>), each
  change of \<open>RunFeed.publish\<close> before and after its read, the two halves of
  \<open>RunFeed.snapshot\<close>, and \<open>drain\<close>. The lock \<open>_reads\<close> is explicit; a section under
  \<open>_lock\<close> is one step. What a stream has been sent is its view. Every view and its pending
  updates agree with the database up to the changes that are still under way.
\<close>

section \<open>State\<close>

datatype reads_lock = Free | Publishing | Snapshotting nat "exn + run_detail list"

text \<open>
  The listener's connection: listening, lost without the listener knowing yet, or closed.
\<close>

datatype link = Up | Broken | Down

record live =
  lv_sys :: system
  lv_link :: link
  lv_queue :: "string list"
  lv_feed :: run_feed
  lv_reads :: reads_lock
  lv_batch :: "(uuid \<times> uuid option) list"
  lv_failed :: bool
  lv_inflight :: "(uuid \<times> uuid option \<times> (exn + run_detail option)) option"
  lv_next :: nat
  lv_views :: "nat \<Rightarrow> (uuid \<Rightarrow> run_detail option) option"

abbreviation lv_db :: "live \<Rightarrow> db" where
  "lv_db w \<equiv> sys_db (lv_sys w)"

abbreviation detail :: "live \<Rightarrow> uuid \<Rightarrow> run_detail option" where
  "detail w i \<equiv> find_detail i (lv_db w)"

definition as_view :: "run_detail list \<Rightarrow> uuid \<Rightarrow> run_detail option" where
  "as_view xs = map_of (map (\<lambda>x. (rn_id x, x)) xs)"

definition initial_live :: "run_feed \<Rightarrow> live" where
  "initial_live f = \<lparr>lv_sys = initial_system, lv_link = Down, lv_queue = [], lv_feed = f, lv_reads = Free,
     lv_batch = [], lv_failed = False, lv_inflight = None, lv_next = 0, lv_views = (\<lambda>_. None)\<rparr>"

section \<open>Steps\<close>

inductive live_step :: "int \<Rightarrow> live \<Rightarrow> live \<Rightarrow> bool" for capacity :: int where
  commit_step: "sys_step capacity (lv_sys w) s' \<Longrightarrow>
    live_step capacity w (w\<lparr>lv_sys := s', lv_queue := (if lv_link w = Up
      then lv_queue w @ run_notes (lv_db w) (sys_db s') else lv_queue w)\<rparr>)"
| break_step: "lv_link w = Up \<Longrightarrow> live_step capacity w (w\<lparr>lv_link := Broken\<rparr>)"
| listen_step: "lv_link w = Down \<Longrightarrow> live_step capacity w (w\<lparr>lv_link := Up, lv_queue := []\<rparr>)"
| announce_step: "lv_link w \<noteq> Down \<Longrightarrow> live_step capacity w (w\<lparr>lv_feed := feed_up (lv_feed w)\<rparr>)"
| lost_step: "lv_batch w = [] \<Longrightarrow> lv_inflight w = None \<Longrightarrow> lv_reads w \<noteq> Publishing \<Longrightarrow>
    live_step capacity w (w\<lparr>lv_link := Down, lv_queue := [], lv_feed := feed_down (lv_feed w)\<rparr>)"
| take_step: "lv_link w \<noteq> Down \<Longrightarrow> lv_batch w = [] \<Longrightarrow> lv_inflight w = None \<Longrightarrow> lv_reads w \<noteq> Publishing \<Longrightarrow>
    live_step capacity w (w\<lparr>lv_batch := collect_changes (take n (lv_queue w)), lv_queue := drop n (lv_queue w)\<rparr>)"
| publish_begin_step: "lv_reads w = Free \<Longrightarrow> lv_batch w \<noteq> [] \<Longrightarrow>
    live_step capacity w (w\<lparr>lv_reads := Publishing, lv_failed := False\<rparr>)"
| publish_stop_step: "lv_reads w = Publishing \<Longrightarrow> lv_inflight w = None \<Longrightarrow> lv_batch w = (i, owner) # changes \<Longrightarrow>
    publish_action_of (lv_failed w) owner (lv_feed w) = Stop \<Longrightarrow> live_step capacity w (w\<lparr>lv_batch := []\<rparr>)"
| publish_skip_step: "lv_reads w = Publishing \<Longrightarrow> lv_inflight w = None \<Longrightarrow> lv_batch w = (i, owner) # changes \<Longrightarrow>
    publish_action_of (lv_failed w) owner (lv_feed w) = Skip \<Longrightarrow> live_step capacity w (w\<lparr>lv_batch := changes\<rparr>)"
| publish_resync_step: "lv_reads w = Publishing \<Longrightarrow> lv_inflight w = None \<Longrightarrow> lv_batch w = (i, owner) # changes \<Longrightarrow>
    publish_action_of (lv_failed w) owner (lv_feed w) = Resync \<Longrightarrow>
    live_step capacity w (w\<lparr>lv_batch := changes, lv_feed := resync owner (lv_feed w)\<rparr>)"
| publish_read_step: "lv_reads w = Publishing \<Longrightarrow> lv_inflight w = None \<Longrightarrow> lv_batch w = (i, owner) # changes \<Longrightarrow>
    publish_action_of (lv_failed w) owner (lv_feed w) = Read \<Longrightarrow> res = Inr (detail w i) \<or> res = Inl e \<Longrightarrow>
    live_step capacity w (w\<lparr>lv_batch := changes, lv_inflight := Some (i, owner, res)\<rparr>)"
| publish_found_step: "lv_inflight w = Some (i, owner, res) \<Longrightarrow>
    publish_found owner res (lv_failed w) (lv_feed w) = (failed', f') \<Longrightarrow>
    live_step capacity w (w\<lparr>lv_inflight := None, lv_failed := failed', lv_feed := f'\<rparr>)"
| publish_end_step: "lv_reads w = Publishing \<Longrightarrow> lv_inflight w = None \<Longrightarrow> lv_batch w = [] \<Longrightarrow>
    live_step capacity w (w\<lparr>lv_reads := Free\<rparr>)"
| subscribe_step: "subscribe (lv_next w) u (lv_feed w) = Inr f' \<Longrightarrow>
    live_step capacity w (w\<lparr>lv_feed := f', lv_next := Suc (lv_next w)\<rparr>)"
| unsubscribe_step: "live_step capacity w (w\<lparr>lv_feed := unsubscribe t (lv_feed w)\<rparr>)"
| snapshot_read_step: "lv_reads w = Free \<Longrightarrow> find_sub t (lv_feed w) = Some s \<Longrightarrow>
    res = feed_snapshot (sub_user s) (lv_db w) \<or> res = Inl e \<Longrightarrow>
    live_step capacity w (w\<lparr>lv_reads := Snapshotting t res\<rparr>)"
| snapshot_done_step: "lv_reads w = Snapshotting t (Inr xs) \<Longrightarrow> find_sub t (lv_feed w) = Some s \<Longrightarrow>
    snapshot_ready s (lv_feed w) = Inr f' \<Longrightarrow>
    live_step capacity w (w\<lparr>lv_reads := Free, lv_feed := f', lv_views := (lv_views w)(t := Some (as_view xs))\<rparr>)"
| snapshot_fail_step: "lv_reads w = Snapshotting t res \<Longrightarrow> live_step capacity w (w\<lparr>lv_reads := Free\<rparr>)"
| drain_step: "find_sub t (lv_feed w) = Some s \<Longrightarrow> lv_views w t = Some v \<Longrightarrow>
    drain s (lv_feed w) = ((err, updates), f') \<Longrightarrow>
    live_step capacity w (w\<lparr>lv_feed := f', lv_views := (if err = None
      then (lv_views w)(t := Some (v ++ as_view updates)) else lv_views w)\<rparr>)"
| callback_step: "live_step capacity w (w\<lparr>lv_feed := on_sub t run_callback (lv_feed w)\<rparr>)"

section \<open>The feed's store\<close>

definition agrees :: "uuid \<Rightarrow> run_detail option \<Rightarrow> run_detail option \<Rightarrow> bool" where
  "agrees u shown stored \<longleftrightarrow> (case shown of
     Some x \<Rightarrow> stored = Some x
   | None \<Rightarrow> (\<forall>x. stored = Some x \<longrightarrow> rn_requested_by x = Some u \<longrightarrow> rn_status x \<notin> set active_statuses))"

definition owned_view :: "(uuid \<Rightarrow> run_detail option) \<Rightarrow> uuid \<Rightarrow> (uuid \<Rightarrow> run_detail option) \<Rightarrow> bool" where
  "owned_view det u v \<longleftrightarrow> (\<forall>i x. v i = Some x \<longrightarrow> rn_id x = i \<and> rn_requested_by x = Some u
     \<and> (\<exists>y. det i = Some y \<and> rn_requested_by y = Some u))"

text \<open>What the feed relies on its store for.\<close>

locale feed_store =
  fixes lookup :: "uuid \<Rightarrow> 's \<Rightarrow> run_detail option"
    and snap :: "uuid \<Rightarrow> 's \<Rightarrow> exn + run_detail list"
    and ok :: "'s \<Rightarrow> bool"
  assumes snap_found: "ok s \<Longrightarrow> snap u s = Inr xs \<Longrightarrow> x \<in> set xs \<Longrightarrow>
      lookup (rn_id x) s = Some x \<and> rn_requested_by x = Some u"
    and snap_active: "ok s \<Longrightarrow> snap u s = Inr xs \<Longrightarrow> lookup i s = Some x \<Longrightarrow> rn_requested_by x = Some u \<Longrightarrow>
      rn_status x \<in> set active_statuses \<Longrightarrow> x \<in> set xs"
    and lookup_id: "ok s \<Longrightarrow> lookup i s = Some x \<Longrightarrow> rn_id x = i"
begin

lemma as_view_found:
  assumes "ok s" and "snap u s = Inr xs" and "as_view xs i = Some x"
  shows "lookup i s = Some x \<and> rn_id x = i \<and> rn_requested_by x = Some u"
proof -
  from assms(3) have "x \<in> set xs \<and> rn_id x = i" by (auto simp: as_view_def dest!: map_of_SomeD)
  with snap_found [OF assms(1,2)] show ?thesis by blast
qed

lemma snapshot_agrees:
  assumes "ok s" and "snap u s = Inr xs"
  shows "agrees u (as_view xs i) (lookup i s)"
proof (cases "as_view xs i")
  case (Some x)
  with as_view_found [OF assms] show ?thesis by (simp add: agrees_def)
next
  case None
  then have "\<And>x. x \<in> set xs \<Longrightarrow> rn_id x \<noteq> i" by (force simp: as_view_def map_of_eq_None_iff)
  with None snap_active [OF assms] lookup_id [OF assms(1)] show ?thesis by (simp add: agrees_def) metis
qed

lemma snapshot_owned:
  assumes "ok s" and "snap u s = Inr xs" shows "owned_view (\<lambda>i. lookup i s) u (as_view xs)"
  using as_view_found [OF assms] by (auto simp: owned_view_def)

end

interpretation sql_feed: feed_store find_detail feed_snapshot "\<lambda>d. distinct (map r_id (runs_t d))"
proof unfold_locales
  fix d u xs x
  assume d: "distinct (map r_id (runs_t d))" and s: "feed_snapshot u d = Inr xs"
  show "x \<in> set xs \<Longrightarrow> find_detail (rn_id x) d = Some x \<and> rn_requested_by x = Some u"
    by (rule snapshot_is_find [OF d s])
  fix i assume l: "find_detail i d = Some x" "rn_requested_by x = Some u" "rn_status x \<in> set active_statuses"
  from l(1) obtain r where r: "find_run i d = Some r" "x = run_detail_of r (artifacts_of i d)"
    by (auto simp: find_detail_eq [OF d])
  with find_by_Some [OF r(1)] l have "r \<in> set (snapshot_runs u d)" "r_id r = i" by (auto simp: snapshot_runs_def)
  with r(2) s show "x \<in> set xs" by (auto simp: feed_snapshot_eq [OF d])
next
  fix d :: db and i x assume d: "distinct (map r_id (runs_t d))" and "find_detail i d = Some x"
  then show "rn_id x = i" by (auto simp: find_detail_eq [OF d] dest: find_by_Some)
qed

section \<open>The invariant\<close>

text \<open>The runs whose last change has not yet reached the subscriptions.\<close>

definition outstanding :: "live \<Rightarrow> uuid set" where
  "outstanding w = payload_ids (lv_queue w) \<union> fst ` set (lv_batch w)
     \<union> {i. \<exists>owner res. lv_inflight w = Some (i, owner, res) \<and> (\<forall>x. res = Inr x \<longrightarrow> x = detail w i)}"

lemma outstanding_fields [simp]:
  "outstanding (lv_reads_update g w) = outstanding w" "outstanding (lv_views_update h w) = outstanding w"
  "outstanding (lv_next_update k w) = outstanding w" "outstanding (lv_failed_update b w) = outstanding w"
  "outstanding (lv_feed_update f w) = outstanding w"
  by (simp_all add: outstanding_def)

definition current :: "live \<Rightarrow> uuid \<Rightarrow> (uuid \<Rightarrow> run_detail option) \<Rightarrow> bool" where
  "current w u v \<longleftrightarrow> (\<forall>i. i \<in> outstanding w \<or> agrees u (v i) (detail w i))"

definition owner_ok :: "(uuid \<Rightarrow> run_detail option) \<Rightarrow> uuid \<Rightarrow> uuid option \<Rightarrow> bool" where
  "owner_ok det i owner \<longleftrightarrow> (\<forall>u. owner = Some u \<longrightarrow> (\<exists>y. det i = Some y \<and> rn_requested_by y = Some u))"

definition sub_inv :: "live \<Rightarrow> subscription \<Rightarrow> bool" where
  "sub_inv w s \<longleftrightarrow> sub_id s < lv_next w \<and> owned_view (detail w) (sub_user s) (map_of (sub_pending s))
     \<and> (\<forall>v. lv_views w (sub_id s) = Some v \<longrightarrow> owned_view (detail w) (sub_user s) v
          \<and> (lv_link w = Up \<longrightarrow> sub_error s = None \<longrightarrow> current w (sub_user s) (v ++ map_of (sub_pending s))))
     \<and> (\<forall>xs. lv_reads w = Snapshotting (sub_id s) (Inr xs) \<longrightarrow> owned_view (detail w) (sub_user s) (as_view xs)
          \<and> (lv_link w = Up \<longrightarrow> sub_error s = None \<longrightarrow> current w (sub_user s) (as_view xs)))"

definition inflight_inv :: "live \<Rightarrow> bool" where
  "inflight_inv w \<longleftrightarrow> (\<forall>i owner res. lv_inflight w = Some (i, owner, res) \<longrightarrow>
     lv_reads w = Publishing \<and> owner_ok (detail w) i owner
     \<and> (\<forall>x. res = Inr (Some x) \<longrightarrow> rn_id x = i \<and> (\<exists>y. detail w i = Some y \<and> rn_requested_by y = rn_requested_by x))
     \<and> (\<forall>x. res = Inr x \<longrightarrow> lv_link w = Up \<longrightarrow> x = detail w i \<or> i \<in> payload_ids (lv_queue w)))"

definition channel_inv :: "live \<Rightarrow> bool" where
  "channel_inv w \<longleftrightarrow> (\<forall>p \<in> set (lv_queue w). \<exists>i owner. parse_payload p = Inr (i, owner) \<and> owner_ok (detail w) i owner)
     \<and> (\<forall>(i, owner) \<in> set (lv_batch w). owner_ok (detail w) i owner)
     \<and> (lv_link w = Down \<longrightarrow> lv_batch w = [] \<and> lv_inflight w = None \<and> \<not> fd_available (lv_feed w))
     \<and> (\<forall>t res. lv_reads w = Snapshotting t res \<longrightarrow> t < lv_next w)"

definition live_inv :: "int \<Rightarrow> live \<Rightarrow> bool" where
  "live_inv capacity w \<longleftrightarrow> sys_inv capacity (lv_sys w) \<and> feed_ok (lv_feed w) \<and> channel_inv w \<and> inflight_inv w
     \<and> (\<forall>t \<ge> lv_next w. lv_views w t = None) \<and> (\<forall>s \<in> set (fd_subscriptions (lv_feed w)). sub_inv w s)"

lemma live_invD:
  assumes "live_inv capacity w"
  shows "sys_inv capacity (lv_sys w)" and "feed_ok (lv_feed w)" and "channel_inv w" and "inflight_inv w"
    and "lv_next w \<le> t \<Longrightarrow> lv_views w t = None" and "s \<in> set (fd_subscriptions (lv_feed w)) \<Longrightarrow> sub_inv w s"
  using assms by (auto simp: live_inv_def)

lemma live_ids: "live_inv capacity w \<Longrightarrow> distinct (map r_id (runs_t (lv_db w)))"
  by (simp add: live_inv_def sys_inv_def wf_dbD wf_runsD)

section \<open>The database moves\<close>

definition details_advance :: "(uuid \<Rightarrow> run_detail option) \<Rightarrow> (uuid \<Rightarrow> run_detail option) \<Rightarrow> bool" where
  "details_advance det det' \<longleftrightarrow> (\<forall>i y. det i = Some y \<longrightarrow>
     (\<exists>y'. det' i = Some y' \<and> rn_requested_by y' = rn_requested_by y))"

lemma details_advanceI:
  assumes "wf_runs d" and "wf_runs d'" and "runs_advance d d'"
  shows "details_advance (\<lambda>i. find_detail i d) (\<lambda>i. find_detail i d')"
  unfolding details_advance_def
proof (intro allI impI)
  fix i y assume "find_detail i d = Some y"
  then obtain r where r: "find_run i d = Some r" "y = run_detail_of r (artifacts_of i d)"
    by (auto simp: find_detail_eq [OF wf_runsD(1) [OF assms(1)]])
  with assms(3) obtain r' where "find_run i d' = Some r'" "row_advance r r'" by (auto simp: runs_advance_def)
  with r show "\<exists>y'. find_detail i d' = Some y' \<and> rn_requested_by y' = rn_requested_by y"
    by (auto simp: find_detail_eq [OF wf_runsD(1) [OF assms(2)]] row_advance_def same_request_def)
qed

lemma owned_view_advance: "owned_view det u v \<Longrightarrow> details_advance det det' \<Longrightarrow> owned_view det' u v"
  unfolding owned_view_def details_advance_def by metis

lemma owner_ok_advance: "owner_ok det i owner \<Longrightarrow> details_advance det det' \<Longrightarrow> owner_ok det' i owner"
  unfolding owner_ok_def details_advance_def by metis

text \<open>Views stay current when what is no longer under way has become equal to the database.\<close>

lemma current_mono:
  assumes "current w u v"
    and "\<And>i. i \<in> outstanding w \<Longrightarrow> i \<in> outstanding w' \<or> agrees u (v i) (detail w' i)"
    and "\<And>i. i \<notin> outstanding w' \<Longrightarrow> detail w' i = detail w i"
  shows "current w' u v"
  using assms unfolding current_def by metis

lemma commit_keeps:
  assumes inv: "live_inv capacity w" and step: "sys_step capacity (lv_sys w) s'"
    and w': "w' = w\<lparr>lv_sys := s', lv_queue := (if lv_link w = Up
      then lv_queue w @ run_notes (lv_db w) (sys_db s') else lv_queue w)\<rparr>"
  shows "live_inv capacity w'"
proof -
  note k = sys_step_keeps [OF step live_invD(1) [OF inv]]
  have wf: "wf_runs (lv_db w)" "wf_runs (sys_db s')"
    using k live_invD(1) [OF inv] by (auto simp: sys_inv_def wf_dbD)
  note adv = details_advanceI [OF wf] and quiet = run_notes_complete [OF wf]
  have det: "details_advance (detail w) (detail w')" using adv k by (simp add: w')
  have sent: "\<exists>i owner. parse_payload p = Inr (i, owner) \<and> owner_ok (detail w') i owner"
    if p: "p \<in> set (run_notes (lv_db w) (sys_db s'))" for p
  proof -
    from run_notes_parse [OF p] obtain i owner where io: "parse_payload p = Inr (i, owner)" by blast
    have "owner_ok (detail w') i owner"
    proof (cases owner)
      case (Some u)
      from run_notes_valid [OF p] io Some obtain r where "r \<in> set (runs_t (sys_db s'))" "r_id r = i" "r_requested_by r = Some u"
        by blast
      with find_by_distinct [OF wf_runsD(1) [OF wf(2)]] have "find_run i (sys_db s') = Some r" by metis
      with Some \<open>r_requested_by r = Some u\<close> show ?thesis
        by (simp add: w' owner_ok_def find_detail_eq [OF wf_runsD(1) [OF wf(2)]])
    qed (simp add: owner_ok_def)
    with io show ?thesis by blast
  qed
  have same: "detail w' i = detail w i" if "lv_link w = Up" "i \<notin> payload_ids (lv_queue w')" for i
    using quiet [of i] k that by (simp add: w')
  have out: "i \<in> outstanding w'" if "lv_link w = Up" "i \<in> outstanding w" for i
  proof (rule ccontr)
    assume no: "i \<notin> outstanding w'"
    then have "i \<notin> payload_ids (lv_queue w')" by (simp add: outstanding_def)
    with same [OF that(1) this] that no show False by (auto simp: outstanding_def w' split: if_splits)
  qed
  have cur: "current w' u v" if "lv_link w = Up" "current w u v" for u v
    by (rule current_mono [OF that(2)]) (use out same that in \<open>auto simp: outstanding_def\<close>)
  have "channel_inv w'"
  proof -
    note old = live_invD(3) [OF inv, unfolded channel_inv_def]
    have "\<exists>i owner. parse_payload p = Inr (i, owner) \<and> owner_ok (detail w') i owner" if "p \<in> set (lv_queue w')" for p
    proof (cases "p \<in> set (lv_queue w)")
      case True
      with old owner_ok_advance [OF _ det] show ?thesis by blast
    next
      case False
      with that have "p \<in> set (run_notes (lv_db w) (sys_db s'))" by (auto simp: w' split: if_splits)
      then show ?thesis by (rule sent)
    qed
    moreover have "\<forall>(i, owner) \<in> set (lv_batch w'). owner_ok (detail w') i owner"
      using old owner_ok_advance [OF _ det] by (auto simp: w')
    ultimately show ?thesis using old by (simp add: channel_inv_def) (simp add: w')
  qed
  moreover have "inflight_inv w'"
    unfolding inflight_inv_def
  proof (intro allI impI)
    fix i owner res assume "lv_inflight w' = Some (i, owner, res)"
    then have "lv_inflight w = Some (i, owner, res)" by (simp add: w')
    note old = live_invD(4) [OF inv, unfolded inflight_inv_def, rule_format, OF this]
    have "\<exists>y. detail w' i = Some y \<and> rn_requested_by y = rn_requested_by x" if "res = Inr (Some x)" for x
      using old det that unfolding details_advance_def by metis
    moreover have "x = detail w' i \<or> i \<in> payload_ids (lv_queue w')" if "res = Inr x" "lv_link w' = Up" for x
    proof (rule ccontr)
      assume no: "\<not> ?thesis"
      have up: "lv_link w = Up" using that by (simp add: w')
      with no have "i \<notin> payload_ids (lv_queue w)" by (simp add: w')
      with old that up have "x = detail w i" by blast
      moreover have "detail w' i = detail w i" using no by (intro same [OF up]) blast
      ultimately show False using no by simp
    qed
    ultimately show "lv_reads w' = Publishing \<and> owner_ok (detail w') i owner
     \<and> (\<forall>x. res = Inr (Some x) \<longrightarrow> rn_id x = i \<and> (\<exists>y. detail w' i = Some y \<and> rn_requested_by y = rn_requested_by x))
     \<and> (\<forall>x. res = Inr x \<longrightarrow> lv_link w' = Up \<longrightarrow> x = detail w' i \<or> i \<in> payload_ids (lv_queue w'))"
      using old owner_ok_advance [OF _ det] by (auto simp: w')
  qed
  moreover have "sub_inv w' s" if "s \<in> set (fd_subscriptions (lv_feed w))" for s
    using live_invD(6) [OF inv that] owned_view_advance [OF _ det] cur
    unfolding sub_inv_def by (simp add: w')
  ultimately show ?thesis using live_invD(2,5) [OF inv] k by (simp add: live_inv_def) (simp add: w')
qed

section \<open>The feed moves\<close>

definition foreign :: "live \<Rightarrow> uuid \<Rightarrow> uuid \<Rightarrow> bool" where
  "foreign w u i \<longleftrightarrow> (\<forall>y. detail w i = Some y \<longrightarrow> rn_requested_by y \<noteq> Some u)"

lemma agrees_foreign: "owned_view (detail w) u v \<Longrightarrow> foreign w u i \<Longrightarrow> agrees u (v i) (detail w i)"
  by (cases "v i") (auto simp: owned_view_def foreign_def agrees_def)

lemma owned_view_add: "owned_view det u v \<Longrightarrow> owned_view det u v' \<Longrightarrow> owned_view det u (v ++ v')"
  by (auto simp: owned_view_def map_add_Some_iff)

lemma owned_view_empty [simp]: "owned_view det u Map.empty"
  by (simp add: owned_view_def)

text \<open>
  A step that leaves a subscription alone or fails it, and drops only changes of other users'
  runs from the channel.
\<close>

lemma sub_inv_step:
  assumes inv: "sub_inv w s" and ids: "sub_id s' = sub_id s" "sub_user s' = sub_user s"
    and healthy: "sub_error s' = None \<Longrightarrow> sub_error s = None \<and> sub_pending s' = sub_pending s"
    and pend: "sub_pending s' = sub_pending s \<or> sub_pending s' = []"
    and same: "lv_sys w' = lv_sys w" "lv_next w \<le> lv_next w'" "lv_views w' (sub_id s) = lv_views w (sub_id s)"
    and link: "sub_error s' = None \<Longrightarrow> lv_link w' = Up \<Longrightarrow> lv_link w = Up"
    and reads: "\<And>xs. lv_reads w' = Snapshotting (sub_id s) (Inr xs) \<Longrightarrow> lv_reads w = Snapshotting (sub_id s) (Inr xs)"
    and out: "\<And>i. sub_error s' = None \<Longrightarrow> lv_link w' = Up \<Longrightarrow> i \<in> outstanding w \<Longrightarrow> i \<notin> outstanding w' \<Longrightarrow>
      foreign w (sub_user s) i"
  shows "sub_inv w' s'"
proof -
  note old = inv [unfolded sub_inv_def]
  have cur: "current w' (sub_user s) v"
    if "current w (sub_user s) v" "owned_view (detail w) (sub_user s) v" "sub_error s' = None" "lv_link w' = Up" for v
  proof (rule current_mono [OF that(1)])
    show "i \<in> outstanding w' \<or> agrees (sub_user s) (v i) (detail w' i)" if "i \<in> outstanding w" for i
      using out that \<open>sub_error s' = None\<close> \<open>lv_link w' = Up\<close> agrees_foreign [OF \<open>owned_view (detail w) (sub_user s) v\<close>] same(1)
      by (cases "i \<in> outstanding w'") simp_all
  qed (simp add: same)
  have p: "owned_view (detail w) (sub_user s) (map_of (sub_pending s'))" using old pend by auto
  have j: "owned_view (detail w) (sub_user s) v
      \<and> (lv_link w' = Up \<longrightarrow> sub_error s' = None \<longrightarrow> current w' (sub_user s) (v ++ map_of (sub_pending s')))"
    if v: "lv_views w (sub_id s) = Some v" for v
  proof -
    from old v have o: "owned_view (detail w) (sub_user s) v" by blast
    have "current w' (sub_user s) (v ++ map_of (sub_pending s'))" if h: "lv_link w' = Up" "sub_error s' = None"
      by (rule cur [OF _ owned_view_add [OF o p] h(2,1)]) (use old v h healthy link in auto)
    with o show ?thesis by blast
  qed
  have k: "owned_view (detail w) (sub_user s) (as_view xs)
      \<and> (lv_link w' = Up \<longrightarrow> sub_error s' = None \<longrightarrow> current w' (sub_user s) (as_view xs))"
    if "lv_reads w' = Snapshotting (sub_id s) (Inr xs)" for xs
    using old reads [OF that] cur healthy link by blast
  have n: "sub_id s < lv_next w'" using old same(2) by simp
  show ?thesis
    unfolding sub_inv_def ids same(1,3)
    by (intro conjI n p allI impI) (use j k in blast)+
qed

definition kept :: "live \<Rightarrow> live \<Rightarrow> subscription \<Rightarrow> subscription \<Rightarrow> bool" where
  "kept w w' s s' \<longleftrightarrow> sub_id s' = sub_id s \<and> sub_user s' = sub_user s
     \<and> (sub_pending s' = sub_pending s \<or> sub_pending s' = [])
     \<and> (sub_error s' = None \<longrightarrow> sub_error s = None \<and> sub_pending s' = sub_pending s
          \<and> (lv_link w' = Up \<longrightarrow> lv_link w = Up \<and> (\<forall>i. i \<in> outstanding w \<longrightarrow> i \<in> outstanding w' \<or> foreign w (sub_user s) i)))"

lemma kept_sub_inv:
  assumes k: "kept w w' s s'" and inv: "sub_inv w s"
    and same: "lv_sys w' = lv_sys w" "lv_next w \<le> lv_next w'" "lv_views w' (sub_id s) = lv_views w (sub_id s)"
    and reads: "\<And>t xs. lv_reads w' = Snapshotting t (Inr xs) \<Longrightarrow> lv_reads w = Snapshotting t (Inr xs)"
  shows "sub_inv w' s'"
proof -
  from k have ids: "sub_id s' = sub_id s" "sub_user s' = sub_user s"
    and p: "sub_pending s' = sub_pending s \<or> sub_pending s' = []" by (simp_all add: kept_def)
  show ?thesis
    by (rule sub_inv_step [OF inv ids _ p same]) (use k reads in \<open>simp_all add: kept_def, blast\<close>)
qed

lemma live_inv_feed:
  assumes inv: "live_inv capacity w"
    and same: "lv_sys w' = lv_sys w" "lv_next w' = lv_next w" "lv_views w' = lv_views w"
    and feed: "feed_ok (lv_feed w')" and chan: "channel_inv w'" and fly: "inflight_inv w'"
    and subs: "\<And>s'. s' \<in> set (fd_subscriptions (lv_feed w')) \<Longrightarrow> \<exists>s \<in> set (fd_subscriptions (lv_feed w)). kept w w' s s'"
    and reads: "\<And>t xs. lv_reads w' = Snapshotting t (Inr xs) \<Longrightarrow> lv_reads w = Snapshotting t (Inr xs)"
  shows "live_inv capacity w'"
proof -
  have "sub_inv w' s'" if s': "s' \<in> set (fd_subscriptions (lv_feed w'))" for s'
  proof -
    from subs [OF s'] obtain s where s: "s \<in> set (fd_subscriptions (lv_feed w))" "kept w w' s s'" by blast
    show ?thesis
      by (rule kept_sub_inv [OF s(2) live_invD(6) [OF inv s(1)] same(1) _ _ reads]) (simp_all add: same)
  qed
  with inv same feed chan fly show ?thesis by (simp add: live_inv_def)
qed

lemma live_inv_map:
  assumes inv: "live_inv capacity w"
    and same: "lv_sys w' = lv_sys w" "lv_next w' = lv_next w" "lv_views w' = lv_views w"
    and feed: "feed_ok (lv_feed w')" and chan: "channel_inv w'" and fly: "inflight_inv w'"
    and subs: "fd_subscriptions (lv_feed w') = map g (fd_subscriptions (lv_feed w))"
    and keep: "\<And>s. s \<in> set (fd_subscriptions (lv_feed w)) \<Longrightarrow> kept w w' s (g s)"
    and reads: "\<And>t xs. lv_reads w' = Snapshotting t (Inr xs) \<Longrightarrow> lv_reads w = Snapshotting t (Inr xs)"
  shows "live_inv capacity w'"
proof (rule live_inv_feed [OF inv same feed chan fly _ reads])
  fix s' assume "s' \<in> set (fd_subscriptions (lv_feed w'))"
  then have "s' \<in> g ` set (fd_subscriptions (lv_feed w))" by (simp add: subs)
  then show "\<exists>s \<in> set (fd_subscriptions (lv_feed w)). kept w w' s s'" using keep by blast
qed

lemma fail_sub_shape:
  "sub_error (fail_sub c s) = None \<longleftrightarrow> False" "sub_pending (fail_sub c s) = (if sub_error s = None then [] else sub_pending s)"
  by (simp_all add: fail_sub_def wake_def)

lemma not_down_healthy:
  assumes "feed_ok f" and "\<not> fd_available f" and "s \<in> set (fd_subscriptions f)" shows "sub_error s \<noteq> None"
  using assms by (auto simp: feed_ok_def list_all_iff)

lemma feed_fields [simp]:
  "fd_available (resync owner f) = fd_available f" "fd_available (deliver run f) = fd_available f"
  "fd_available (feed_down f) = False" "fd_available (unsubscribe t f) = fd_available f"
  "fd_available (on_sub t g f) = fd_available f"
  "fd_subscriptions (feed_down f) = map (fail_sub ''unavailable'') (fd_subscriptions f)"
  by (simp_all add: resync_def deliver_def feed_down_def unsubscribe_def on_sub_def)

lemma keptI_same: "lv_link w' = lv_link w \<Longrightarrow> outstanding w \<subseteq> outstanding w' \<Longrightarrow> kept w w' s s"
  by (auto simp: kept_def)

lemma keptI_bex:
  assumes "s' \<in> set subs" and "lv_link w' = lv_link w" and "outstanding w \<subseteq> outstanding w'"
  shows "\<exists>s \<in> set subs. kept w w' s s'"
  using assms keptI_same by blast

lemma keptI_failed: "sub_error s \<noteq> None \<Longrightarrow> kept w w' s s"
  by (auto simp: kept_def)

lemma kept_fail: "kept w w' s (fail_sub c s)"
  by (simp add: kept_def fail_sub_shape)

lemma owner_ok_foreign: "owner_ok (detail w) i (Some u) \<Longrightarrow> u \<noteq> u' \<Longrightarrow> foreign w u' i"
  by (auto simp: owner_ok_def foreign_def)

lemma channel_keeps:
  assumes inv: "live_inv capacity w"
  shows "lv_link w = Up \<Longrightarrow> live_inv capacity (w\<lparr>lv_link := Broken\<rparr>)"
    and "lv_link w = Down \<Longrightarrow> live_inv capacity (w\<lparr>lv_link := Up, lv_queue := []\<rparr>)"
    and "lv_link w \<noteq> Down \<Longrightarrow> live_inv capacity (w\<lparr>lv_feed := feed_up (lv_feed w)\<rparr>)"
    and "lv_batch w = [] \<Longrightarrow> lv_inflight w = None \<Longrightarrow> lv_reads w \<noteq> Publishing \<Longrightarrow>
      live_inv capacity (w\<lparr>lv_link := Down, lv_queue := [], lv_feed := feed_down (lv_feed w)\<rparr>)"
proof -
  note ok = live_invD(2) [OF inv] and chan = live_invD(3) [OF inv, unfolded channel_inv_def]
    and fly = live_invD(4) [OF inv, unfolded inflight_inv_def]
  show "live_inv capacity (w\<lparr>lv_link := Broken\<rparr>)" if "lv_link w = Up"
    by (rule live_inv_feed [OF inv])
      (use ok chan fly that in \<open>auto simp: channel_inv_def inflight_inv_def kept_def\<close>)
  show "live_inv capacity (w\<lparr>lv_link := Up, lv_queue := []\<rparr>)" if down: "lv_link w = Down"
  proof (rule live_inv_feed [OF inv])
    fix s' assume "s' \<in> set (fd_subscriptions (lv_feed (w\<lparr>lv_link := Up, lv_queue := []\<rparr>)))"
    with not_down_healthy [OF ok] chan down
    show "\<exists>s \<in> set (fd_subscriptions (lv_feed w)). kept w (w\<lparr>lv_link := Up, lv_queue := []\<rparr>) s s'"
      by (intro bexI [of _ s'] keptI_failed) auto
  qed (use ok chan down in \<open>auto simp: channel_inv_def inflight_inv_def\<close>)
  show "live_inv capacity (w\<lparr>lv_feed := feed_up (lv_feed w)\<rparr>)" if "lv_link w \<noteq> Down"
  proof (rule live_inv_feed [OF inv])
    let ?w = "w\<lparr>lv_feed := feed_up (lv_feed w)\<rparr>"
    show "\<exists>s \<in> set (fd_subscriptions (lv_feed w)). kept w ?w s s'"
      if "s' \<in> set (fd_subscriptions (lv_feed ?w))" for s'
      by (rule keptI_bex) (use that in \<open>simp_all add: feed_up_def outstanding_def\<close>)
  qed (use ok chan fly that in \<open>auto simp: channel_inv_def inflight_inv_def feed_ok_up\<close>)
  show "live_inv capacity (w\<lparr>lv_link := Down, lv_queue := [], lv_feed := feed_down (lv_feed w)\<rparr>)"
    if "lv_batch w = []" "lv_inflight w = None" "lv_reads w \<noteq> Publishing"
    by (rule live_inv_feed [OF inv])
      (use ok chan that in \<open>auto simp: channel_inv_def inflight_inv_def feed_ok_down intro: kept_fail\<close>)
qed

lemma take_keeps:
  assumes inv: "live_inv capacity w" and idle: "lv_link w \<noteq> Down" "lv_batch w = []" "lv_inflight w = None"
  shows "live_inv capacity (w\<lparr>lv_batch := collect_changes (take n (lv_queue w)), lv_queue := drop n (lv_queue w)\<rparr>)"
    (is "live_inv capacity ?w")
proof (rule live_inv_feed [OF inv])
  note chan = live_invD(3) [OF inv, unfolded channel_inv_def]
  have "owner_ok (detail w) i owner" if "(i, owner) \<in> set (collect_changes (take n (lv_queue w)))" for i owner
  proof (cases owner)
    case (Some u)
    with collect_changes_owner that obtain p where "p \<in> set (take n (lv_queue w))" "parse_payload p = Inr (i, Some u)" by blast
    with chan Some show ?thesis by (force dest: in_set_takeD)
  qed (simp add: owner_ok_def)
  then show "channel_inv ?w" using chan idle by (auto simp: channel_inv_def dest: in_set_dropD)
  have "payload_ids (lv_queue w) = payload_ids (take n (lv_queue w)) \<union> payload_ids (drop n (lv_queue w))"
    by (metis append_take_drop_id payload_ids_simps(2))
  then have out: "outstanding w \<subseteq> outstanding ?w" using idle by (auto simp: outstanding_def collect_changes_keys)
  show "\<exists>s \<in> set (fd_subscriptions (lv_feed w)). kept w ?w s s'" if "s' \<in> set (fd_subscriptions (lv_feed ?w))" for s'
    by (rule keptI_bex [OF _ _ out]) (use that in simp_all)
qed (use live_invD(2) [OF inv] idle in \<open>simp_all add: inflight_inv_def\<close>)

text \<open>The steps of \<open>publish\<close> before the read.\<close>

lemma publish_keeps:
  assumes inv: "live_inv capacity w" and pub: "lv_reads w = Publishing" "lv_inflight w = None"
    and batch: "lv_batch w = (i, owner) # changes"
  shows "publish_action_of (lv_failed w) owner (lv_feed w) = Stop \<Longrightarrow> live_inv capacity (w\<lparr>lv_batch := []\<rparr>)"
    and "publish_action_of (lv_failed w) owner (lv_feed w) = Skip \<Longrightarrow> live_inv capacity (w\<lparr>lv_batch := changes\<rparr>)"
    and "live_inv capacity (w\<lparr>lv_batch := changes, lv_feed := resync owner (lv_feed w)\<rparr>)"
    and "res = Inr (detail w i) \<or> res = Inl e \<Longrightarrow>
      live_inv capacity (w\<lparr>lv_batch := changes, lv_inflight := Some (i, owner, res)\<rparr>)"
proof -
  note ok = live_invD(2) [OF inv] and chan = live_invD(3) [OF inv, unfolded channel_inv_def]
  from chan batch have own: "owner_ok (detail w) i owner" by simp
  have out: "outstanding w \<subseteq> insert i (outstanding (w\<lparr>lv_batch := changes\<rparr>))"
    using batch by (auto simp: outstanding_def)
  show "live_inv capacity (w\<lparr>lv_batch := []\<rparr>)" if "publish_action_of (lv_failed w) owner (lv_feed w) = Stop"
  proof (rule live_inv_feed [OF inv])
    from that have "sub_error s \<noteq> None" if "s \<in> set (fd_subscriptions (lv_feed w))" for s
      using that by (auto simp: publish_action_of_def watched_def filter_empty_conv split: if_splits)
    then show "\<exists>s \<in> set (fd_subscriptions (lv_feed w)). kept w (w\<lparr>lv_batch := []\<rparr>) s s'"
      if "s' \<in> set (fd_subscriptions (lv_feed (w\<lparr>lv_batch := []\<rparr>)))" for s'
      using that by (intro bexI [of _ s'] keptI_failed) simp_all
  qed (use ok chan pub in \<open>auto simp: channel_inv_def inflight_inv_def\<close>)
  show "live_inv capacity (w\<lparr>lv_batch := changes\<rparr>)" if skip: "publish_action_of (lv_failed w) owner (lv_feed w) = Skip"
  proof (rule live_inv_feed [OF inv])
    fix s' assume s': "s' \<in> set (fd_subscriptions (lv_feed (w\<lparr>lv_batch := changes\<rparr>)))"
    have "foreign w (sub_user s') i" if "sub_error s' = None"
    proof -
      from skip obtain u where u: "owner = Some u" "u \<notin> set (watched (lv_feed w))"
        by (auto simp: publish_action_of_def split: if_splits)
      with s' that have "u \<noteq> sub_user s'" by (auto simp: watched_def)
      with own u(1) show ?thesis by (auto intro: owner_ok_foreign)
    qed
    with out have "kept w (w\<lparr>lv_batch := changes\<rparr>) s' s'" by (auto simp: kept_def)
    with s' show "\<exists>s \<in> set (fd_subscriptions (lv_feed w)). kept w (w\<lparr>lv_batch := changes\<rparr>) s s'" by auto
  qed (use ok chan pub batch in \<open>auto simp: channel_inv_def inflight_inv_def\<close>)
  let ?r = "w\<lparr>lv_batch := changes, lv_feed := resync owner (lv_feed w)\<rparr>"
  have out_r: "outstanding ?r = outstanding (w\<lparr>lv_batch := changes\<rparr>)" by (simp add: outstanding_def)
  let ?g = "\<lambda>s. if owner = None \<or> owner = Some (sub_user s) then fail_sub ''resync_required'' s else s"
  show "live_inv capacity ?r"
  proof (rule live_inv_map [OF inv, where g = ?g])
    show "fd_subscriptions (lv_feed ?r) = map ?g (fd_subscriptions (lv_feed w))" by (simp add: resync_def)
    show "kept w ?r s (?g s)" for s
    proof (cases "owner = None \<or> owner = Some (sub_user s)")
      case False
      then have "foreign w (sub_user s) i" using own by (auto intro: owner_ok_foreign)
      with False out out_r show ?thesis by (auto simp: kept_def)
    qed (simp add: kept_fail)
  qed (use ok chan pub batch in \<open>auto simp: channel_inv_def inflight_inv_def feed_ok_resync\<close>)
  show "live_inv capacity (w\<lparr>lv_batch := changes, lv_inflight := Some (i, owner, res)\<rparr>)"
    if res: "res = Inr (detail w i) \<or> res = Inl e"
  proof (rule live_inv_feed [OF inv])
    let ?w = "w\<lparr>lv_batch := changes, lv_inflight := Some (i, owner, res)\<rparr>"
    have out: "outstanding w \<subseteq> outstanding ?w" using batch pub res by (auto simp: outstanding_def)
    show "\<exists>s \<in> set (fd_subscriptions (lv_feed w)). kept w ?w s s'"
      if "s' \<in> set (fd_subscriptions (lv_feed ?w))" for s' by (rule keptI_bex [OF _ _ out]) (use that in simp_all)
    from sql_feed.lookup_id [OF live_ids [OF inv]] own res pub show "inflight_inv ?w" by (auto simp: inflight_inv_def)
  qed (use ok chan pub batch in \<open>auto simp: channel_inv_def\<close>)
qed

text \<open>The delivery of what was read.\<close>

lemma deliver_sub_inv:
  assumes inv: "live_inv capacity w" and fly: "lv_inflight w = Some (i, owner, Inr (Some x))"
    and s: "s \<in> set (fd_subscriptions (lv_feed w))"
    and w': "w' = w\<lparr>lv_inflight := None, lv_failed := b, lv_feed := f\<rparr>"
  shows "sub_inv w' (deliver_to limit x s)"
proof -
  note fl = live_invD(4) [OF inv, unfolded inflight_inv_def, rule_format, OF fly]
  then obtain y where y: "detail w i = Some y" "rn_requested_by y = rn_requested_by x" and id: "rn_id x = i" by blast
  have out: "j \<in> outstanding w'" if "j \<in> outstanding w" "j \<noteq> i" for j
    using that fly by (auto simp: outstanding_def w')
  note keep = kept_sub_inv [OF _ live_invD(6) [OF inv s], of w']
  show ?thesis
  proof (cases "sub_error s \<noteq> None \<or> Some (sub_user s) \<noteq> rn_requested_by x")
    case True
    then have "sub_error s \<noteq> None \<or> foreign w (sub_user s) i" using y by (auto simp: foreign_def)
    with out have "kept w w' s s" by (auto simp: kept_def w')
    with True keep show ?thesis by (simp add: deliver_to_def w')
  next
    case mine: False
    let ?p = "AList.update i x (sub_pending s)"
    show ?thesis
    proof (cases "rn_id x \<notin> fst ` set (sub_pending s) \<and> int (length (sub_pending s)) \<ge> limit")
      case True
      with mine keep [OF kept_fail] show ?thesis by (simp add: deliver_to_def w')
    next
      case False
      have "deliver_to limit x s =
          (if sub_pending s = [] then wake (s\<lparr>sub_pending := ?p\<rparr>) else s\<lparr>sub_pending := ?p\<rparr>)"
        unfolding deliver_to_def Let_def if_not_P [OF mine] using False unfolding id by (simp only: if_False)
      then have fields: "sub_pending (deliver_to limit x s) = ?p" "sub_error (deliver_to limit x s) = sub_error s"
        by (simp_all add: wake_def)
      note old = live_invD(6) [OF inv s, unfolded sub_inv_def]
      have mp: "map_of ?p = (map_of (sub_pending s))(i \<mapsto> x)" by (simp add: update_conv')
      have "owned_view (detail w) (sub_user s) (map_of ?p)"
        using old mine y id by (auto simp: owned_view_def mp)
      moreover have "current w' (sub_user s) (v ++ map_of ?p)"
        if "lv_link w = Up" "sub_error s = None" "lv_views w (sub_id s) = Some v" for v
        unfolding current_def
      proof
        fix j
        have cur: "current w (sub_user s) (v ++ map_of (sub_pending s))" using old that by blast
        show "j \<in> outstanding w' \<or> agrees (sub_user s) ((v ++ map_of ?p) j) (detail w' j)"
        proof (cases "j = i")
          case True
          with fl that(1) show ?thesis by (auto simp: mp agrees_def outstanding_def w')
        next
          case False
          then have "(v ++ map_of ?p) j = (v ++ map_of (sub_pending s)) j" by (simp add: mp map_add_def)
          with False cur out show ?thesis by (auto simp: current_def w')
        qed
      qed
      ultimately show ?thesis
        using old fl unfolding sub_inv_def fields sub_id_keep by (simp add: w')
    qed
  qed
qed

lemma found_keeps:
  assumes inv: "live_inv capacity w" and fly: "lv_inflight w = Some (i, owner, res)"
    and found: "publish_found owner res (lv_failed w) (lv_feed w) = (b, f')"
  shows "live_inv capacity (w\<lparr>lv_inflight := None, lv_failed := b, lv_feed := f'\<rparr>)" (is "live_inv capacity ?w")
proof -
  note fl = live_invD(4) [OF inv, unfolded inflight_inv_def, rule_format, OF fly]
    and chan = live_invD(3) [OF inv, unfolded channel_inv_def]
  have feed: "feed_ok (lv_feed ?w)" using feed_ok_found [OF live_invD(2) [OF inv] found] by simp
  have av: "fd_available f' = fd_available (lv_feed w)"
    using found by (auto simp: publish_found_def split: sum.splits option.splits if_splits)
  have base: "channel_inv ?w" "inflight_inv ?w" using chan av by (auto simp: channel_inv_def inflight_inv_def)
  have out: "j \<in> outstanding ?w" if "j \<in> outstanding w" "j \<noteq> i" for j using that fly by (auto simp: outstanding_def)
  have quiet: "live_inv capacity ?w"
    if f': "f' = lv_feed w" and gone: "\<And>u. lv_link w = Up \<Longrightarrow> i \<notin> payload_ids (lv_queue w) \<Longrightarrow> foreign w u i"
  proof (rule live_inv_feed [OF inv _ _ _ feed base])
    have "kept w ?w s s" for s
      using out gone by (auto simp: kept_def) (auto simp: outstanding_def)
    then show "\<exists>s \<in> set (fd_subscriptions (lv_feed w)). kept w ?w s s'" if "s' \<in> set (fd_subscriptions (lv_feed ?w))" for s'
      using that f' by auto
  qed simp_all
  show ?thesis
  proof (cases res)
    case (Inl e)
    let ?g = "\<lambda>s. if owner = None \<or> owner = Some (sub_user s) then fail_sub ''resync_required'' s else s"
    from found Inl have f': "f' = resync owner (lv_feed w)" by (simp add: publish_found_def)
    have "kept w ?w s (?g s)" for s
    proof (cases "owner = None \<or> owner = Some (sub_user s)")
      case False
      then have "foreign w (sub_user s) i" using fl by (auto intro: owner_ok_foreign)
      with False out show ?thesis by (auto simp: kept_def)
    qed (simp add: kept_fail)
    then show ?thesis
      by (intro live_inv_map [OF inv _ _ _ feed base, where g = ?g]) (simp_all add: f' resync_def)
  next
    case (Inr found_run)
    show ?thesis
    proof (cases found_run)
      case None
      with found Inr have "f' = lv_feed w" by (simp add: publish_found_def)
      then show ?thesis
      proof (rule quiet)
        show "foreign w u i" if "lv_link w = Up" "i \<notin> payload_ids (lv_queue w)" for u
          using fl Inr None that by (auto simp: foreign_def)
      qed
    next
      case (Some x)
      with fl Inr obtain y where y: "detail w i = Some y" "rn_requested_by y = rn_requested_by x" by blast
      show ?thesis
      proof (cases "rn_requested_by x")
        case None
        with found Inr Some have "f' = lv_feed w" by (simp add: publish_found_def)
        then show ?thesis by (rule quiet) (use y None in \<open>simp add: foreign_def\<close>)
      next
        case (Some u)
        with found Inr \<open>found_run = Some x\<close> have "f' = deliver x (lv_feed w)" by (simp add: publish_found_def)
        then have "\<forall>s \<in> set (fd_subscriptions (lv_feed ?w)). sub_inv ?w s"
          using deliver_sub_inv [OF inv, of i owner x _ ?w] fly Inr \<open>found_run = Some x\<close>
          by (auto simp: deliver_def)
        with inv feed base show ?thesis by (simp add: live_inv_def)
      qed
    qed
  qed
qed

text \<open>The lock and the streams.\<close>

lemma lock_keeps:
  assumes inv: "live_inv capacity w"
  shows "lv_reads w = Free \<Longrightarrow> live_inv capacity (w\<lparr>lv_reads := Publishing, lv_failed := False\<rparr>)"
    and "lv_inflight w = None \<Longrightarrow> live_inv capacity (w\<lparr>lv_reads := Free\<rparr>)"
    and "lv_reads w = Snapshotting t res \<Longrightarrow> live_inv capacity (w\<lparr>lv_reads := Free\<rparr>)"
    and "live_inv capacity (w\<lparr>lv_feed := unsubscribe t (lv_feed w)\<rparr>)"
    and "live_inv capacity (w\<lparr>lv_feed := on_sub t run_callback (lv_feed w)\<rparr>)"
proof -
  note ok = live_invD(2) [OF inv] and chan = live_invD(3) [OF inv, unfolded channel_inv_def]
    and fly = live_invD(4) [OF inv, unfolded inflight_inv_def]
  have free: "live_inv capacity (w\<lparr>lv_reads := Free\<rparr>)" if none: "lv_inflight w = None"
    by (rule live_inv_map [OF inv, where g = "\<lambda>s. s"])
      (use ok chan none in \<open>auto simp: channel_inv_def inflight_inv_def outstanding_def intro!: keptI_same\<close>)
  then show "lv_inflight w = None \<Longrightarrow> live_inv capacity (w\<lparr>lv_reads := Free\<rparr>)" .
  show "live_inv capacity (w\<lparr>lv_reads := Free\<rparr>)" if "lv_reads w = Snapshotting t res"
  proof (rule free)
    show "lv_inflight w = None" using fly that by (cases "lv_inflight w") auto
  qed
  show "live_inv capacity (w\<lparr>lv_reads := Publishing, lv_failed := False\<rparr>)" if "lv_reads w = Free"
    by (rule live_inv_map [OF inv, where g = "\<lambda>s. s"])
      (use ok chan fly that in \<open>auto simp: channel_inv_def inflight_inv_def outstanding_def intro!: keptI_same\<close>)
  show "live_inv capacity (w\<lparr>lv_feed := unsubscribe t (lv_feed w)\<rparr>)" (is "live_inv capacity ?w")
  proof (rule live_inv_feed [OF inv])
    show "\<exists>s \<in> set (fd_subscriptions (lv_feed w)). kept w ?w s s'" if "s' \<in> set (fd_subscriptions (lv_feed ?w))" for s'
      by (rule keptI_bex) (use that in \<open>simp_all add: unsubscribe_def outstanding_def\<close>)
  qed (use ok chan fly in \<open>auto simp: channel_inv_def inflight_inv_def feed_ok_unsubscribe\<close>)
  show "live_inv capacity (w\<lparr>lv_feed := on_sub t run_callback (lv_feed w)\<rparr>)" (is "live_inv capacity ?w")
  proof (rule live_inv_map [OF inv, where g = "\<lambda>s. if sub_id s = t then run_callback s else s"])
    show "kept w ?w s (if sub_id s = t then run_callback s else s)" for s
      by (auto simp: kept_def run_callback_def outstanding_def)
    show "fd_subscriptions (lv_feed ?w) = map (\<lambda>s. if sub_id s = t then run_callback s else s) (fd_subscriptions (lv_feed w))"
      by (simp add: on_sub_def)
  qed (use ok chan fly in \<open>auto simp: channel_inv_def inflight_inv_def feed_ok_callback\<close>)
qed

lemma subscribe_keeps:
  assumes inv: "live_inv capacity w" and sub: "subscribe (lv_next w) u (lv_feed w) = Inr f'"
  shows "live_inv capacity (w\<lparr>lv_feed := f', lv_next := Suc (lv_next w)\<rparr>)" (is "live_inv capacity ?w")
proof -
  note chan = live_invD(3) [OF inv, unfolded channel_inv_def] and fly = live_invD(4) [OF inv, unfolded inflight_inv_def]
  from sub have f': "fd_subscriptions f' = fd_subscriptions (lv_feed w) @ [new_subscription (lv_next w) u]"
    "fd_available f' = fd_available (lv_feed w)" "fd_available (lv_feed w)"
    by (auto simp: subscribe_def split: if_splits)
  have fresh: "lv_next w \<notin> sub_id ` set (fd_subscriptions (lv_feed w))"
    using live_invD(6) [OF inv] by (force simp: sub_inv_def)
  have old: "sub_inv ?w s" if "s \<in> set (fd_subscriptions (lv_feed w))" for s
    by (rule kept_sub_inv [OF keptI_same live_invD(6) [OF inv that]]) (simp_all add: outstanding_def)
  have "lv_reads w \<noteq> Snapshotting (lv_next w) (Inr xs)" for xs using chan by blast
  then have "sub_inv ?w (new_subscription (lv_next w) u)"
    using live_invD(5) [OF inv, of "lv_next w"] by (simp add: sub_inv_def new_subscription_def)
  with old f' have "\<forall>s \<in> set (fd_subscriptions (lv_feed ?w)). sub_inv ?w s" by simp
  moreover have "channel_inv ?w" "inflight_inv ?w" using chan fly f' by (auto simp: channel_inv_def inflight_inv_def)
  moreover have "feed_ok (lv_feed ?w)" using feed_ok_subscribe [OF live_invD(2) [OF inv] sub fresh] by simp
  ultimately show ?thesis using inv by (simp add: live_inv_def)
qed

lemma snapshot_read_keeps:
  assumes inv: "live_inv capacity w" and free: "lv_reads w = Free" and t: "find_sub t (lv_feed w) = Some s"
    and res: "res = feed_snapshot (sub_user s) (lv_db w) \<or> res = Inl e"
  shows "live_inv capacity (w\<lparr>lv_reads := Snapshotting t res\<rparr>)" (is "live_inv capacity ?w")
proof -
  note ok = live_invD(2) [OF inv] and chan = live_invD(3) [OF inv, unfolded channel_inv_def]
    and fly = live_invD(4) [OF inv, unfolded inflight_inv_def]
  from t have s: "s \<in> set (fd_subscriptions (lv_feed w))" "sub_id s = t" by (auto simp: find_sub_def dest: find_by_Some)
  have "sub_inv ?w s'" if s': "s' \<in> set (fd_subscriptions (lv_feed w))" for s'
  proof -
    have "owned_view (detail w) (sub_user s') (as_view xs) \<and> current ?w (sub_user s') (as_view xs)"
      if "sub_id s' = t" "res = Inr xs" for xs
    proof -
      from ok s' s that(1) have "s' = s" by (auto simp: feed_ok_def distinct_map inj_on_def)
      moreover from that(2) res have snap: "feed_snapshot (sub_user s) (lv_db w) = Inr xs" by auto
      ultimately show ?thesis
        using sql_feed.snapshot_owned [OF live_ids [OF inv] snap] sql_feed.snapshot_agrees [OF live_ids [OF inv] snap]
        by (simp add: current_def)
    qed
    with live_invD(6) [OF inv s'] show ?thesis by (simp add: sub_inv_def current_def)
  qed
  moreover have "channel_inv ?w" "inflight_inv ?w"
    using chan fly free live_invD(6) [OF inv s(1)] s(2) by (auto simp: channel_inv_def inflight_inv_def sub_inv_def)
  ultimately show ?thesis using inv by (simp add: live_inv_def)
qed

lemma snapshot_done_keeps:
  assumes inv: "live_inv capacity w" and lock: "lv_reads w = Snapshotting t (Inr xs)"
    and t: "find_sub t (lv_feed w) = Some s" and ready: "snapshot_ready s (lv_feed w) = Inr f'"
  shows "live_inv capacity (w\<lparr>lv_reads := Free, lv_feed := f', lv_views := (lv_views w)(t := Some (as_view xs))\<rparr>)"
    (is "live_inv capacity ?w")
proof -
  note chan = live_invD(3) [OF inv, unfolded channel_inv_def] and fly = live_invD(4) [OF inv, unfolded inflight_inv_def]
  from t have s: "s \<in> set (fd_subscriptions (lv_feed w))" "sub_id s = t" by (auto simp: find_sub_def dest: find_by_Some)
  from ready s(2) have f': "f' = on_sub t (\<lambda>s. s\<lparr>sub_pending := []\<rparr>) (lv_feed w)"
    by (auto simp: snapshot_ready_def split: if_splits)
  have subs: "fd_subscriptions (lv_feed ?w) = map (\<lambda>s'. if sub_id s' = t then s'\<lparr>sub_pending := []\<rparr> else s')
      (fd_subscriptions (lv_feed w))" by (simp add: f' on_sub_def)
  have "sub_inv ?w (if sub_id s' = t then s'\<lparr>sub_pending := []\<rparr> else s')"
    if "s' \<in> set (fd_subscriptions (lv_feed w))" for s'
    using live_invD(6) [OF inv that] lock by (simp add: sub_inv_def current_def)
  then have "\<forall>s' \<in> set (fd_subscriptions (lv_feed ?w)). sub_inv ?w s'"
    unfolding subs by (simp only: set_map ball_simps) blast
  moreover have "channel_inv ?w" "inflight_inv ?w" using chan fly lock by (auto simp: channel_inv_def inflight_inv_def f')
  moreover have "\<forall>i \<ge> lv_next w. lv_views ?w i = None"
    using live_invD(5) [OF inv] live_invD(6) [OF inv s(1)] s(2) by (auto simp: sub_inv_def)
  ultimately show ?thesis using inv feed_ok_ready [OF live_invD(2) [OF inv] ready] by (simp add: live_inv_def)
qed

lemma drain_keeps:
  assumes inv: "live_inv capacity w" and t: "find_sub t (lv_feed w) = Some s" and v: "lv_views w t = Some v"
    and drain: "drain s (lv_feed w) = ((err, updates), f')"
  shows "live_inv capacity (w\<lparr>lv_feed := f', lv_views := (if err = None
      then (lv_views w)(t := Some (v ++ as_view updates)) else lv_views w)\<rparr>)" (is "live_inv capacity ?w")
proof -
  note chan = live_invD(3) [OF inv, unfolded channel_inv_def] and fly = live_invD(4) [OF inv, unfolded inflight_inv_def]
  from t have s: "s \<in> set (fd_subscriptions (lv_feed w))" "sub_id s = t" by (auto simp: find_sub_def dest: find_by_Some)
  from drain s(2) have f': "f' = on_sub t (\<lambda>s. s\<lparr>sub_changed := False, sub_pending := []\<rparr>) (lv_feed w)"
    and upd: "err = sub_error s" "updates = map snd (sub_pending s)" by (auto simp: drain_def)
  have subs: "fd_subscriptions (lv_feed ?w) = map (\<lambda>s'. if sub_id s' = t
      then s'\<lparr>sub_changed := False, sub_pending := []\<rparr> else s') (fd_subscriptions (lv_feed w))" by (simp add: f' on_sub_def)
  have "\<forall>(i, x) \<in> set (sub_pending s). rn_id x = i"
    using live_invD(2) [OF inv] s(1) by (fastforce simp: feed_ok_def list_all_iff sub_ok_def)
  then have "map (\<lambda>x. (rn_id x, x)) updates = sub_pending s" unfolding upd(2) by (auto intro!: map_idI)
  then have view: "as_view updates = map_of (sub_pending s)" by (simp add: as_view_def)
  have "sub_inv ?w (if sub_id s' = t then s'\<lparr>sub_changed := False, sub_pending := []\<rparr> else s')"
    if s': "s' \<in> set (fd_subscriptions (lv_feed w))" for s'
  proof (cases "sub_id s' = t")
    case True
    with s s' live_invD(2) [OF inv] have "s' = s" by (auto simp: feed_ok_def distinct_map inj_on_def)
    with live_invD(6) [OF inv s'] s(2) v view upd(1) owned_view_add show ?thesis
      by (auto simp: sub_inv_def current_def)
  next
    case False
    with live_invD(6) [OF inv s'] show ?thesis by (simp add: sub_inv_def current_def)
  qed
  then have "\<forall>s' \<in> set (fd_subscriptions (lv_feed ?w)). sub_inv ?w s'"
    unfolding subs by (simp only: set_map ball_simps) blast
  moreover have "channel_inv ?w" "inflight_inv ?w" using chan fly by (auto simp: channel_inv_def inflight_inv_def f')
  moreover have "\<forall>i \<ge> lv_next w. lv_views ?w i = None"
    using live_invD(5) [OF inv] live_invD(6) [OF inv s(1)] s(2) by (auto simp: sub_inv_def)
  ultimately show ?thesis using inv feed_ok_drain [OF live_invD(2) [OF inv] drain] by (simp add: live_inv_def)
qed

section \<open>Reachable states\<close>

lemma live_step_keeps:
  assumes "live_step capacity w w'" and inv: "live_inv capacity w"
  shows "live_inv capacity w'"
  using assms(1)
proof cases
  case (commit_step s')
  with commit_keeps [OF inv] show ?thesis by blast
next
  case (take_step n)
  with take_keeps [OF inv] show ?thesis by blast
next
  case (publish_stop_step i owner changes)
  with publish_keeps(1) [OF inv] show ?thesis by blast
next
  case (publish_skip_step i owner changes)
  with publish_keeps(2) [OF inv] show ?thesis by blast
next
  case (publish_resync_step i owner changes)
  with publish_keeps(3) [OF inv] show ?thesis by blast
next
  case (publish_read_step i owner changes res e)
  with publish_keeps(4) [OF inv] show ?thesis by blast
next
  case (publish_found_step i owner res failed' f')
  with found_keeps [OF inv] show ?thesis by blast
next
  case (subscribe_step u f')
  with subscribe_keeps [OF inv] show ?thesis by blast
next
  case (snapshot_read_step t s res e)
  with snapshot_read_keeps [OF inv] show ?thesis by blast
next
  case (snapshot_done_step t xs s f')
  with snapshot_done_keeps [OF inv] show ?thesis by blast
next
  case (drain_step t s v err updates f')
  with drain_keeps [OF inv] show ?thesis by blast
qed (use channel_keeps [OF inv] lock_keeps [OF inv] in blast)+

lemma live_inv_initial:
  assumes "0 \<le> capacity" shows "live_inv capacity (initial_live (make_feed p t n))"
  using sys_inv_initial [OF assms] feed_ok_make
  by (simp add: live_inv_def initial_live_def channel_inv_def inflight_inv_def) (simp add: make_feed_def)

lemma live_reachable:
  assumes "(live_step capacity)\<^sup>*\<^sup>* (initial_live (make_feed p t n)) w" and "0 \<le> capacity"
  shows "live_inv capacity w"
  using assms(1) by induction (auto intro: live_step_keeps live_inv_initial [OF assms(2)])

definition feed_limits :: "run_feed \<Rightarrow> int \<times> int \<times> int" where
  "feed_limits f = (fd_per_user f, fd_total f, fd_pending_limit f)"

lemma feed_limits_keep [simp]:
  "feed_limits (map_subs g f) = feed_limits f" "feed_limits (feed_up f) = feed_limits f"
  "feed_limits (feed_down f) = feed_limits f" "feed_limits (unsubscribe t f) = feed_limits f"
  "feed_limits (on_sub t g f) = feed_limits f" "feed_limits (resync owner f) = feed_limits f"
  "feed_limits (deliver run f) = feed_limits f"
  by (simp_all add: feed_limits_def feed_up_def feed_down_def unsubscribe_def on_sub_def resync_def deliver_def)

lemma live_step_limits:
  assumes "live_step capacity w w'" shows "feed_limits (lv_feed w') = feed_limits (lv_feed w)"
  using assms
proof cases
  case (publish_found_step i owner res failed' f')
  then show ?thesis by (auto simp: publish_found_def split: sum.splits option.splits if_splits)
next
  case (subscribe_step u f')
  then show ?thesis by (auto simp: subscribe_def feed_limits_def split: if_splits)
next
  case (snapshot_done_step t xs s f')
  then show ?thesis by (auto simp: snapshot_ready_def split: if_splits)
next
  case (drain_step t s v err updates f')
  then show ?thesis by (auto simp: drain_def)
qed simp_all

lemma live_limits:
  assumes "(live_step capacity)\<^sup>*\<^sup>* w w'" shows "feed_limits (lv_feed w') = feed_limits (lv_feed w)"
  using assms by induction (auto dest: live_step_limits)

text \<open>When the channel is quiet, a view is exact on what it shows and shows every unfinished run.\<close>

lemma quiet_view_exact:
  assumes inv: "live_inv capacity w" and s: "s \<in> set (fd_subscriptions (lv_feed w))"
    and ok: "lv_link w = Up" "sub_error s = None" "lv_views w (sub_id s) = Some v" "sub_pending s = []"
    and quiet: "lv_queue w = []" "lv_batch w = []" "lv_inflight w = None"
  shows "v i = Some x \<Longrightarrow> detail w i = Some x"
    and "detail w i = Some x \<Longrightarrow> rn_requested_by x = Some (sub_user s) \<Longrightarrow> rn_status x \<in> set active_statuses \<Longrightarrow> v i = Some x"
proof -
  have "outstanding w = {}" using quiet by (simp add: outstanding_def)
  with live_invD(6) [OF inv s] ok have a: "agrees (sub_user s) (v i) (detail w i)"
    by (simp add: sub_inv_def current_def)
  then show "v i = Some x \<Longrightarrow> detail w i = Some x" by (simp add: agrees_def)
  show "detail w i = Some x \<Longrightarrow> rn_requested_by x = Some (sub_user s) \<Longrightarrow> rn_status x \<in> set active_statuses \<Longrightarrow> v i = Some x"
    using a by (auto simp: agrees_def split: option.splits)
qed

end
