(* ===== verification/Scenario.thy ===== *)
theory Scenario
  imports Live
begin

text \<open>
  One run followed through the system: a model is registered, a run of its only mode is
  submitted, its request is consumed, a slot is claimed, its Job is recorded and its outcome
  stored. The digest stays symbolic; everything else is computed. The scenario gives concrete
  inputs for the properties of the development.
\<close>

section \<open>The catalog entry\<close>

definition demo_image :: string where
  "demo_image = ''registry/flood@sha256:'' @ replicate 64 CHR ''a''"

definition demo_invocation :: invocation where
  "demo_invocation = \<lparr>arguments = [''run''], working_directory = ''/work'', output_directory = ''/out'',
     output_requirements = \<lparr>required_files = [''map.tif'']\<rparr>\<rparr>"

definition demo_execution :: execution_definition where
  "demo_execution = \<lparr>modes = [(''fast'', demo_invocation)]\<rparr>"

definition demo_release :: release_definition where
  "demo_release = \<lparr>rd_model_id = ''flood'', rd_display_name = ''Flood model'', rd_image_digest = demo_image,
     rd_execution_definition = demo_execution\<rparr>"

definition demo_config :: json where
  "demo_config = JObj [(''model_id'', JStr ''flood''), (''display_name'', JStr ''Flood model''),
     (''image_digest'', JStr demo_image), (''execution_definition'', definition_to_dict demo_execution)]"

definition at :: "int \<Rightarrow> uuid \<Rightarrow> stamp" where
  "at t u = \<lparr>st_clock = t, st_txtime = t, st_uuid = u\<rparr>"

definition demo_digest :: string where
  "demo_digest = run_digest ''flood'' demo_image demo_invocation ''fast''"

section \<open>The states\<close>

definition demo_release_row :: release_row where
  "demo_release_row = \<lparr>rel_id = 10, rel_model_id = ''flood'', rel_image_digest = demo_image,
     rel_execution_definition = definition_to_dict demo_execution, rel_created_at = 100\<rparr>"

definition demo_registered :: db where
  "demo_registered = empty_db\<lparr>models_t := [\<lparr>m_id = ''flood'', m_display_name = ''Flood model''\<rparr>],
     releases_t := [demo_release_row]\<rparr>"

definition demo_run :: run_row where
  "demo_run = \<lparr>r_id = 20, r_model_release_id = 10, r_requested_by = None, r_parameters = mode_params ''fast'',
     r_fingerprint = demo_digest, r_status = QUEUED, r_accepted_at = None, r_failure_code = None,
     r_dispatch_started_at = None, r_finished_at = None, r_job_namespace = None, r_job_uid = None,
     r_created_at = 200\<rparr>"

definition demo_submitted :: db where
  "demo_submitted = demo_registered\<lparr>runs_t := [demo_run],
     outbox_t := [\<lparr>ob_id = 30, ob_run_id = 20, ob_event_type = ''run.requested'', ob_created_at = 200,
       ob_published_at = None\<rparr>]\<rparr>"

definition demo_accepted :: db where
  "demo_accepted = demo_submitted\<lparr>runs_t := [demo_run\<lparr>r_accepted_at := Some 300\<rparr>]\<rparr>"

definition demo_running :: db where
  "demo_running = demo_submitted\<lparr>runs_t := [demo_run\<lparr>r_accepted_at := Some 300, r_status := RUNNING,
     r_dispatch_started_at := Some 400, r_job_namespace := Some ''models''\<rparr>]\<rparr>"

definition demo_output :: artifact where
  "demo_output = \<lparr>a_bucket = ''outputs'', a_object_key = ''flood/sha256-'' @ replicate 64 CHR ''a'' @ ''/''
     @ uuid_str 20 @ ''/outputs/map.tif'', a_size_bytes = 5\<rparr>"

definition demo_succeeded :: db where
  "demo_succeeded = demo_running\<lparr>runs_t := [demo_run\<lparr>r_accepted_at := Some 300, r_status := SUCCEEDED,
       r_dispatch_started_at := Some 400, r_job_namespace := Some ''models'', r_job_uid := Some ''uid-1'',
       r_finished_at := Some 500\<rparr>],
     artifacts_t := [artifact_row_of 20 demo_output],
     outbox_t := outbox_t demo_running @ [\<lparr>ob_id = 31, ob_run_id = 20, ob_event_type = ''run.succeeded'',
       ob_created_at = 500, ob_published_at = None\<rparr>]\<rparr>"

lemmas demo_defs = demo_release_def demo_release_row_def demo_registered_def demo_run_def demo_submitted_def
  demo_accepted_def demo_running_def empty_db_def at_def

section \<open>The steps\<close>

lemma demo_definition_wf: "wf_definition demo_execution"
  unfolding wf_definition_def demo_execution_def demo_invocation_def by code_simp

lemma demo_image_ok: "fullmatch digest_pattern demo_image"
  unfolding demo_image_def by code_simp

lemma demo_cut: "cut_at ''@sha256:'' demo_image = Some (''registry/flood'', replicate 64 CHR ''a'')"
    "cut_at ''@sha256:'' (replicate 64 CHR ''a'') = None"
  using cut_at_found [of "CHR ''@''" "''registry/flood''" "''sha256:''" "replicate 64 CHR ''a''"]
    cut_at_absent [of "CHR ''@''" "replicate 64 CHR ''a''" "''sha256:''"]
  by (simp_all add: demo_image_def)

lemma demo_names_ok: "fullmatch key_pattern ''flood''" "py_strip ''flood'' \<noteq> []"
    "py_strip ''Flood model'' \<noteq> []" "py_strip demo_image \<noteq> []"
  unfolding demo_image_def by code_simp+

lemma demo_config_ok: "release_config demo_config = Inr demo_release"
  using demo_image_ok definition_roundtrip [OF demo_definition_wf] demo_names_ok
  by (simp add: demo_config_def demo_release_def field_of_def str_field_def release_fields_def)

lemma demo_register:
  "register_release (register (at 100 10)) demo_config empty_db
   = (Inr \<lparr>mr_id = 10, mr_definition = demo_release\<rparr>, demo_registered)"
  using definition_roundtrip [OF demo_definition_wf]
  by (simp add: register_release_def demo_config_ok register_def transaction_commit register_body_def Let_def
      store_release_def insert_release_def rename_model_def upsert_model_def matching_release_def
      snapshot_def release_of_rows_def find_by_def update_by_def demo_defs)

lemma demo_get_release: "get_release 10 demo_registered = Inr \<lparr>mr_id = 10, mr_definition = demo_release\<rparr>"
  using definition_roundtrip [OF demo_definition_wf]
  by (simp add: get_release_def release_join_def List.map_filter_def find_by_def snapshot_def
      release_of_rows_def demo_defs)

lemma demo_digest_shape: "length demo_digest = 64" "list_all lower_hex demo_digest"
  by (simp_all add: demo_digest_def run_digest_lower_hex)

lemma demo_fingerprint: "fingerprint demo_release (mode_params ''fast'') = Inr demo_digest"
  by (simp add: fingerprint_mode_params demo_release_def demo_execution_def demo_digest_def)

lemma demo_submit_any:
  assumes "\<And>q. q_requested_by q = None \<Longrightarrow> admit limits q demo_registered = Inr ()"
  shows "submit limits (at 200 30) 20 10 (mode_params ''fast'') None demo_registered
   = (Inr \<lparr>q_id = 20, q_model_release_id = 10, q_requested_by = None, q_parameters = mode_params ''fast'',
        q_fingerprint = demo_digest, q_status = QUEUED\<rparr>, demo_submitted)"
proof -
  let ?q = "\<lparr>q_id = 20, q_model_release_id = 10, q_requested_by = None, q_parameters = mode_params ''fast'',
      q_fingerprint = demo_digest, q_status = QUEUED\<rparr>"
  have "prepare demo_execution (mode_params ''fast'') = Inr (mode_params ''fast'')"
    by (simp add: prepare_mode_params demo_execution_def del: prepare.simps)
  then have p: "prepare_run \<lparr>mr_id = 10, mr_definition = demo_release\<rparr> 20 (mode_params ''fast'') None = Inr ?q"
    using demo_fingerprint by (simp add: prepare_run_def demo_release_def del: prepare.simps)
  have "save_requested limits (at 200 30) ?q demo_registered = (Inr (), demo_submitted)"
    unfolding save_requested_Inr using demo_digest_shape assms [of ?q]
    by (simp add: requester_known_def is_object_def) (simp add: demo_defs run_row_of_def outbox_row_of_def)
  then show ?thesis by (simp add: submit_def submit_run_def demo_get_release p)
qed

lemmas demo_submit = demo_submit_any [of None, unfolded admit_def, simplified]

lemma demo_submit_limits:
  "submit (Some \<lparr>per_user = 2, global_total = 3\<rparr>) (at 200 30) 20 10 (mode_params ''fast'') None demo_registered
   = (Inr \<lparr>q_id = 20, q_model_release_id = 10, q_requested_by = None, q_parameters = mode_params ''fast'',
        q_fingerprint = demo_digest, q_status = QUEUED\<rparr>, demo_submitted)"
  by (rule demo_submit_any) (simp add: admit_def check_limits_def owned_active_count_def active_count_def demo_defs)

lemma demo_compatible: "matches_fingerprint demo_release (mode_params ''fast'') demo_digest = Inr True"
  by (simp add: matches_fingerprint_def demo_fingerprint)

lemma demo_load: "load_release_definition demo_submitted demo_release_row = Inr demo_release"
  using definition_roundtrip [OF demo_definition_wf]
  by (simp add: load_release_definition_def release_of_rows_def find_by_def demo_defs)

definition demo_location :: record_location where
  "demo_location = \<lparr>l_topic = ''requests'', l_partition = 0, l_offset = 7\<rparr>"

lemma demo_accept_run:
  "\<exists>a. execute_with_outcome (at 300 31) 20 demo_submitted = (Inr a, demo_accepted) \<and> ac_outcome a = ''accepted''"
proof -
  have run: "find_run 20 demo_submitted = Some demo_run" and rel: "find_release 10 demo_submitted = Some demo_release_row"
    by (simp_all add: find_by_def demo_defs)
  have flds: "r_model_release_id demo_run = 10" "r_accepted_at demo_run = None" "r_status demo_run = QUEUED"
    "r_parameters demo_run = mode_params ''fast''" "r_fingerprint demo_run = demo_digest" "r_id demo_run = 20"
    "r_failure_code demo_run = None"
    by (simp_all add: demo_run_def)
  have upd: "update_run 20 (\<lambda>r. r\<lparr>r_status := QUEUED, r_accepted_at := Some 300, r_failure_code := None\<rparr>) demo_submitted
      = demo_accepted"
    by (simp add: update_run_def update_by_def demo_defs)
  have "find_run 20 demo_accepted = Some (demo_run\<lparr>r_accepted_at := Some 300\<rparr>)"
    by (simp add: find_by_def demo_defs)
  then show ?thesis
    using upd
    by (simp add: execute_with_outcome_def transaction_commit open_acceptance_def run rel flds accept_body_def Let_def
        tx_run_def tx_load_release_def demo_load demo_compatible save_outcome_def update_run_update_run tx_refresh_def
        at_def)
qed

lemma demo_consume: "consume (at 300 31) demo_location (Inl 20) demo_submitted = (Inr ''accepted'', demo_accepted)"
  using demo_accept_run by (auto simp: consume_def consume_request_def)

lemma demo_candidate: "claim_candidate 1 demo_accepted = Some (demo_run\<lparr>r_accepted_at := Some 300\<rparr>)"
  by (simp add: claim_candidate_def running_count_def demo_defs)

section \<open>The states are reachable\<close>

lemma demo_reach_submitted: "(sys_step 1)\<^sup>*\<^sup>* initial_system \<lparr>sys_db = demo_submitted, claiming = None\<rparr>"
proof -
  have "sys_step 1 initial_system \<lparr>sys_db = demo_registered, claiming = None\<rparr>"
    using register_step [of "at 100 10" demo_config initial_system] demo_register by (simp add: initial_system_def)
  moreover have "sys_step 1 \<lparr>sys_db = demo_registered, claiming = None\<rparr> \<lparr>sys_db = demo_submitted, claiming = None\<rparr>"
    using submit_step [of None "at 200 30" 20 10 "mode_params ''fast''" None "\<lparr>sys_db = demo_registered, claiming = None\<rparr>"]
      demo_submit by simp
  ultimately show ?thesis by (meson converse_rtranclp_into_rtranclp rtranclp.rtrancl_refl)
qed

lemma demo_step_accepted:
  "sys_step 1 \<lparr>sys_db = demo_submitted, claiming = None\<rparr> \<lparr>sys_db = demo_accepted, claiming = None\<rparr>"
  using consume_step [of "at 300 31" demo_location "Inl 20" "\<lparr>sys_db = demo_submitted, claiming = None\<rparr>"] demo_consume
  by simp

lemma demo_steps_accepted:
  "(sys_step 1)\<^sup>*\<^sup>* \<lparr>sys_db = demo_submitted, claiming = None\<rparr> \<lparr>sys_db = demo_accepted, claiming = None\<rparr>"
  by (rule r_into_rtranclp) (rule demo_step_accepted)

lemma demo_reach_accepted: "(sys_step 1)\<^sup>*\<^sup>* initial_system \<lparr>sys_db = demo_accepted, claiming = None\<rparr>"
  using demo_reach_submitted demo_step_accepted by (meson rtranclp.rtrancl_into_rtrancl)

lemma demo_wf: "wf_db demo_submitted" "wf_db demo_accepted"
  using sys_reachable [OF demo_reach_submitted] sys_reachable [OF demo_reach_accepted] by (simp_all add: sys_inv_def)

lemma demo_claim:
  "claim_locked (at 400 32) ''models'' (demo_run\<lparr>r_accepted_at := Some 300\<rparr>) demo_accepted = Inr (Some 20, demo_running)"
proof -
  have "find_run (r_id (demo_run\<lparr>r_accepted_at := Some 300\<rparr>)) demo_accepted = Some (demo_run\<lparr>r_accepted_at := Some 300\<rparr>)"
    by (simp add: find_by_def demo_defs)
  from claim_locked_eq [OF demo_wf(2) this, of "at 400 32" "''models''"] show ?thesis
    by (simp add: update_run_def update_by_def start_row_def demo_defs)
qed

lemma demo_reach_running: "(sys_step 1)\<^sup>*\<^sup>* initial_system \<lparr>sys_db = demo_running, claiming = None\<rparr>"
proof -
  let ?c = "demo_run\<lparr>r_accepted_at := Some 300\<rparr>"
  have "sys_step 1 \<lparr>sys_db = demo_accepted, claiming = None\<rparr> \<lparr>sys_db = demo_accepted, claiming = Some ?c\<rparr>"
    using claim_begin_step [of "\<lparr>sys_db = demo_accepted, claiming = None\<rparr>" 1] demo_candidate by simp
  moreover have "sys_step 1 \<lparr>sys_db = demo_accepted, claiming = Some ?c\<rparr> \<lparr>sys_db = demo_running, claiming = None\<rparr>"
    using claim_end_step [of "\<lparr>sys_db = demo_accepted, claiming = Some ?c\<rparr>" ?c "at 400 32" "''models''" "Inr (Some 20)" demo_running 1]
      demo_claim by (simp add: transaction_commit)
  ultimately show ?thesis using demo_reach_accepted by (meson rtranclp.rtrancl_into_rtrancl)
qed

definition demo_work :: execution_work where
  "demo_work = \<lparr>w_id = 20, w_release = demo_release, w_parameters = mode_params ''fast'', w_fingerprint = demo_digest,
     w_namespace = Some ''models'', w_job_uid = None\<rparr>"

definition demo_prefix :: string where
  "demo_prefix = ''flood/sha256-'' @ replicate 64 CHR ''a'' @ ''/'' @ uuid_str 20 @ ''/outputs/''"

lemma demo_resolved: "resolve (rd_execution_definition demo_release) (mode_params ''fast'') = Inr demo_invocation"
  by (simp add: resolve_mode_params demo_release_def demo_execution_def)

lemma demo_reconcile_any:
  assumes "observe demo_work w = (Inr \<lparr>o_uid = ''uid-1'', o_state = ''succeeded'', o_failure_code = None\<rparr>, w')"
    and "inventory demo_prefix w' = Inr [demo_output]"
  shows "reconcile True (\<lambda>d. d) (at 500 31) observe inventory 20 demo_running w = (Inr (), demo_succeeded, w')"
proof -
  let ?run = "demo_run\<lparr>r_accepted_at := Some 300, r_status := RUNNING, r_dispatch_started_at := Some 400,
      r_job_namespace := Some ''models'', r_job_uid := Some ''uid-1''\<rparr>"
  let ?d1 = "demo_running\<lparr>runs_t := [?run]\<rparr>"
  have "load_release_definition demo_running demo_release_row = Inr demo_release"
    using definition_roundtrip [OF demo_definition_wf]
    by (simp add: load_release_definition_def release_of_rows_def demo_defs)
  then have load: "record_load 20 demo_running = Inr (Some demo_work)"
    by (simp add: record_load_def demo_work_def demo_defs)
  have save: "save_job_uid 20 ''uid-1'' demo_running = (Inr (), ?d1)"
    by (simp add: save_job_uid_def transaction_commit update_run_def update_by_def demo_defs)
  have "output_prefix demo_work = Inr demo_prefix"
    by (simp add: output_prefix_def demo_work_def demo_prefix_def demo_release_def second_piece_def demo_cut)
  then have collect: "collect (\<lambda>p. inventory p w') demo_work = Inr [demo_output]"
    using demo_resolved assms(2)
    by (simp add: collect_def demo_work_def) (simp add: demo_invocation_def size_of_def demo_output_def demo_prefix_def)
  have fin: "finish (at 500 31) 20 None [demo_output] ?d1 = (Inr (), demo_succeeded)"
    by (simp add: finish_def transaction_commit finish_row_def terminal_statuses_def outcome_status_def truthy_def
        insert_artifact_def insert_outbox_def update_run_def update_by_def demo_defs demo_succeeded_def artifact_row_of_def
        Let_def demo_output_def)
  have work: "w_id demo_work = 20" "w_release demo_work = demo_release" "w_parameters demo_work = mode_params ''fast''"
    "w_fingerprint demo_work = demo_digest" by (simp_all add: demo_work_def)
  show ?thesis
    by (simp add: reconcile_def reconcile_record_def load attempt_def work demo_compatible assms(1) save collect fin)
qed

lemma demo_reconcile:
  "\<exists>r'. reconcile True (\<lambda>d. d) (at 500 31)
      (\<lambda>_ w. (Inr \<lparr>o_uid = ''uid-1'', o_state = ''succeeded'', o_failure_code = None\<rparr>, w :: unit))
      (\<lambda>_ _. Inr [demo_output]) 20 demo_running () = (Inr (), demo_succeeded, ())
    \<and> find_run 20 demo_succeeded = Some r' \<and> r_status r' = SUCCEEDED"
  by (simp add: demo_reconcile_any) (simp add: demo_succeeded_def demo_run_def)

section \<open>A user\<close>

definition demo_identity :: validated_identity where
  "demo_identity = \<lparr>vi_issuer = ''https://id'', vi_subject = ''u-1'', vi_email = Some ''a@b'', vi_display_name = None,
     vi_expires_at = None\<rparr>"

definition demo_users :: db where
  "demo_users = empty_db\<lparr>users_t := [\<lparr>u_id = 5, u_email = Some ''a@b'', u_display_name = None, u_is_active = True,
       u_created_at = 1, u_updated_at = 1\<rparr>],
     identities_t := [\<lparr>i_issuer = ''https://id'', i_subject = ''u-1'', i_user_id = 5, i_created_at = 1\<rparr>],
     user_roles_t := [\<lparr>ur_user_id = 5, ur_role_name = ''member'', ur_assigned_at = 1\<rparr>]\<rparr>"

lemma demo_users_wf: "wf_users empty_db"
  by (simp add: wf_users_def empty_db_def seeded_roles_def)

lemma demo_resolve:
  "\<exists>c. current_user_of (at 1 5) (at 1 6) (\<lambda>d. d) (\<lambda>d. d) demo_identity empty_db = (Inr c, demo_users)"
  by (simp add: current_user_of_def resolve_current_user_def transaction.simps resolve_once_def find_by_identity_def
      create_with_identity_and_role_def insert_user_def insert_identity_def insert_user_role_def and_current_def
      as_current_user_def MEMBER_ROLE_def seeded_roles_def demo_identity_def demo_users_def empty_db_def at_def Let_def)

lemma demo_users_find:
  "find_by_identity (vi_issuer demo_identity) (vi_subject demo_identity) demo_users
   = Some \<lparr>ua_id = 5, ua_email = Some ''a@b'', ua_display_name = None, ua_is_active = True, ua_roles = {''member''}\<rparr>"
  by (simp add: find_by_identity_def identity_key_def account_of_row_def roles_of_def demo_identity_def demo_users_def)

section \<open>A stream\<close>

text \<open>The user submits a run of the model and then opens a stream.\<close>

definition owned_registered :: db where
  "owned_registered = demo_users\<lparr>models_t := [\<lparr>m_id = ''flood'', m_display_name = ''Flood model''\<rparr>],
     releases_t := [demo_release_row]\<rparr>"

definition owned_run :: run_row where
  "owned_run = demo_run\<lparr>r_requested_by := Some 5\<rparr>"

definition owned_submitted :: db where
  "owned_submitted = owned_registered\<lparr>runs_t := [owned_run],
     outbox_t := [\<lparr>ob_id = 30, ob_run_id = 20, ob_event_type = ''run.requested'', ob_created_at = 200,
       ob_published_at = None\<rparr>]\<rparr>"

lemmas owned_defs = owned_registered_def owned_run_def owned_submitted_def demo_users_def demo_defs

lemma owned_register:
  "register_release (register (at 100 10)) demo_config demo_users
   = (Inr \<lparr>mr_id = 10, mr_definition = demo_release\<rparr>, owned_registered)"
  using definition_roundtrip [OF demo_definition_wf]
  by (simp add: register_release_def demo_config_ok register_def transaction_commit register_body_def Let_def
      store_release_def insert_release_def rename_model_def upsert_model_def matching_release_def
      snapshot_def release_of_rows_def find_by_def update_by_def owned_defs)

lemma owned_submit_any:
  assumes "\<And>q. q_requested_by q = Some 5 \<Longrightarrow> admit limits q owned_registered = Inr ()"
  shows "submit limits (at 200 30) 20 10 (mode_params ''fast'') (Some 5) owned_registered
   = (Inr \<lparr>q_id = 20, q_model_release_id = 10, q_requested_by = Some 5, q_parameters = mode_params ''fast'',
        q_fingerprint = demo_digest, q_status = QUEUED\<rparr>, owned_submitted)"
proof -
  let ?q = "\<lparr>q_id = 20, q_model_release_id = 10, q_requested_by = Some 5, q_parameters = mode_params ''fast'',
      q_fingerprint = demo_digest, q_status = QUEUED\<rparr>"
  have "prepare demo_execution (mode_params ''fast'') = Inr (mode_params ''fast'')"
    by (simp add: prepare_mode_params demo_execution_def del: prepare.simps)
  then have p: "prepare_run \<lparr>mr_id = 10, mr_definition = demo_release\<rparr> 20 (mode_params ''fast'') (Some 5) = Inr ?q"
    using demo_fingerprint by (simp add: prepare_run_def demo_release_def del: prepare.simps)
  have get: "get_release 10 owned_registered = Inr \<lparr>mr_id = 10, mr_definition = demo_release\<rparr>"
    using definition_roundtrip [OF demo_definition_wf]
    by (simp add: get_release_def release_join_def List.map_filter_def find_by_def snapshot_def release_of_rows_def owned_defs)
  have "save_requested limits (at 200 30) ?q owned_registered = (Inr (), owned_submitted)"
    unfolding save_requested_Inr using demo_digest_shape assms [of ?q]
    by (simp add: requester_known_def is_object_def) (simp add: owned_defs run_row_of_def outbox_row_of_def)
  then show ?thesis by (simp add: submit_def submit_run_def get p)
qed

lemmas owned_submit = owned_submit_any [of None, unfolded admit_def, simplified]

lemma owned_reach: "(sys_step 1)\<^sup>*\<^sup>* initial_system \<lparr>sys_db = owned_submitted, claiming = None\<rparr>"
proof -
  have "sys_step 1 initial_system \<lparr>sys_db = demo_users, claiming = None\<rparr>"
    using resolve_user_step [of "at 1 5" "at 1 6" demo_identity initial_system] demo_resolve by (auto simp: initial_system_def)
  moreover have "sys_step 1 \<lparr>sys_db = demo_users, claiming = None\<rparr> \<lparr>sys_db = owned_registered, claiming = None\<rparr>"
    using register_step [of "at 100 10" demo_config "\<lparr>sys_db = demo_users, claiming = None\<rparr>"] owned_register by simp
  moreover have "sys_step 1 \<lparr>sys_db = owned_registered, claiming = None\<rparr> \<lparr>sys_db = owned_submitted, claiming = None\<rparr>"
    using submit_step [of None "at 200 30" 20 10 "mode_params ''fast''" "Some 5" "\<lparr>sys_db = owned_registered, claiming = None\<rparr>"]
      owned_submit by simp
  ultimately show ?thesis by (meson converse_rtranclp_into_rtranclp rtranclp.rtrancl_refl)
qed

definition demo_detail :: run_detail where
  "demo_detail = run_detail_of owned_run []"

definition demo_feed :: run_feed where
  "demo_feed = (make_feed 5 100 100)\<lparr>fd_available := True, fd_subscriptions := [new_subscription 0 5]\<rparr>"

definition demo_stream :: live where
  "demo_stream = (initial_live demo_feed)\<lparr>lv_sys := \<lparr>sys_db = owned_submitted, claiming = None\<rparr>, lv_link := Up,
     lv_next := 1, lv_views := (\<lambda>_. None)(0 := Some [20 \<mapsto> demo_detail])\<rparr>"

lemma commits_while_down:
  assumes "(sys_step c)\<^sup>*\<^sup>* s s'" and "lv_link w = Down" and "lv_sys w = s"
  shows "(live_step c)\<^sup>*\<^sup>* w (w\<lparr>lv_sys := s'\<rparr>)"
  using assms(1)
proof induction
  case base
  have "w\<lparr>lv_sys := s\<rparr> = w" using assms(3) by (cases w) simp
  then show ?case by simp
next
  case (step y z)
  have "live_step c (w\<lparr>lv_sys := y\<rparr>) (w\<lparr>lv_sys := z\<rparr>)"
    using commit_step [of c "w\<lparr>lv_sys := y\<rparr>" z] step(2) assms(2) by simp
  with step(3) show ?case by (rule rtranclp.rtrancl_into_rtrancl)
qed

lemma demo_snapshot: "feed_snapshot 5 owned_submitted = Inr [demo_detail]" "find_detail 20 owned_submitted = Some demo_detail"
proof -
  have d: "distinct (map r_id (runs_t owned_submitted))" by (simp add: owned_submitted_def)
  have "artifacts_of 20 owned_submitted = []" by (simp add: artifacts_of_def owned_defs)
  moreover have "snapshot_runs 5 owned_submitted = [owned_run]"
    by (simp add: snapshot_runs_def newest_first_def owned_submitted_def) (simp add: owned_run_def demo_run_def active_statuses_def)
  moreover have "r_id owned_run = 20" by (simp add: owned_run_def demo_run_def)
  ultimately show "feed_snapshot 5 owned_submitted = Inr [demo_detail]" "find_detail 20 owned_submitted = Some demo_detail"
    by (simp_all add: feed_snapshot_eq [OF d] find_detail_eq [OF d] demo_detail_def) (simp add: owned_submitted_def)
qed

lemma demo_stream_reach: "(live_step 1)\<^sup>*\<^sup>* (initial_live (make_feed 5 100 100)) demo_stream"
proof -
  let ?s = "\<lparr>sys_db = owned_submitted, claiming = None\<rparr>"
  let ?w0 = "(initial_live (make_feed 5 100 100))\<lparr>lv_sys := ?s\<rparr>"
  let ?w1 = "?w0\<lparr>lv_link := Up\<rparr>" and ?f2 = "(make_feed 5 100 100)\<lparr>fd_available := True\<rparr>"
  let ?w2 = "?w1\<lparr>lv_feed := ?f2\<rparr>" and ?w3 = "?w1\<lparr>lv_feed := demo_feed, lv_next := 1\<rparr>"
  let ?w4 = "?w3\<lparr>lv_reads := Snapshotting 0 (Inr [demo_detail])\<rparr>"
  have "(live_step 1)\<^sup>*\<^sup>* (initial_live (make_feed 5 100 100)) ?w0"
    by (rule commits_while_down [OF owned_reach]) (simp_all add: initial_live_def)
  also have "live_step 1 ?w0 ?w1" using listen_step [of ?w0 1] by (simp add: initial_live_def)
  also have "live_step 1 ?w1 ?w2" using announce_step [of ?w1 1] by (simp add: initial_live_def feed_up_def)
  also have "live_step 1 ?w2 ?w3"
    using subscribe_step [of ?w2 5 demo_feed 1] by (simp add: initial_live_def subscribe_def demo_feed_def make_feed_def)
  also have "live_step 1 ?w3 ?w4"
    using snapshot_read_step [of ?w3 0 "new_subscription 0 5" "Inr [demo_detail]" _ 1] demo_snapshot(1)
    by (simp add: initial_live_def find_sub_def demo_feed_def new_subscription_def make_feed_def)
  also have "live_step 1 ?w4 demo_stream"
    using snapshot_done_step [of ?w4 0 "[demo_detail]" "new_subscription 0 5" demo_feed 1]
    by (simp add: initial_live_def find_sub_def demo_feed_def new_subscription_def make_feed_def snapshot_ready_def
        on_sub_def map_subs_def demo_stream_def as_view_def demo_detail_def owned_run_def demo_run_def)
  finally show ?thesis .
qed

end
