(* ===== verification/Kubernetes.thy ===== *)
theory Kubernetes
  imports Execution
begin

text \<open>
  The adapters of execution: the Job of a run in the cluster
  (\<open>infrastructure/kubernetes_jobs.py\<close>), its rendering (\<open>job_renderer.py\<close>,
  \<open>model_jobs.py\<close>) and the artifact inventory (\<open>s3_artifacts.py\<close>). The Kubernetes API
  server, Helm with its YAML output and the object store are not part of the repository: the
  calls the adapters make to them are arguments, on a world \<open>'w\<close> they may change. Documents
  are JSON values as the client's serialiser returns them.
\<close>

section \<open>Rendering\<close>

definition model_job_values :: "release_definition \<Rightarrow> json \<Rightarrow> uuid \<Rightarrow> exn + json" where
  "model_job_values release parameters run_id =
     bind_res (prepare (rd_execution_definition release) parameters) (\<lambda>effective.
     bind_res (resolve (rd_execution_definition release) effective) (\<lambda>inv.
     bind_res (fingerprint release effective) (\<lambda>fp.
     bind_res (py_getitem effective ''mode'') (\<lambda>mode.
     Inr (JObj [(''runId'', JStr (uuid_str run_id)), (''runFingerprint'', JStr fp),
       (''model'', JObj [(''id'', JStr (rd_model_id release)), (''mode'', mode), (''image'', JStr (rd_image_digest release)),
         (''command'', JList (map JStr (arguments inv))), (''workingDir'', JStr (working_directory inv)),
         (''outputPath'', JStr (output_directory inv))])])))))"

text \<open>
  \<open>helm args values\<close> is the documents that \<open>helm template\<close> prints for the values on its
  standard input, or \<open>None\<close> when the command or the YAML parser fails.
\<close>

definition render_job :: "(string list \<Rightarrow> json \<Rightarrow> json list option) \<Rightarrow> string \<Rightarrow> string \<Rightarrow> string option
    \<Rightarrow> execution_work \<Rightarrow> exn + json" where
  "render_job helm binary chart values_file work =
     (case w_namespace work of
        None \<Rightarrow> Inl TypeError
      | Some ns \<Rightarrow>
          bind_res (model_job_values (w_release work) (w_parameters work) (w_id work)) (\<lambda>values.
          case helm ([binary, ''template'', job_name work, chart, ''--namespace'', ns]
              @ (case values_file of None \<Rightarrow> [] | Some f \<Rightarrow> [''-f'', f]) @ [''-f'', ''-'']) values of
            None \<Rightarrow> Inl (InfrastructureUnavailable ''Job rendering failed.'')
          | Some documents \<Rightarrow>
              (case documents of
                 [JObj d] \<Rightarrow> if map_of d ''kind'' = Some (JStr ''Job'') then Inr (JObj d)
                   else Inl (InfrastructureUnavailable ''Expected one rendered Job.'')
               | [_] \<Rightarrow> Inl AttributeError
               | _ \<Rightarrow> Inl (InfrastructureUnavailable ''Expected one rendered Job.''))))"

section \<open>Comparing documents\<close>

text \<open>Equality of scalars as Python has it: \<open>True == 1\<close> and \<open>1.0 == 1\<close>.\<close>

fun as_number :: "json \<Rightarrow> string option" where
  "as_number (JBool b) = Some (if b then ''1.0'' else ''0.0'')"
| "as_number (JInt n) = Some (show_int n @ ''.0'')"
| "as_number (JFloat r) = Some r"
| "as_number _ = None"

definition py_scalar_eq :: "json \<Rightarrow> json \<Rightarrow> bool" where
  "py_scalar_eq a e \<longleftrightarrow> a = e \<or> as_number a \<noteq> None \<and> as_number a = as_number e"

fun contains :: "json \<Rightarrow> json \<Rightarrow> bool"
  and contains_fields :: "json_dict \<Rightarrow> json_dict \<Rightarrow> bool"
  and contains_items :: "json list \<Rightarrow> json list \<Rightarrow> bool" where
  "contains actual (JObj expected) \<longleftrightarrow> (case actual of JObj d \<Rightarrow> contains_fields d expected | _ \<Rightarrow> False)"
| "contains actual (JList expected) \<longleftrightarrow>
     (case actual of JList xs \<Rightarrow> length xs = length expected \<and> contains_items xs expected | _ \<Rightarrow> False)"
| "contains actual expected \<longleftrightarrow> py_scalar_eq actual expected"
| "contains_fields d [] \<longleftrightarrow> True"
| "contains_fields d ((k, v) # kvs) \<longleftrightarrow>
     (case map_of d k of Some a \<Rightarrow> contains a v | None \<Rightarrow> False) \<and> contains_fields d kvs"
| "contains_items (a # as) (b # bs) \<longleftrightarrow> contains a b \<and> contains_items as bs"
| "contains_items _ _ \<longleftrightarrow> True"

section \<open>The cluster\<close>

text \<open>
  What a call of the client may raise: an \<open>ApiException\<close> with its status, or another error
  of the transport.
\<close>

datatype api_error = ApiException int | TransportError

datatype raised = Transport api_error | Raised exn

definition raise_here :: "exn + 'a \<Rightarrow> raised + 'a" where
  "raise_here r = map_sum Raised id r"

type_synonym 'w api_call = "'w \<Rightarrow> (api_error + json) \<times> 'w"

record 'w cluster_api =
  read_job :: "string \<Rightarrow> string \<Rightarrow> 'w api_call"
  create_job :: "string \<Rightarrow> json \<Rightarrow> 'w api_call"
  list_pods :: "string \<Rightarrow> string \<Rightarrow> 'w api_call"

definition get_job :: "'w cluster_api \<Rightarrow> string \<Rightarrow> string \<Rightarrow> 'w \<Rightarrow> (raised + json option) \<times> 'w" where
  "get_job api name ns w =
     (case read_job api name ns w of
        (Inr job, w1) \<Rightarrow> (Inr (Some job), w1)
      | (Inl e, w1) \<Rightarrow> (if e = ApiException 404 then Inr None else Inl (Transport e), w1))"

definition find_or_create ::
  "'w cluster_api \<Rightarrow> string \<Rightarrow> execution_work \<Rightarrow> json \<Rightarrow> 'w \<Rightarrow> (raised + json) \<times> 'w" where
  "find_or_create api ns work expected w =
     (case get_job api (job_name work) ns w of
        (Inl e, w1) \<Rightarrow> (Inl e, w1)
      | (Inr (Some actual), w1) \<Rightarrow> (Inr actual, w1)
      | (Inr None, w1) \<Rightarrow>
          if truthy (w_job_uid work) then (Inl (Raised (ExecutionFailure ''job_lost'' [])), w1)
          else (case create_job api ns expected w1 of
            (Inr job, w2) \<Rightarrow> (Inr job, w2)
          | (Inl _, w2) \<Rightarrow>
              (case get_job api (job_name work) ns w2 of
                 (Inl e, w3) \<Rightarrow> (Inl e, w3)
               | (Inr (Some actual), w3) \<Rightarrow> (Inr actual, w3)
               | (Inr None, w3) \<Rightarrow>
                   (Inl (Raised (InfrastructureUnavailable ''Job creation unconfirmed; retry deterministic lookup.'')), w3))))"

fun py_get :: "json \<Rightarrow> string \<Rightarrow> json \<Rightarrow> exn + json" where
  "py_get (JObj d) k absent = Inr (case map_of d k of Some v \<Rightarrow> v | None \<Rightarrow> absent)"
| "py_get _ k absent = Inl AttributeError"

definition verify_contract :: "execution_work \<Rightarrow> json \<Rightarrow> json \<Rightarrow> json \<Rightarrow> exn + unit" where
  "verify_contract work uid actual expected =
     (if truthy (w_job_uid work) \<and> uid \<noteq> JStr (the (w_job_uid work))
      then Inl (ExecutionFailure ''job_identity_conflict'' [])
      else
        bind_res (py_getitem actual ''metadata'') (\<lambda>metadata.
        bind_res (py_getitem expected ''metadata'') (\<lambda>wanted.
        bind_res (py_get metadata ''labels'' (JObj [])) (\<lambda>labels.
        bind_res (py_getitem wanted ''labels'') (\<lambda>wanted_labels.
        if \<not> contains labels wanted_labels then Inl (ExecutionFailure ''job_identity_conflict'' [])
        else
          bind_res (py_get metadata ''annotations'' (JObj [])) (\<lambda>annotations.
          bind_res (py_getitem wanted ''annotations'') (\<lambda>wanted_annotations.
          if \<not> contains annotations wanted_annotations then Inl (ExecutionFailure ''job_identity_conflict'' [])
          else
            bind_res (py_getitem actual ''spec'') (\<lambda>spec.
            bind_res (py_getitem expected ''spec'') (\<lambda>wanted_spec.
            require (contains spec wanted_spec) (ExecutionFailure ''job_identity_conflict'' []))))))))))"

section \<open>Conditions and failures\<close>

text \<open>Iterating over anything but a list is a \<open>TypeError\<close>; strings and objects do not occur there.\<close>

fun py_list :: "json \<Rightarrow> exn + json list" where
  "py_list (JList xs) = Inr xs"
| "py_list _ = Inl TypeError"

definition condition_of :: "json \<Rightarrow> exn + string option" where
  "condition_of c =
     bind_res (py_getitem c ''status'') (\<lambda>st.
       if st = JStr ''True'' then bind_res (py_getitem c ''type'') (\<lambda>t. Inr (as_str t)) else Inr None)"

definition true_conditions :: "json \<Rightarrow> exn + string list" where
  "true_conditions actual =
     bind_res (py_get actual ''status'' (JObj [])) (\<lambda>status.
     bind_res (py_get status ''conditions'' (JList [])) (\<lambda>conditions.
     bind_res (py_list conditions) (\<lambda>cs.
     bind_res (map_res condition_of cs) (\<lambda>ts. Inr (List.map_filter id ts)))))"

definition failure_by_container :: "(string \<times> string) list" where
  "failure_by_container = [(''model'', ''model_failed''), (''copy'', ''upload_failed'')]"

definition container_reason :: "string \<Rightarrow> json \<Rightarrow> exn + string" where
  "container_reason reason container =
     bind_res (py_get container ''state'' (JObj [])) (\<lambda>st.
     bind_res (py_get st ''terminated'' (JObj [])) (\<lambda>term.
     bind_res (py_get term ''exitCode'' JNull) (\<lambda>exit_code.
     if exit_code = JNull \<or> py_scalar_eq exit_code (JInt 0) then Inr reason
     else bind_res (py_getitem container ''name'') (\<lambda>name.
       Inr (case as_str name of None \<Rightarrow> ''job_failed''
         | Some n \<Rightarrow> (case map_of failure_by_container n of Some r \<Rightarrow> r | None \<Rightarrow> ''job_failed''))))))"

fun fold_res :: "('s \<Rightarrow> 'a \<Rightarrow> 'e + 's) \<Rightarrow> 's \<Rightarrow> 'a list \<Rightarrow> 'e + 's" where
  "fold_res f s [] = Inr s"
| "fold_res f s (x # xs) = bind_res (f s x) (\<lambda>s'. fold_res f s' xs)"

definition owned_by :: "json \<Rightarrow> json \<Rightarrow> exn + bool" where
  "owned_by uid pod =
     bind_res (py_getitem pod ''metadata'') (\<lambda>metadata.
     bind_res (py_get metadata ''ownerReferences'' (JList [])) (\<lambda>refs.
     bind_res (py_list refs) (\<lambda>os.
     fold_res (\<lambda>found ref. if found then Inr True else bind_res (py_get ref ''uid'' JNull) (\<lambda>u. Inr (py_scalar_eq u uid)))
       False os)))"

definition pod_reason :: "json \<Rightarrow> string \<Rightarrow> json \<Rightarrow> exn + string" where
  "pod_reason uid reason pod =
     bind_res (owned_by uid pod) (\<lambda>own.
     if \<not> own then Inr reason
     else
       bind_res (py_get pod ''status'' (JObj [])) (\<lambda>status.
       bind_res (py_get status ''initContainerStatuses'' (JList [])) (\<lambda>inits.
       bind_res (py_get status ''containerStatuses'' (JList [])) (\<lambda>mains.
       bind_res (py_list inits) (\<lambda>is.
       bind_res (py_list mains) (\<lambda>ms. fold_res container_reason reason (is @ ms)))))))"

definition failure_reason :: "'w cluster_api \<Rightarrow> string \<Rightarrow> execution_work \<Rightarrow> json \<Rightarrow> 'w \<Rightarrow> (raised + string) \<times> 'w" where
  "failure_reason api ns work uid w =
     (case list_pods api ns (''job-name='' @ job_name work) w of
        (Inl e, w1) \<Rightarrow> (Inl (Transport e), w1)
      | (Inr pods, w1) \<Rightarrow>
          (raise_here (bind_res (py_get pods ''items'' (JList [])) (\<lambda>items.
             bind_res (py_list items) (fold_res (pod_reason uid) ''job_failed''))), w1))"

section \<open>Observing a run's Job\<close>

definition observe_found :: "'w cluster_api \<Rightarrow> string \<Rightarrow> execution_work \<Rightarrow> json \<Rightarrow> json \<Rightarrow> 'w
    \<Rightarrow> (raised + job_observation) \<times> 'w" where
  "observe_found api ns work expected actual w =
     (case bind_res (py_getitem actual ''metadata'') (\<lambda>metadata. bind_res (py_getitem metadata ''uid'') (\<lambda>uid.
         bind_res (verify_contract work uid actual expected) (\<lambda>_. bind_res (true_conditions actual) (\<lambda>cs. Inr (uid, cs))))) of
        Inl e \<Rightarrow> (Inl (Raised e), w)
      | Inr (uid, cs) \<Rightarrow>
          let uid_str = (case uid of JStr s \<Rightarrow> s | _ \<Rightarrow> []) in
          if ''Failed'' \<in> set cs then
            (case failure_reason api ns work uid w of
               (Inl e, w1) \<Rightarrow> (Inl e, w1)
             | (Inr reason, w1) \<Rightarrow> (Inr \<lparr>o_uid = uid_str, o_state = ''failed'', o_failure_code = Some reason\<rparr>, w1))
          else (Inr \<lparr>o_uid = uid_str, o_state = (if ''Complete'' \<in> set cs then ''succeeded'' else ''active''),
            o_failure_code = None\<rparr>, w))"

fun as_exn :: "raised \<Rightarrow> exn" where
  "as_exn (Transport _) = InfrastructureUnavailable ''Kubernetes operation unavailable.''"
| "as_exn (Raised e) = e"

definition observe_or_create ::
  "'w cluster_api \<Rightarrow> string \<Rightarrow> (execution_work \<Rightarrow> exn + json) \<Rightarrow> execution_work \<Rightarrow> 'w \<Rightarrow> (exn + job_observation) \<times> 'w" where
  "observe_or_create api namespace render work w =
     (if w_namespace work \<noteq> Some namespace
      then (Inl (InfrastructureUnavailable ''Execution namespace changed; restore its configuration.''), w)
      else case render work of
        Inl e \<Rightarrow> (Inl e, w)
      | Inr expected \<Rightarrow>
          (case (case find_or_create api namespace work expected w of
              (Inl e, w1) \<Rightarrow> (Inl e, w1)
            | (Inr actual, w1) \<Rightarrow> observe_found api namespace work expected actual w1) of
             (Inl r, w2) \<Rightarrow> (Inl (as_exn r), w2)
           | (Inr ob, w2) \<Rightarrow> (Inr ob, w2)))"

section \<open>The inventory\<close>

definition artifact_of_object :: "string \<Rightarrow> json \<Rightarrow> exn + artifact" where
  "artifact_of_object bucket obj =
     bind_res (py_getitem obj ''Key'') (\<lambda>key. bind_res (py_getitem obj ''Size'') (\<lambda>size.
       case (key, size) of
         (JStr k, JInt n) \<Rightarrow> Inr \<lparr>a_bucket = bucket, a_object_key = k, a_size_bytes = n\<rparr>
       | _ \<Rightarrow> Inl TypeError))"

text \<open>\<open>pages bucket prefix\<close> is what the paginator yields, or \<open>None\<close> when the store fails.\<close>

definition s3_list :: "(string \<Rightarrow> string \<Rightarrow> json list option) \<Rightarrow> string \<Rightarrow> string \<Rightarrow> exn + artifact list" where
  "s3_list pages bucket prefix =
     (case pages bucket prefix of
        None \<Rightarrow> Inl (InfrastructureUnavailable ''Artifact inventory unavailable.'')
      | Some ps \<Rightarrow>
          bind_res (map_res (\<lambda>page. bind_res (py_get page ''Contents'' (JList [])) (\<lambda>c.
              bind_res (py_list c) (map_res (artifact_of_object bucket)))) ps) (\<lambda>xss. Inr (concat xss)))"

section \<open>Facts\<close>

lemma truthy_iff: "truthy s \<longleftrightarrow> (\<exists>x. s = Some x \<and> x \<noteq> [])"
  by (cases s) (auto simp: truthy_def)

text \<open>With a recorded identity nothing is ever created.\<close>

lemma create_job_irrelevant:
  "get_job (api\<lparr>create_job := c\<rparr>) = get_job api" "failure_reason (api\<lparr>create_job := c\<rparr>) = failure_reason api"
  "observe_found (api\<lparr>create_job := c\<rparr>) = observe_found api"
proof -
  show reason: "failure_reason (api\<lparr>create_job := c\<rparr>) = failure_reason api"
    by (intro ext) (simp add: failure_reason_def)
  show "observe_found (api\<lparr>create_job := c\<rparr>) = observe_found api"
    by (intro ext) (simp only: observe_found_def reason)
qed (intro ext, simp add: get_job_def)

lemma observe_recorded:
  assumes "truthy (w_job_uid work)"
  shows "observe_or_create (api\<lparr>create_job := c\<rparr>) ns render work w = observe_or_create api ns render work w"
proof -
  have "find_or_create (api\<lparr>create_job := c\<rparr>) ns work = find_or_create api ns work"
    by (intro ext) (simp only: find_or_create_def create_job_irrelevant assms if_True)
  then show ?thesis by (simp only: observe_or_create_def create_job_irrelevant)
qed

text \<open>An observation is of a Job that honours the rendered contract.\<close>

lemma verify_contract_Inr:
  assumes "verify_contract work uid actual expected = Inr u"
  shows "truthy (w_job_uid work) \<Longrightarrow> uid = JStr (the (w_job_uid work))"
    and "\<exists>spec wanted. py_getitem actual ''spec'' = Inr spec \<and> py_getitem expected ''spec'' = Inr wanted \<and> contains spec wanted"
  using assms by (auto simp: verify_contract_def split: if_splits)

lemma observe_found_Inr:
  assumes "observe_found api ns work expected actual w = (Inr ob, w')"
  obtains uid cs metadata where "py_getitem actual ''metadata'' = Inr metadata" "py_getitem metadata ''uid'' = Inr uid"
    and "verify_contract work uid actual expected = Inr ()" and "true_conditions actual = Inr cs"
    and "o_uid ob = (case uid of JStr s \<Rightarrow> s | _ \<Rightarrow> [])"
    and "o_state ob = (if ''Failed'' \<in> set cs then ''failed'' else if ''Complete'' \<in> set cs then ''succeeded'' else ''active'')"
  using assms unfolding observe_found_def
  by (auto simp: Let_def split: sum.splits prod.splits if_splits)

lemma observe_or_create_Inr:
  assumes "observe_or_create api ns render work w = (Inr ob, w')"
  obtains expected actual w1 where "w_namespace work = Some ns" and "render work = Inr expected"
    and "find_or_create api ns work expected w = (Inr actual, w1)"
    and "observe_found api ns work expected actual w1 = (Inr ob, w')"
  using assms unfolding observe_or_create_def
  by (auto split: if_splits sum.splits prod.splits)

text \<open>Every \<open>ExecutionFailure\<close> of the adapters names its code.\<close>

definition names_failure :: "exn + 'a \<Rightarrow> bool" where
  "names_failure r \<longleftrightarrow> (\<forall>as. r \<noteq> Inl (ExecutionFailure [] as))"

named_theorems named \<open>results that name the failure they raise\<close>

lemma names_failure_bind:
  "names_failure m \<Longrightarrow> (\<And>x. m = Inr x \<Longrightarrow> names_failure (f x)) \<Longrightarrow> names_failure (bind_res m f)"
  by (cases m) (auto simp: names_failure_def)

lemma names_failure_basic [named]:
  "names_failure (Inr x)" "names_failure (py_getitem j k)" "names_failure (py_get j k v)" "names_failure (py_list j)"
  "names_failure (Inl (InfrastructureUnavailable m))" "names_failure (Inl TypeError)" "names_failure (Inl AttributeError)"
  "names_failure (require b (ExecutionFailure ''job_identity_conflict'' []))"
  "names_failure (Inl (ExecutionFailure ''job_identity_conflict'' []))"
  "names_failure (Inl (ExecutionFailure ''job_lost'' []))"
  by (cases j; auto simp: names_failure_def require_def split: option.splits)+

lemma names_failure_map_res: "(\<And>x. names_failure (f x)) \<Longrightarrow> names_failure (map_res f xs)"
  by (induction xs) (auto intro!: names_failure_bind named)

lemma names_failure_fold_res: "(\<And>s x. names_failure (f s x)) \<Longrightarrow> names_failure (fold_res f s xs)"
  by (induction xs arbitrary: s) (auto intro!: names_failure_bind named)

lemma names_failure_verify [named]: "names_failure (verify_contract work uid actual expected)"
  unfolding verify_contract_def by (auto intro!: names_failure_bind named)

lemma names_failure_conditions [named]: "names_failure (true_conditions actual)"
  unfolding true_conditions_def condition_of_def by (auto intro!: names_failure_bind names_failure_map_res named)

lemma names_failure_pod [named]: "names_failure (pod_reason uid reason pod)"
  unfolding pod_reason_def owned_by_def container_reason_def
  by (auto intro!: names_failure_bind names_failure_fold_res named)

lemma failure_reason_named:
  assumes "failure_reason api ns work uid w = (Inl r, w')" shows "as_exn r \<noteq> ExecutionFailure [] as"
proof -
  have "names_failure (bind_res (py_get pods ''items'' (JList [])) (\<lambda>items.
      bind_res (py_list items) (fold_res (pod_reason uid) ''job_failed'')))" for pods
    by (auto intro!: names_failure_bind names_failure_fold_res named)
  with assms show ?thesis
    by (auto simp: failure_reason_def raise_here_def names_failure_def map_sum_def split: prod.splits sum.splits)
qed

lemma find_or_create_named:
  assumes "find_or_create api ns work expected w = (Inl r, w')" shows "as_exn r \<noteq> ExecutionFailure [] as"
  using assms
  by (auto simp: find_or_create_def get_job_def names_failure_def split: prod.splits sum.splits option.splits if_splits)

lemma observe_found_named:
  assumes "observe_found api ns work expected actual w = (Inl r, w')" shows "as_exn r \<noteq> ExecutionFailure [] as"
proof -
  have "names_failure (bind_res (py_getitem actual ''metadata'') (\<lambda>metadata. bind_res (py_getitem metadata ''uid'') (\<lambda>uid.
      bind_res (verify_contract work uid actual expected) (\<lambda>_. bind_res (true_conditions actual) (\<lambda>cs. Inr (uid, cs))))))"
    (is "names_failure ?m") by (intro names_failure_bind named)
  then show ?thesis
    using assms unfolding observe_found_def
    by (cases ?m) (auto simp: Let_def names_failure_def failure_reason_named split: prod.splits sum.splits if_splits)
qed

lemma observe_named:
  assumes "names_failure (render work)"
  shows "names_failure (fst (observe_or_create api ns render work w))"
proof (cases "observe_or_create api ns render work w")
  case (Pair res w')
  show ?thesis
  proof (cases res)
    case (Inl e)
    with Pair assms show ?thesis
      unfolding observe_or_create_def
      by (auto simp: names_failure_def find_or_create_named observe_found_named split: if_splits sum.splits prod.splits)
  qed (simp add: Pair names_failure_def)
qed

lemma s3_list_named [named]: "names_failure (s3_list pages bucket prefix)"
  unfolding s3_list_def artifact_of_object_def
  by (auto intro!: names_failure_bind names_failure_map_res named split: option.splits prod.splits json.splits)

lemma model_error_named: "(\<And>e. r = Inl e \<Longrightarrow> \<exists>m. e = ModelError m) \<Longrightarrow> names_failure r"
  by (auto simp: names_failure_def)

lemma names_failure_model [named]:
  "names_failure (prepare def p)" "names_failure (resolve def p)" "names_failure (fingerprint rel p)"
proof -
  show "names_failure (prepare def p)" "names_failure (resolve def p)" for def p
    by (auto intro!: model_error_named dest: prepare_error_is_ModelError resolve_error)
  then show "names_failure (fingerprint rel p)"
    unfolding fingerprint_def fingerprint_payload_def by (intro names_failure_bind named)
qed

lemma render_job_named [named]: "names_failure (render_job helm binary chart values_file work)"
proof -
  have "names_failure (model_job_values rel p i)" for rel p i
    unfolding model_job_values_def by (intro names_failure_bind named)
  then show ?thesis
    unfolding render_job_def
    by (auto intro!: names_failure_bind named split: option.splits list.splits json.splits)
qed

section \<open>Success with the repository's adapters\<close>

lemma find_or_create_Inr:
  assumes "find_or_create api ns work expected w = (Inr actual, w')"
  shows "\<exists>w1 w2. read_job api (job_name work) ns w1 = (Inr actual, w2) \<or> create_job api ns expected w1 = (Inr actual, w2)"
  using assms
  by (auto simp: find_or_create_def get_job_def split: prod.splits sum.splits option.splits if_splits)

lemma adapters_success:
  assumes run: "run_is RUNNING i d" "run_is SUCCEEDED i d'"
    and rec: "reconcile acquired (\<lambda>d. d) st (observe_or_create api ns (render_job helm binary chart vf))
      (\<lambda>p w. s3_list (pages w) bucket p) i d w = (res, d', w')"
  obtains work expected actual w1 spec wanted cs as where "record_load i d = Inr (Some work)" and "w_namespace work = Some ns"
    and "render_job helm binary chart vf work = Inr expected"
    and "find_or_create api ns work expected w = (Inr actual, w1)"
    and "py_getitem actual ''spec'' = Inr spec" and "py_getitem expected ''spec'' = Inr wanted" and "contains spec wanted"
    and "true_conditions actual = Inr cs" and "''Complete'' \<in> set cs" and "''Failed'' \<notin> set cs"
    and "collect (s3_list (pages w') bucket) work = Inr as" and "artifacts_t d' = artifacts_t d @ map (artifact_row_of i) as"
proof -
  have obs: "\<And>work w as. fst (observe_or_create api ns (render_job helm binary chart vf) work w) \<noteq> Inl (ExecutionFailure [] as)"
    by (rule observe_named [unfolded names_failure_def, rule_format, where render = "render_job helm binary chart vf"])
      (rule render_job_named [unfolded names_failure_def, rule_format])
  have inv: "\<And>p w as. s3_list (pages w) bucket p \<noteq> Inl (ExecutionFailure [] as)"
    using s3_list_named by (auto simp: names_failure_def)
  from reconcile_success [OF obs inv run rec] obtain work ob as where w: "record_load i d = Inr (Some work)"
    "observe_or_create api ns (render_job helm binary chart vf) work w = (Inr ob, w')" "o_state ob = ''succeeded''"
    "collect (s3_list (pages w') bucket) work = Inr as" "artifacts_t d' = artifacts_t d @ map (artifact_row_of i) as"
    by auto
  from observe_or_create_Inr [OF w(2)] obtain expected actual w1 where o: "w_namespace work = Some ns"
    "render_job helm binary chart vf work = Inr expected" "find_or_create api ns work expected w = (Inr actual, w1)"
    "observe_found api ns work expected actual w1 = (Inr ob, w')" .
  from observe_found_Inr [OF o(4)] obtain uid cs where v: "verify_contract work uid actual expected = Inr ()"
    "true_conditions actual = Inr cs" and st: "o_state ob = (if ''Failed'' \<in> set cs then ''failed''
      else if ''Complete'' \<in> set cs then ''succeeded'' else ''active'')" by metis
  from verify_contract_Inr(2) [OF v(1)] obtain spec wanted where c: "py_getitem actual ''spec'' = Inr spec"
    "py_getitem expected ''spec'' = Inr wanted" "contains spec wanted" by blast
  from st w(3) have "''Complete'' \<in> set cs" "''Failed'' \<notin> set cs" by (auto split: if_splits)
  with that w o v c show ?thesis by blast
qed

text \<open>The identity an observation reports is the recorded one.\<close>

lemma observe_identity:
  assumes "truthy (w_job_uid work)" and "observe_or_create api ns render work w = (Inr ob, w')"
  shows "w_job_uid work = Some (o_uid ob)"
proof -
  from observe_or_create_Inr [OF assms(2)] obtain expected actual w1 where
    "observe_found api ns work expected actual w1 = (Inr ob, w')" by blast
  from observe_found_Inr [OF this] obtain uid where "verify_contract work uid actual expected = Inr ()"
    "o_uid ob = (case uid of JStr s \<Rightarrow> s | _ \<Rightarrow> [])" by metis
  with verify_contract_Inr(1) assms(1) show ?thesis by (fastforce simp: truthy_iff)
qed

end
