(* ===== verification/Oidc.thy ===== *)
theory Oidc
  imports Kubernetes Users
begin

text \<open>
  Access tokens: discovery, key lookup and validation
  (\<open>infrastructure/authentication/oidc.py\<close>), the settings they run with
  (\<open>core/config.py\<close>), and the connection settings of the Kafka and execution processes
  (\<open>core/kafka_config.py\<close>, \<open>execution_config.py\<close>, \<open>infrastructure/kafka_security.py\<close>).
  PyJWT and the HTTP client are not part of the repository: the calls to them are arguments.
  An expiry time is modelled when it is integral; a bracketed host of a URL is taken as an
  address. A validated token names a subject that fits its column, under the configured
  issuer.
\<close>

section \<open>URLs\<close>

record split_url =
  url_scheme :: string
  url_netloc :: string
  url_path :: string
  url_query :: string
  url_fragment :: string

definition scheme_char :: "char \<Rightarrow> bool" where
  "scheme_char c \<longleftrightarrow> (let n = ord c in 97 \<le> n \<and> n \<le> 122 \<or> 65 \<le> n \<and> n \<le> 90 \<or> 48 \<le> n \<and> n \<le> 57)
     \<or> c = CHR ''+'' \<or> c = CHR ''-'' \<or> c = CHR ''.''"

definition ascii_alpha :: "char \<Rightarrow> bool" where
  "ascii_alpha c \<longleftrightarrow> (let n = ord c in 97 \<le> n \<and> n \<le> 122 \<or> 65 \<le> n \<and> n \<le> 90)"

definition ascii_lower :: "char \<Rightarrow> char" where
  "ascii_lower c = (if 65 \<le> ord c \<and> ord c \<le> 90 then char_of (ord c + 32) else c)"

text \<open>\<open>s.split(c, 1)\<close> with the separator dropped; no separator leaves the second part empty.\<close>

definition split_once :: "char \<Rightarrow> string \<Rightarrow> string \<times> string" where
  "split_once c s = (takeWhile (\<lambda>x. x \<noteq> c) s, tl (dropWhile (\<lambda>x. x \<noteq> c) s))"

text \<open>\<open>urllib.parse.urlsplit\<close>.\<close>

definition urlsplit :: "string \<Rightarrow> exn + split_url" where
  "urlsplit s =
     (let url = filter (\<lambda>c. c \<notin> {CHR 0x09, CHR 0x0A, CHR 0x0D}) (dropWhile (\<lambda>c. ord c \<le> 32) s);
          before = takeWhile (\<lambda>c. c \<noteq> CHR '':'') url;
          has_scheme = (before \<noteq> url \<and> before \<noteq> [] \<and> ascii_alpha (hd before) \<and> list_all scheme_char before);
          scheme = (if has_scheme then map ascii_lower before else []);
          rest = (if has_scheme then drop (Suc (length before)) url else url);
          slashes = starts_with rest ''//'';
          netloc = (if slashes then takeWhile (\<lambda>c. c \<notin> {CHR ''/'', CHR ''?'', CHR ''#''}) (drop 2 rest) else []);
          rest = (if slashes then drop (2 + length netloc) rest else rest);
          (rest, fragment) = split_once (CHR ''#'') rest;
          (path, query) = split_once (CHR ''?'') rest
      in if (CHR ''['' \<in> set netloc) \<noteq> (CHR '']'' \<in> set netloc) then Inl (ValueError ''Invalid IPv6 URL'')
         else Inr \<lparr>url_scheme = scheme, url_netloc = netloc, url_path = path, url_query = query, url_fragment = fragment\<rparr>)"

definition is_absolute_http_url :: "string \<Rightarrow> exn + bool" where
  "is_absolute_http_url s =
     bind_res (urlsplit s) (\<lambda>u.
       Inr (url_scheme u \<in> {''http'', ''https''} \<and> url_netloc u \<noteq> [] \<and> url_fragment u = []))"

section \<open>Settings\<close>

definition validate_oidc_issuer_url :: "string \<Rightarrow> exn + string" where
  "validate_oidc_issuer_url s =
     (let normalized = py_strip s in
      bind_res (urlsplit normalized) (\<lambda>u.
        if url_scheme u \<notin> {''http'', ''https''} \<or> url_netloc u = [] \<or> url_query u \<noteq> [] \<or> url_fragment u \<noteq> []
        then Inl (ValueError ''OIDC issuer must be an absolute HTTP(S) URL'')
        else Inr normalized))"

definition validate_oidc_audience :: "string \<Rightarrow> exn + string" where
  "validate_oidc_audience s =
     (let normalized = py_strip s in
      if normalized = [] then Inl (ValueError ''OIDC audience must not be empty'') else Inr normalized)"

definition asymmetric_algorithms :: "string list" where
  "asymmetric_algorithms = [''RS256'', ''RS384'', ''RS512'', ''PS256'', ''PS384'', ''PS512'',
     ''ES256'', ''ES384'', ''ES512'', ''EdDSA'']"

definition validate_oidc_algorithms :: "string list \<Rightarrow> exn + string list" where
  "validate_oidc_algorithms algs =
     (if algs = [] \<or> list_ex (\<lambda>a. a \<notin> set asymmetric_algorithms) algs
      then Inl (ValueError ''OIDC algorithms must be supported asymmetric algorithms'') else Inr algs)"

record oidc_settings =
  os_issuer_url :: string
  os_audience :: string
  os_allowed_algorithms :: "string list"
  os_clock_skew_seconds :: int
  os_jwks_cache_seconds :: int

definition make_oidc_settings :: "string \<Rightarrow> string \<Rightarrow> string list \<Rightarrow> int \<Rightarrow> int \<Rightarrow> exn + oidc_settings" where
  "make_oidc_settings issuer audience algs skew cache =
     bind_res (validate_oidc_issuer_url issuer) (\<lambda>i.
     bind_res (validate_oidc_audience audience) (\<lambda>a.
     bind_res (validate_oidc_algorithms algs) (\<lambda>al.
     bind_res (require (0 \<le> skew \<and> skew \<le> 300) (ValueError ''oidc_clock_skew_seconds'')) (\<lambda>_.
     bind_res (require (0 < cache \<and> cache \<le> 3600) (ValueError ''oidc_jwks_cache_seconds'')) (\<lambda>_.
     Inr \<lparr>os_issuer_url = i, os_audience = a, os_allowed_algorithms = al, os_clock_skew_seconds = skew,
       os_jwks_cache_seconds = cache\<rparr>)))))"

text \<open>The TLS identity of the Kafka processes; a file setting is \<open>None\<close> or an existing path.\<close>

record kafka_settings =
  ks_security_protocol :: string
  ks_ssl_ca_file :: "string option"
  ks_ssl_certificate_file :: "string option"
  ks_ssl_key_file :: "string option"

definition tls_files :: "kafka_settings \<Rightarrow> string option list" where
  "tls_files k = [ks_ssl_ca_file k, ks_ssl_certificate_file k, ks_ssl_key_file k]"

definition validate_tls_identity :: "kafka_settings \<Rightarrow> exn + kafka_settings" where
  "validate_tls_identity k =
     (if ks_security_protocol k = ''SSL'' \<and> \<not> list_all (\<lambda>f. f \<noteq> None) (tls_files k)
      then Inl (ValueError ''SSL requires CA, client certificate and private key files'')
      else if ks_security_protocol k = ''PLAINTEXT'' \<and> list_ex (\<lambda>f. f \<noteq> None) (tls_files k)
      then Inl (ValueError ''TLS files require KAFKA_SECURITY_PROTOCOL=SSL'')
      else Inr k)"

definition security_config :: "kafka_settings option \<Rightarrow> json_dict" where
  "security_config settings =
     (case settings of
        None \<Rightarrow> [(''security.protocol'', JStr ''PLAINTEXT'')]
      | Some k \<Rightarrow>
          if ks_security_protocol k = ''PLAINTEXT'' then [(''security.protocol'', JStr ''PLAINTEXT'')]
          else
            (let text = (\<lambda>f. JStr (case f of Some p \<Rightarrow> p | None \<Rightarrow> ''None'')) in
             [(''security.protocol'', JStr ''SSL''), (''ssl.ca.location'', text (ks_ssl_ca_file k)),
              (''ssl.certificate.location'', text (ks_ssl_certificate_file k)), (''ssl.key.location'', text (ks_ssl_key_file k)),
              (''enable.ssl.certificate.verification'', JBool True),
              (''ssl.endpoint.identification.algorithm'', JStr ''https'')]))"

definition validate_kubernetes_auth :: "string option \<Rightarrow> string option \<Rightarrow> exn + unit" where
  "validate_kubernetes_auth kubeconfig kube_context =
     require ((kubeconfig = None) = (kube_context = None))
       (ValueError ''Set both kubeconfig and context for local access, or neither for in-cluster access'')"

text \<open>\<open>KubernetesJobs.connect\<close> chooses the in-cluster configuration or a named context.\<close>

datatype kube_config = InCluster | KubeContext string string

definition connect_config :: "string option \<Rightarrow> string option \<Rightarrow> exn + kube_config" where
  "connect_config kubeconfig kube_context =
     (case (kubeconfig, kube_context) of
        (None, None) \<Rightarrow> Inr InCluster
      | (Some f, Some c) \<Rightarrow> Inr (KubeContext f c)
      | _ \<Rightarrow> Inl (ValueError ''Kubeconfig and context must be provided together''))"

section \<open>Discovery\<close>

datatype jwt_error = InvalidTokenError | PyJWKClientConnectionError | PyJWKError | PyJWKSetError | PyJWKClientError

text \<open>
  A fetched document: the request failed, or so many bytes were read and parsed. Bytes that
  are not UTF-8 raise an exception the code does not expect.
\<close>

datatype parsed = JsonDecodeError | UnicodeDecodeError | Parsed json

datatype fetched = FetchFailed | Fetched nat parsed

record 'k oidc_env =
  unverified_header :: "string \<Rightarrow> jwt_error + json_dict"
  fetch_document :: "string \<Rightarrow> fetched"
  signing_key :: "string \<Rightarrow> string \<Rightarrow> jwt_error + 'k"
  jwt_decode :: "string \<Rightarrow> 'k \<Rightarrow> string list \<Rightarrow> string \<Rightarrow> string \<Rightarrow> int \<Rightarrow> string list \<Rightarrow> jwt_error + json_dict"

definition MAX_DISCOVERY_DOCUMENT_BYTES :: nat where "MAX_DISCOVERY_DOCUMENT_BYTES = 1048576"

definition discovery_url :: "oidc_settings \<Rightarrow> string" where
  "discovery_url c = rev (dropWhile (\<lambda>x. x = CHR ''/'') (rev (os_issuer_url c))) @ ''/.well-known/openid-configuration''"

definition discover_jwks_uri :: "'k oidc_env \<Rightarrow> oidc_settings \<Rightarrow> exn + string" where
  "discover_jwks_uri env c =
     (case fetch_document env (discovery_url c) of
        FetchFailed \<Rightarrow> Inl IdentityProviderUnavailableError
      | Fetched n document \<Rightarrow>
          if n > MAX_DISCOVERY_DOCUMENT_BYTES then Inl IdentityProviderUnavailableError
          else case document of
            JsonDecodeError \<Rightarrow> Inl IdentityProviderUnavailableError
          | UnicodeDecodeError \<Rightarrow> Inl (ValueError ''invalid start byte'')
          | Parsed (JObj d) \<Rightarrow>
              if map_of d ''issuer'' \<noteq> Some (JStr (os_issuer_url c)) then Inl IdentityProviderUnavailableError
              else (case map_of d ''jwks_uri'' of
                  Some (JStr uri) \<Rightarrow> bind_res (is_absolute_http_url uri) (\<lambda>ok.
                    if ok then Inr uri else Inl IdentityProviderUnavailableError)
                | _ \<Rightarrow> Inl IdentityProviderUnavailableError)
          | Parsed _ \<Rightarrow> Inl IdentityProviderUnavailableError)"

text \<open>The client is created once, for the discovered address; a failed discovery is tried again.\<close>

definition get_jwks_client :: "'k oidc_env \<Rightarrow> oidc_settings \<Rightarrow> string option \<Rightarrow> (exn + string) \<times> string option" where
  "get_jwks_client env c client =
     (case client of
        Some uri \<Rightarrow> (Inr uri, client)
      | None \<Rightarrow> (case discover_jwks_uri env c of Inl e \<Rightarrow> (Inl e, None) | Inr uri \<Rightarrow> (Inr uri, Some uri)))"

section \<open>Validation\<close>

definition optional_profile_claim :: "json_dict \<Rightarrow> string \<Rightarrow> string option" where
  "optional_profile_claim claims name =
     (case map_of claims name of
        Some (JStr s) \<Rightarrow> if py_strip s = [] then None else Some s
      | _ \<Rightarrow> None)"

definition key_error :: "jwt_error \<Rightarrow> exn" where
  "key_error e = (if e \<in> {PyJWKClientConnectionError, PyJWKError, PyJWKSetError}
     then IdentityProviderUnavailableError else InvalidAccessTokenError)"

definition identity_of_claims :: "json_dict \<Rightarrow> exn + validated_identity" where
  "identity_of_claims claims =
     (case map_of claims ''sub'' of
        Some (JStr subject) \<Rightarrow>
          if subject = [] \<or> length subject > 255 then Inl InvalidAccessTokenError
          else (case map_of claims ''iss'' of
              Some (JStr issuer) \<Rightarrow>
                (case map_of claims ''exp'' of
                   Some (JInt expires) \<Rightarrow> Inr \<lparr>vi_issuer = issuer, vi_subject = subject,
                     vi_email = optional_profile_claim claims ''email'',
                     vi_display_name = (case optional_profile_claim claims ''name'' of
                       Some n \<Rightarrow> Some n | None \<Rightarrow> optional_profile_claim claims ''preferred_username''),
                     vi_expires_at = Some expires\<rparr>
                 | None \<Rightarrow> Inl (KeyError ''exp'')
                 | _ \<Rightarrow> Inl TypeError)
            | _ \<Rightarrow> Inl InvalidAccessTokenError)
      | _ \<Rightarrow> Inl InvalidAccessTokenError)"

definition validate_token :: "'k oidc_env \<Rightarrow> oidc_settings \<Rightarrow> string \<Rightarrow> string option
    \<Rightarrow> (exn + validated_identity) \<times> string option" where
  "validate_token env c token client =
     (case unverified_header env token of
        Inl _ \<Rightarrow> (Inl InvalidAccessTokenError, client)
      | Inr header \<Rightarrow>
          if \<not> (\<exists>a \<in> set (os_allowed_algorithms c). map_of header ''alg'' = Some (JStr a))
            \<or> \<not> (case map_of header ''kid'' of Some (JStr k) \<Rightarrow> k \<noteq> [] | _ \<Rightarrow> False)
          then (Inl InvalidAccessTokenError, client)
          else (case get_jwks_client env c client of
              (Inl e, client') \<Rightarrow> (Inl e, client')
            | (Inr uri, client') \<Rightarrow>
                ((case signing_key env uri token of
                    Inl e \<Rightarrow> Inl (key_error e)
                  | Inr key \<Rightarrow>
                      (case jwt_decode env token key (os_allowed_algorithms c) (os_audience c) (os_issuer_url c)
                           (os_clock_skew_seconds c) [''iss'', ''sub'', ''aud'', ''exp''] of
                         Inl e \<Rightarrow> Inl (key_error e)
                       | Inr claims \<Rightarrow> identity_of_claims claims)), client')))"

section \<open>Facts\<close>

lemma validated_settings:
  assumes "make_oidc_settings issuer audience algs skew cache = Inr c"
  shows "set (os_allowed_algorithms c) \<subseteq> set asymmetric_algorithms" and "os_allowed_algorithms c \<noteq> []"
    and "os_audience c \<noteq> []" and "0 \<le> os_clock_skew_seconds c" and "os_clock_skew_seconds c \<le> 300"
  using assms
  by (auto simp: make_oidc_settings_def validate_oidc_algorithms_def validate_oidc_audience_def Let_def list_ex_iff
      split: if_splits)

lemma optional_profile_claim_nonblank: "optional_profile_claim claims name = Some s \<Longrightarrow> py_strip s \<noteq> []"
  by (auto simp: optional_profile_claim_def split: option.splits json.splits if_splits)

lemma identity_of_claims_Inr:
  assumes "identity_of_claims claims = Inr i"
  shows "map_of claims ''sub'' = Some (JStr (vi_subject i))" and "map_of claims ''iss'' = Some (JStr (vi_issuer i))"
    and "vi_subject i \<noteq> []" and "length (vi_subject i) \<le> 255"
    and "vi_email i = Some e \<Longrightarrow> py_strip e \<noteq> []" and "vi_display_name i = Some e \<Longrightarrow> py_strip e \<noteq> []"
  using assms
  by (auto simp: identity_of_claims_def not_less dest: optional_profile_claim_nonblank
      split: option.splits json.splits if_splits)

lemma validate_token_Inr:
  assumes "validate_token env c token client = (Inr i, client')"
  obtains header alg uri key claims where "unverified_header env token = Inr header"
    and "map_of header ''alg'' = Some (JStr alg)" and "alg \<in> set (os_allowed_algorithms c)"
    and "client' = Some uri" and "client = Some uri \<or> client = None \<and> discover_jwks_uri env c = Inr uri"
    and "signing_key env uri token = Inr key"
    and "jwt_decode env token key (os_allowed_algorithms c) (os_audience c) (os_issuer_url c)
      (os_clock_skew_seconds c) [''iss'', ''sub'', ''aud'', ''exp''] = Inr claims"
    and "identity_of_claims claims = Inr i"
  using assms unfolding validate_token_def get_jwks_client_def
  by (auto split: sum.splits option.splits prod.splits if_splits)

end
