(* ===== verification/Json_Read.thy ===== *)
theory Json_Read
  imports Json
begin

text \<open>
  \<open>json.loads\<close>: the decoding of bytes, the scanner and the decoder of the standard library,
  as far as the repository's readers can tell results apart. A code point of 256 or more is
  read as U+00FF and a float is kept as it was written; the depth at which the
  interpreter gives up is left to the reader (\<open>json_depth\<close> in \<open>Envelope\<close>). Reading inverts \<open>dumps\<close>.
\<close>

section \<open>Decimal numbers\<close>

definition decimal :: "char \<Rightarrow> bool" where
  "decimal c \<longleftrightarrow> 48 \<le> ord c \<and> ord c \<le> 57"

definition read_nat :: "string \<Rightarrow> nat" where
  "read_nat s = foldl (\<lambda>n c. 10 * n + (ord c - 48)) 0 s"

lemma read_nat_snoc [simp]: "read_nat [] = 0" "read_nat (s @ [c]) = 10 * read_nat s + (ord c - 48)" "read_nat [c] = ord c - 48"
  by (simp_all add: read_nat_def)

lemma decimal_digit_char: "n < 10 \<Longrightarrow> decimal (digit_char n)"
  by (simp add: decimal_def ord_digit_char)

lemma show_nat_decimal: "list_all decimal (show_nat n)"
proof (induction n rule: show_nat.induct)
  case (1 n)
  then show ?case by (subst show_nat.simps) (auto simp: decimal_digit_char)
qed

lemma read_show_nat: "read_nat (show_nat n) = n"
proof (induction n rule: show_nat.induct)
  case (1 n)
  show ?case
  proof (cases "n < 10")
    case True
    then show ?thesis by (subst show_nat.simps) (simp add: ord_digit_char)
  next
    case False
    have "read_nat (show_nat n) = 10 * read_nat (show_nat (n div 10)) + n mod 10"
      using False by (subst show_nat.simps) (simp add: ord_digit_char)
    with 1 [OF False] show ?thesis by simp
  qed
qed

lemma show_nat_shape: "show_nat n \<noteq> []" "n \<noteq> 0 \<Longrightarrow> hd (show_nat n) \<noteq> CHR ''0''" "show_nat 0 = ''0''"
proof -
  show ne: "show_nat n \<noteq> []" for n by (subst show_nat.simps) simp
  show "hd (show_nat n) \<noteq> CHR ''0''" if "n \<noteq> 0" using that
  proof (induction n rule: show_nat.induct)
    case (1 n)
    show ?case
    proof (cases "n < 10")
      case True
      with 1(2) show ?thesis
        using ord_inject [of "digit_char n" "CHR ''0''"] by (subst show_nat.simps) (auto simp: ord_digit_char)
    next
      case False
      then have "hd (show_nat n) = hd (show_nat (n div 10))" using ne by (subst show_nat.simps) simp
      with 1(1) [OF False] False show ?thesis by auto
    qed
  qed
  have "digit_char 0 = CHR ''0''" by code_simp
  then show "show_nat 0 = ''0''" by (subst show_nat.simps) simp
qed

section \<open>Text of a byte string\<close>

text \<open>
  Bytes are characters. \<open>detect_encoding\<close> of the library: the width of a unit in bytes, its
  byte order and the length of a byte order mark.
\<close>

definition detect_encoding :: "string \<Rightarrow> nat \<times> bool \<times> nat" where
  "detect_encoding b =
     (let nul = (\<lambda>i. b ! i = CHR 0x00) in
      if starts_with b [CHR 0x00, CHR 0x00, CHR 0xFE, CHR 0xFF] then (4, True, 4)
      else if starts_with b [CHR 0xFF, CHR 0xFE, CHR 0x00, CHR 0x00] then (4, False, 4)
      else if starts_with b [CHR 0xFE, CHR 0xFF] then (2, True, 2)
      else if starts_with b [CHR 0xFF, CHR 0xFE] then (2, False, 2)
      else if starts_with b [CHR 0xEF, CHR 0xBB, CHR 0xBF] then (1, True, 3)
      else if 4 \<le> length b \<and> nul 0 then (if nul 1 then (4, True, 0) else (2, True, 0))
      else if 4 \<le> length b \<and> nul 1 then (if nul 2 \<and> nul 3 then (4, False, 0) else (2, False, 0))
      else if length b = 2 \<and> nul 0 then (2, True, 0)
      else if length b = 2 \<and> nul 1 then (2, False, 0)
      else (1, True, 0))"

definition trail_byte :: "char \<Rightarrow> bool" where
  "trail_byte c \<longleftrightarrow> 128 \<le> ord c \<and> ord c < 192"

fun utf8_points :: "string \<Rightarrow> nat list option" where
  "utf8_points [] = Some []"
| "utf8_points (a # s) =
     (if ord a < 128 then map_option (Cons (ord a)) (utf8_points s)
      else case s of
        b # s1 \<Rightarrow>
          if \<not> trail_byte b then None
          else if 194 \<le> ord a \<and> ord a < 224
          then map_option (Cons ((ord a - 192) * 64 + (ord b - 128))) (utf8_points s1)
          else (case s1 of
              c # s2 \<Rightarrow>
                if \<not> trail_byte c then None
                else if 224 \<le> ord a \<and> ord a < 240 \<and> (ord a = 224 \<longrightarrow> 160 \<le> ord b)
                then map_option (Cons ((ord a - 224) * 4096 + (ord b - 128) * 64 + (ord c - 128))) (utf8_points s2)
                else (case s2 of
                    d # s3 \<Rightarrow>
                      if trail_byte d \<and> 240 \<le> ord a \<and> ord a < 245 \<and> (ord a = 240 \<longrightarrow> 144 \<le> ord b) \<and> (ord a = 244 \<longrightarrow> ord b < 144)
                      then map_option (Cons ((ord a - 240) * 262144 + (ord b - 128) * 4096 + (ord c - 128) * 64 + (ord d - 128)))
                        (utf8_points s3)
                      else None
                  | [] \<Rightarrow> None)
            | [] \<Rightarrow> None)
      | [] \<Rightarrow> None)"

fun units :: "nat \<Rightarrow> bool \<Rightarrow> string \<Rightarrow> nat list option" where
  "units w big [] = Some []"
| "units w big (c # s) =
     (if length s + 1 < w then None
      else
        (let bytes = take w (c # s);
             n = foldl (\<lambda>n b. 256 * n + ord b) 0 (if big then bytes else rev bytes)
         in map_option (Cons n) (units w big (drop (w - 1) s))))"

fun utf16_points :: "nat list \<Rightarrow> nat list" where
  "utf16_points (h # l # us) =
     (if 55296 \<le> h \<and> h < 56320 \<and> 56320 \<le> l \<and> l < 57344
      then (65536 + (h - 55296) * 1024 + (l - 56320)) # utf16_points us
      else h # utf16_points (l # us))"
| "utf16_points us = us"

definition code_char :: "nat \<Rightarrow> char" where
  "code_char n = (if n < 256 then char_of n else CHR 0xFF)"

definition decode_bytes :: "string \<Rightarrow> string option" where
  "decode_bytes b =
     (let (w, big, bom) = detect_encoding b; body = drop bom b in
      map_option (map code_char)
        (if w = 1 then utf8_points body
         else if w = 2 then map_option utf16_points (units 2 big body)
         else (case units 4 big body of
             None \<Rightarrow> None
           | Some ps \<Rightarrow> if list_all (\<lambda>p. p < 1114112) ps then Some ps else None)))"

section \<open>Strings\<close>

fun hex4 :: "string \<Rightarrow> nat option" where
  "hex4 (a # b # c # d # r) =
     (case (hex_val a, hex_val b, hex_val c, hex_val d) of
        (Some w, Some x, Some y, Some z) \<Rightarrow> Some (((w * 16 + x) * 16 + y) * 16 + z)
      | _ \<Rightarrow> None)"
| "hex4 _ = None"

definition unescape :: "char \<Rightarrow> char option" where
  "unescape e = map_of [(CHR 0x22, CHR 0x22), (CHR 0x5C, CHR 0x5C), (CHR ''/'', CHR ''/''), (CHR ''b'', CHR 0x08),
     (CHR ''f'', CHR 0x0C), (CHR ''n'', CHR 0x0A), (CHR ''r'', CHR 0x0D), (CHR ''t'', CHR 0x09)] e"

text \<open>A \<open>\u\<close> escape after the four digits: the code point and how much more it consumes.\<close>

definition surrogate_tail :: "nat \<Rightarrow> string \<Rightarrow> nat option" where
  "surrogate_tail n r =
     (if 55296 \<le> n \<and> n < 56320 \<and> starts_with r [CHR 0x5C, CHR ''u'']
      then (case hex4 (drop 2 r) of None \<Rightarrow> None | Some l \<Rightarrow> Some (if 56320 \<le> l \<and> l < 57344 then 6 else 0))
      else Some 0)"

function scan_string :: "string \<Rightarrow> (string \<times> string) option" where
  "scan_string s =
     (case s of
        [] \<Rightarrow> None
      | c # r \<Rightarrow>
          if c = CHR 0x22 then Some ([], r)
          else if c = CHR 0x5C then
            (case r of
               [] \<Rightarrow> None
             | e # r1 \<Rightarrow>
                 if e = CHR ''u'' then
                   (case hex4 r1 of
                      None \<Rightarrow> None
                    | Some n \<Rightarrow>
                        (case surrogate_tail n (drop 4 r1) of
                           None \<Rightarrow> None
                         | Some k \<Rightarrow> map_option (map_prod (Cons (code_char n)) id) (scan_string (drop (4 + k) r1))))
                 else (case unescape e of
                     None \<Rightarrow> None
                   | Some x \<Rightarrow> map_option (map_prod (Cons x) id) (scan_string r1)))
          else if ord c < 32 then None
          else map_option (map_prod (Cons c) id) (scan_string r))"
  by pat_completeness auto
termination
  by (relation "measure length") auto

declare scan_string.simps [simp del]

section \<open>Numbers\<close>

definition number_prefix :: "string \<Rightarrow> (string \<times> string) option" where
  "number_prefix s =
     (let sign = (if starts_with s ''-'' then ''-'' else []); r = drop (length sign) s in
      case r of
        [] \<Rightarrow> None
      | c # r1 \<Rightarrow>
          if c = CHR ''0'' then Some (sign @ [c], r1)
          else if decimal c then Some (sign @ takeWhile decimal r, dropWhile decimal r)
          else None)"

definition fraction_part :: "string \<Rightarrow> string \<times> string" where
  "fraction_part s =
     (case s of
        c # r \<Rightarrow> if c = CHR ''.'' \<and> takeWhile decimal r \<noteq> [] then (c # takeWhile decimal r, dropWhile decimal r) else ([], s)
      | [] \<Rightarrow> ([], s))"

definition exponent_part :: "string \<Rightarrow> string \<times> string" where
  "exponent_part s =
     (case s of
        c # r \<Rightarrow>
          (let sign = (if starts_with r ''+'' \<or> starts_with r ''-'' then take 1 r else []); t = drop (length sign) r in
           if (c = CHR ''e'' \<or> c = CHR ''E'') \<and> takeWhile decimal t \<noteq> []
           then (c # sign @ takeWhile decimal t, dropWhile decimal t) else ([], s))
      | [] \<Rightarrow> ([], s))"

text \<open>\<open>int\<close> refuses more than 4300 digits.\<close>

definition parse_int :: "string \<Rightarrow> json option" where
  "parse_int t =
     (let digits = (if starts_with t ''-'' then drop 1 t else t) in
      if length digits > 4300 then None
      else Some (JInt (if starts_with t ''-'' then - int (read_nat digits) else int (read_nat digits))))"

definition scan_number :: "string \<Rightarrow> (json \<times> string) option" where
  "scan_number s =
     (case number_prefix s of
        None \<Rightarrow> None
      | Some (whole, r) \<Rightarrow>
          (let (frac, r1) = fraction_part r; (expo, r2) = exponent_part r1 in
           if frac = [] \<and> expo = [] then map_option (\<lambda>j. (j, r)) (parse_int whole)
           else Some (JFloat (whole @ frac @ expo), r2)))"

section \<open>Values\<close>

definition json_space :: "char \<Rightarrow> bool" where
  "json_space c \<longleftrightarrow> c \<in> {CHR '' '', CHR 0x09, CHR 0x0A, CHR 0x0D}"

definition skip_space :: "string \<Rightarrow> string" where
  "skip_space s = dropWhile json_space s"

definition json_words :: "(string \<times> json) list" where
  "json_words = [(''null'', JNull), (''true'', JBool True), (''false'', JBool False)]"

definition json_constants :: "(string \<times> json) list" where
  "json_constants = [(''NaN'', JFloat ''nan''), (''Infinity'', JFloat ''inf''), (''-Infinity'', JFloat ''-inf'')]"

definition scan_word :: "(string \<times> json) list \<Rightarrow> string \<Rightarrow> (json \<times> string) option" where
  "scan_word ws s = map_option (\<lambda>(w, v). (v, drop (length w) s)) (List.find (\<lambda>(w, _). starts_with s w) ws)"

definition scan_atom :: "(string \<times> json) list \<Rightarrow> string \<Rightarrow> (json \<times> string) option" where
  "scan_atom cs s =
     (case scan_word json_words s of
        Some x \<Rightarrow> Some x
      | None \<Rightarrow>
          (case number_prefix s of
             Some _ \<Rightarrow> scan_number s
           | None \<Rightarrow> scan_word cs s))"

text \<open>\<open>dict(pairs)\<close>: a later value replaces an earlier one in its place.\<close>

definition dict_of :: "json_dict \<Rightarrow> json_dict" where
  "dict_of kvs = foldl (\<lambda>d (k, v). AList.update k v d) [] kvs"

text \<open>
  The scanner. \<open>cs\<close> is what \<open>parse_constant\<close> makes of the non-finite numbers: a table, or
  nothing when it raises. Each call is one unit of fuel; twice the length of the text is enough, because
  between two calls at least one character is consumed. \<open>scan_pairs\<close> starts after the
  opening quote of a key.
\<close>

fun scan_value :: "(string \<times> json) list \<Rightarrow> nat \<Rightarrow> string \<Rightarrow> (json \<times> string) option"
  and scan_items :: "(string \<times> json) list \<Rightarrow> nat \<Rightarrow> string \<Rightarrow> (json list \<times> string) option"
  and scan_pairs :: "(string \<times> json) list \<Rightarrow> nat \<Rightarrow> string \<Rightarrow> (json_dict \<times> string) option" where
  "scan_value cs 0 s = None"
| "scan_value cs (Suc n) s =
     (case s of
        [] \<Rightarrow> None
      | c # r \<Rightarrow>
          if c = CHR 0x22 then map_option (map_prod JStr id) (scan_string r)
          else if c = CHR ''{'' then
            (case skip_space r of
               [] \<Rightarrow> None
             | d # r1 \<Rightarrow>
                 if d = CHR ''}'' then Some (JObj [], r1)
                 else if d = CHR 0x22 then map_option (map_prod (JObj \<circ> dict_of) id) (scan_pairs cs n r1)
                 else None)
          else if c = CHR ''['' then
            (case skip_space r of
               [] \<Rightarrow> None
             | d # r1 \<Rightarrow>
                 if d = CHR '']'' then Some (JList [], r1)
                 else map_option (map_prod JList id) (scan_items cs n (d # r1)))
          else scan_atom cs s)"
| "scan_items cs 0 s = None"
| "scan_items cs (Suc n) s =
     (case scan_value cs n s of
        None \<Rightarrow> None
      | Some (v, r) \<Rightarrow>
          (case skip_space r of
             [] \<Rightarrow> None
           | d # r1 \<Rightarrow>
               if d = CHR '']'' then Some ([v], r1)
               else if d = CHR '','' then map_option (map_prod (Cons v) id) (scan_items cs n (skip_space r1))
               else None))"
| "scan_pairs cs 0 s = None"
| "scan_pairs cs (Suc n) s =
     (case scan_string s of
        None \<Rightarrow> None
      | Some (k, r) \<Rightarrow>
          (case skip_space r of
             [] \<Rightarrow> None
           | c # r1 \<Rightarrow>
               if c \<noteq> CHR '':'' then None
               else (case scan_value cs n (skip_space r1) of
                   None \<Rightarrow> None
                 | Some (v, r2) \<Rightarrow>
                     (case skip_space r2 of
                        [] \<Rightarrow> None
                      | d # r3 \<Rightarrow>
                          if d = CHR ''}'' then Some ([(k, v)], r3)
                          else if d = CHR '','' then
                            (case skip_space r3 of
                               [] \<Rightarrow> None
                             | q # r4 \<Rightarrow> if q = CHR 0x22 then map_option (map_prod (Cons (k, v)) id) (scan_pairs cs n r4) else None)
                          else None))))"

definition loads_with :: "(string \<times> json) list \<Rightarrow> string \<Rightarrow> json option" where
  "loads_with cs s =
     (case scan_value cs (2 * length s + 2) (skip_space s) of
        None \<Rightarrow> None
      | Some (v, r) \<Rightarrow> if skip_space r = [] then Some v else None)"

definition loads_text :: "string \<Rightarrow> json option" where
  "loads_text = loads_with json_constants"

text \<open>\<open>json.loads\<close> of bytes; \<open>None\<close> is a \<open>ValueError\<close>.\<close>

definition loads :: "string \<Rightarrow> json option" where
  "loads b = Option.bind (decode_bytes b) loads_text"

section \<open>The fuel is enough\<close>

text \<open>
  Nothing a scanner returns is longer than what it was given, so with fuel above twice the length
  of its text the result no longer depends on the fuel: \<open>None\<close> is an error of the text.
\<close>

lemma skip_space_length: "length (skip_space s) \<le> length s"
  by (simp add: skip_space_def length_dropWhile_le)

lemma skip_space_Cons: "skip_space s = c # r \<Longrightarrow> length r < length s"
  using skip_space_length [of s] by simp

lemma skip_space_shorter: "length r \<le> length (skip_space s) \<Longrightarrow> length r \<le> length s"
  using skip_space_length [of s] by simp

lemma digits_length: "length (dropWhile decimal (drop k t)) \<le> length t"
  using length_dropWhile_le [of decimal "drop k t"] by simp

lemma scan_string_length: "scan_string s = Some (k, r) \<Longrightarrow> length r \<le> length s"
proof (induction s arbitrary: k rule: length_induct)
  case (1 s)
  have IH: "scan_string t = Some (k', r) \<Longrightarrow> length t < length s \<Longrightarrow> length r \<le> length s" for t k'
    using 1(1) by fastforce
  from 1(2) show ?case
    by (subst (asm) scan_string.simps) (auto split: list.splits if_splits option.splits dest!: IH)
qed

lemma scan_word_length: "scan_word ws s = Some (v, r) \<Longrightarrow> length r \<le> length s"
  by (auto simp: scan_word_def)

lemma number_prefix_length: "number_prefix s = Some (t, r) \<Longrightarrow> length r \<le> length s"
  using length_dropWhile_le [of decimal] 
  by (auto simp: number_prefix_def Let_def split: list.splits if_splits) (metis drop_eq_Nil2 length_drop le_SucI diff_le_self le_trans length_Cons nat_le_linear not_less_eq_eq)+

lemma scan_number_length: "scan_number s = Some (v, r) \<Longrightarrow> length r \<le> length s"
proof -
  have frac: "length (snd (fraction_part t)) \<le> length t" for t
    using length_dropWhile_le [of decimal] by (auto simp: fraction_part_def le_SucI split: list.splits)
  have expo: "length (snd (exponent_part t)) \<le> length t" for t
    by (cases t) (auto simp: exponent_part_def Let_def intro: le_SucI digits_length digits_length [of 0, simplified])
  show "scan_number s = Some (v, r) \<Longrightarrow> length r \<le> length s"
    using frac expo number_prefix_length
    by (auto simp: scan_number_def Let_def case_prod_beta split: option.splits if_splits) (meson le_trans)+
qed

lemma scan_atom_length: "scan_atom cs s = Some (v, r) \<Longrightarrow> length r \<le> length s"
  by (auto simp: scan_atom_def split: option.splits dest: scan_word_length scan_number_length)

lemma scan_length:
  shows "scan_value cs n s = Some (v, r) \<Longrightarrow> length r \<le> length s"
    and "scan_items cs n s = Some (vs, r) \<Longrightarrow> length r \<le> length s"
    and "scan_pairs cs n s = Some (kvs, r) \<Longrightarrow> length r \<le> length s"
proof (induction n arbitrary: s v vs kvs r)
  case (Suc n)
  {
    case 1
    then show ?case
      by (auto split: list.splits if_splits dest!: Suc.IH(2,3) scan_string_length skip_space_Cons scan_atom_length)
  next
    case 2
    then show ?case
      by (auto split: option.splits list.splits if_splits dest!: Suc.IH(1,2) skip_space_Cons skip_space_shorter)
  next
    case 3
    then show ?case
      by (auto split: option.splits list.splits if_splits dest!: Suc.IH(1,3) scan_string_length skip_space_Cons skip_space_shorter)
  }
qed simp_all

theorem scan_fuel:
  shows "2 * length s < n \<Longrightarrow> 2 * length s < m \<Longrightarrow> scan_value cs n s = scan_value cs m s"
    and "2 * length s + 1 < n \<Longrightarrow> 2 * length s + 1 < m \<Longrightarrow> scan_items cs n s = scan_items cs m s"
    and "2 * length s < n \<Longrightarrow> 2 * length s < m \<Longrightarrow> scan_pairs cs n s = scan_pairs cs m s"
proof (induction n arbitrary: m s)
  case (Suc n)
  {
    case 1
    then obtain k where m: "m = Suc k" by (cases m) auto
    have "scan_pairs cs n r1 = scan_pairs cs k r1" "scan_items cs n (d # r1) = scan_items cs k (d # r1)"
      if "s = c # r" "skip_space r = d # r1" for c r d r1
      using skip_space_Cons [OF that(2)] 1 m that(1) by (intro Suc.IH; simp)+
    then show ?case unfolding m by (simp split: list.split)
  next
    case 2
    then obtain k where m: "m = Suc k" by (cases m) auto
    have v: "scan_value cs n s = scan_value cs k s" using 2 m by (intro Suc.IH) auto
    have "scan_items cs n (skip_space r1) = scan_items cs k (skip_space r1)"
      if "scan_value cs k s = Some (x, r)" "skip_space r = d # r1" for x r d r1
      using skip_space_Cons [OF that(2)] scan_length(1) [OF that(1)] skip_space_length [of r1] 2 m by (intro Suc.IH) auto
    then show ?case unfolding m by (simp add: v split: option.split list.split prod.split)
  next
    case 3
    then obtain k where m: "m = Suc k" by (cases m) auto
    have v: "scan_value cs n (skip_space r1) = scan_value cs k (skip_space r1)"
      if "scan_string s = Some (x, r)" "skip_space r = d # r1" for x r d r1
      using skip_space_Cons [OF that(2)] scan_string_length [OF that(1)] skip_space_length [of r1] 3 m by (intro Suc.IH) auto
    have "scan_pairs cs n r4 = scan_pairs cs k r4"
      if "scan_string s = Some (x, r)" "skip_space r = d # r1" "scan_value cs k (skip_space r1) = Some (y, r2)"
        "skip_space r2 = e # r3" "skip_space r3 = f # r4" for x r d r1 y r2 e r3 f r4
      using skip_space_Cons [OF that(2)] skip_space_Cons [OF that(4)] skip_space_Cons [OF that(5)]
        scan_string_length [OF that(1)] skip_space_length [of r1] scan_length(1) [OF that(3)] 3 m by (intro Suc.IH) auto
    with v show ?case unfolding m by (simp split: option.split list.split prod.split)
  }
qed simp_all

corollary loads_with_fuel:
  assumes "2 * length s + 2 \<le> n"
  shows "loads_with cs s = (case scan_value cs n (skip_space s) of
      None \<Rightarrow> None | Some (v, r) \<Rightarrow> if skip_space r = [] then Some v else None)"
  unfolding loads_with_def
  using scan_fuel(1) [of "skip_space s" "2 * length s + 2" n cs] skip_space_length [of s] assms by simp

section \<open>Reading what was written\<close>

subsection \<open>Strings\<close>

lemma hex4_digits: "w < 16 \<Longrightarrow> x < 16 \<Longrightarrow> y < 16 \<Longrightarrow> z < 16 \<Longrightarrow>
    hex4 (digit_char w # digit_char x # digit_char y # digit_char z # r) = Some (((w * 16 + x) * 16 + y) * 16 + z)"
  by (simp add: hex_val_digit_char)

lemma hex4_hex_digits:
  assumes "n < 65536" shows "hex4 (hex_digits 4 n @ r) = Some n"
proof -
  have four: "Suc (Suc (Suc (Suc 0))) = 4" by simp
  define a b c where "a = n div 16" and "b = a div 16" and "c = b div 16"
  have "a < 4096" using assms unfolding a_def by (simp add: div_less_iff_less_mult)
  then have "b < 256" unfolding b_def by (simp add: div_less_iff_less_mult)
  then have "c < 16" unfolding c_def by (simp add: div_less_iff_less_mult)
  have "hex_digits (Suc (Suc (Suc (Suc 0)))) n = [digit_char (c mod 16), digit_char (b mod 16), digit_char (a mod 16), digit_char (n mod 16)]"
    by (simp only: hex_digits.simps a_def b_def c_def append.simps)
  then have "hex_digits 4 n = [digit_char c, digit_char (b mod 16), digit_char (a mod 16), digit_char (n mod 16)]"
    using \<open>c < 16\<close> by (simp only: mod_less four)
  moreover have "c * 16 + b mod 16 = b" "b * 16 + a mod 16 = a" "a * 16 + n mod 16 = n"
    unfolding a_def b_def c_def by simp_all
  ultimately show ?thesis
    using hex4_digits [of c "b mod 16" "a mod 16" "n mod 16" r] \<open>c < 16\<close> by simp
qed

lemma code_char_ord [simp]: "code_char (ord c) = c"
  by (simp add: code_char_def ord_less_256)

lemma scan_string_escaped:
  "scan_string (esc_char ascii c @ t) = map_option (map_prod (Cons c) id) (scan_string t)"
proof (cases "esc_char ascii c = [CHR 0x5C, CHR ''u''] @ hex_digits 4 (ord c)")
  case True
  have small: "ord c < 65536" "\<not> 55296 \<le> ord c" using ord_less_256 [of c] by linarith+
  have "scan_string ([CHR 0x5C, CHR ''u''] @ hex_digits 4 (ord c) @ t) = map_option (map_prod (Cons c) id) (scan_string t)"
    using small(2) by (subst scan_string.simps) (simp add: surrogate_tail_def hex4_hex_digits [OF small(1)])
  then show ?thesis unfolding True by (simp only: append_assoc)
next
  case False
  then show ?thesis
    unfolding esc_char_def by (subst scan_string.simps) (auto simp: unescape_def split: if_splits)
qed

lemma scan_string_quoted: "scan_string (concat (map (esc_char ascii) s) @ CHR 0x22 # r) = Some (s, r)"
proof (induction s)
  case Nil
  then show ?case by (subst scan_string.simps) simp
next
  case (Cons c s)
  then show ?case by (simp add: scan_string_escaped)
qed

lemma scan_string_quote_str: "\<exists>t. quote_str ascii s @ r = CHR 0x22 # t \<and> scan_string t = Some (s, r)"
  using scan_string_quoted [of ascii s r] by (simp add: quote_str_def)

subsection \<open>Numbers\<close>

text \<open>What may follow a value inside a document.\<close>

definition value_end :: "string \<Rightarrow> bool" where
  "value_end r \<longleftrightarrow> r = [] \<or> hd r \<in> {CHR '','', CHR '']'', CHR ''}''}"

lemma value_end_simps [simp]: "value_end []" "value_end (CHR '','' # r)" "value_end (CHR '']'' # r)" "value_end (CHR ''}'' # r)"
  by (simp_all add: value_end_def)

lemma value_end_no_decimal: "value_end r \<Longrightarrow> takeWhile decimal r = [] \<and> dropWhile decimal r = r"
  by (cases r) (auto simp: value_end_def decimal_def)

lemma scan_digits:
  assumes "value_end r"
  shows "takeWhile decimal (show_nat n @ r) = show_nat n" and "dropWhile decimal (show_nat n @ r) = r"
proof -
  have "\<And>c. c \<in> set (show_nat n) \<Longrightarrow> decimal c" using show_nat_decimal [of n] by (simp add: list_all_iff)
  then show "takeWhile decimal (show_nat n @ r) = show_nat n" "dropWhile decimal (show_nat n @ r) = r"
    using value_end_no_decimal [OF assms] by simp_all
qed

lemma show_nat_head: "\<exists>c t. show_nat n = c # t \<and> decimal c \<and> (n \<noteq> 0 \<longrightarrow> c \<noteq> CHR ''0'') \<and> (n = 0 \<longrightarrow> t = [])"
  using show_nat_shape(1,2) [of n] show_nat_decimal [of n] by (cases "show_nat n") (auto simp: show_nat_shape(3))

lemma number_prefix_show:
  assumes "value_end r" shows "number_prefix (show_int i @ r) = Some (show_int i, r)"
proof -
  obtain c t where h: "show_nat (nat \<bar>i\<bar>) = c # t" "decimal c" "i \<noteq> 0 \<longrightarrow> c \<noteq> CHR ''0''" "i = 0 \<longrightarrow> t = []"
    using show_nat_head [of "nat \<bar>i\<bar>"] by auto
  note d = scan_digits [OF assms, of "nat \<bar>i\<bar>", unfolded h(1)]
  have "c \<noteq> CHR ''-''" using h(2) by (auto simp: decimal_def)
  then show ?thesis
    using h d show_nat_shape(3)
    by (cases "i < 0"; cases "i = 0") (auto simp: number_prefix_def show_int_def starts_with_def Let_def abs_if)
qed

lemma scan_number_show:
  assumes "value_end r" and "length (show_nat (nat \<bar>i\<bar>)) \<le> 4300"
  shows "scan_number (show_int i @ r) = Some (JInt i, r)"
proof -
  have "fraction_part r = ([], r)" "exponent_part r = ([], r)"
    using assms(1) by (auto simp: fraction_part_def exponent_part_def value_end_def Let_def split: list.splits)
  moreover have "parse_int (show_int i) = Some (JInt i)"
  proof -
    obtain c t where h: "show_nat (nat \<bar>i\<bar>) = c # t" "decimal c" using show_nat_head [of "nat \<bar>i\<bar>"] by auto
    then have "c \<noteq> CHR ''-''" by (auto simp: decimal_def)
    then show ?thesis
      using assms(2) h read_show_nat [of "nat \<bar>i\<bar>"]
      by (cases "i < 0") (simp_all add: parse_int_def show_int_def starts_with_def Let_def)
  qed
  ultimately show ?thesis by (simp add: scan_number_def number_prefix_show [OF assms(1)])
qed

subsection \<open>Values\<close>

text \<open>
  What survives a round trip: distinct keys in every object (a \<open>dict\<close> has no others),
  integers that \<open>int\<close> accepts, no floats (their text is not canonical).
\<close>

primrec readable :: "json \<Rightarrow> bool" where
  "readable JNull = True"
| "readable (JBool b) = True"
| "readable (JInt i) = (length (show_nat (nat \<bar>i\<bar>)) \<le> 4300)"
| "readable (JFloat r) = False"
| "readable (JStr s) = True"
| "readable (JList xs) = list_all id (map readable xs)"
| "readable (JObj kvs) = (distinct (map fst kvs) \<and> list_all snd (map (map_prod id readable) kvs))"

lemma show_int_head: "\<exists>c t. show_int i = c # t \<and> (decimal c \<or> c = CHR ''-'')"
  using show_nat_head [of "nat \<bar>i\<bar>"] by (auto simp: show_int_def)

definition value_start :: "char \<Rightarrow> bool" where
  "value_start c \<longleftrightarrow> \<not> json_space c \<and> c \<notin> {CHR '','', CHR '']'', CHR ''}''}"

lemma dumps_head: "readable j \<Longrightarrow> \<exists>c t. dumps sk ascii j = c # t \<and> value_start c"
proof (cases j)
  case (JInt i)
  then show ?thesis
    using show_int_head [of i] by (auto simp: value_start_def json_space_def decimal_def)
qed (simp_all add: value_start_def json_space_def quote_str_def Let_def)

lemma join_with_head:
  assumes "xs \<noteq> []" and "hd xs = c # t" shows "\<exists>u. join_with s xs = c # u"
  using assms by (cases xs) (auto simp: join_with_Cons)

lemma skip_space_start [simp]: "value_start c \<Longrightarrow> skip_space (c # t) = c # t"
  by (simp add: skip_space_def value_start_def)

lemma skip_space_end [simp]: "value_end r \<Longrightarrow> skip_space r = r"
  by (cases r) (auto simp: skip_space_def value_end_def json_space_def)

lemma scan_word_none [simp]:
  assumes "decimal c \<or> c = CHR ''-''" shows "scan_word json_words (c # t) = None"
  using assms by (auto simp: scan_word_def json_words_def starts_with_def decimal_def)

lemma scan_atom_word:
  "scan_atom cs (''null'' @ r) = Some (JNull, r)" "scan_atom cs (''true'' @ r) = Some (JBool True, r)"
  "scan_atom cs (''false'' @ r) = Some (JBool False, r)"
  by (simp_all add: scan_atom_def scan_word_def json_words_def starts_with_def)

lemma scan_atom_show:
  assumes "value_end r" and "length (show_nat (nat \<bar>i\<bar>)) \<le> 4300"
  shows "scan_atom cs (show_int i @ r) = Some (JInt i, r)"
proof -
  obtain c t where "show_int i = c # t" "decimal c \<or> c = CHR ''-''" using show_int_head by blast
  then have "scan_word json_words (show_int i @ r) = None" by simp
  then show ?thesis
    using number_prefix_show [OF assms(1)] scan_number_show [OF assms] by (simp add: scan_atom_def)
qed

definition reads_back :: "bool \<Rightarrow> json \<Rightarrow> bool" where
  "reads_back ascii j \<longleftrightarrow>
     (\<forall>cs n r. value_end r \<longrightarrow> 2 * length (dumps False ascii j) \<le> n \<longrightarrow>
        scan_value cs n (dumps False ascii j @ r) = Some (j, r))"

lemma reads_backD:
  "reads_back ascii j \<Longrightarrow> value_end r \<Longrightarrow> 2 * length (dumps False ascii j) \<le> n \<Longrightarrow>
     scan_value cs n (dumps False ascii j @ r) = Some (j, r)"
  by (simp add: reads_back_def)

lemma join_with_Cons2: "join_with s (x # y # ys) = x @ s @ join_with s (y # ys)"
  by (simp add: join_with_Cons)

lemma scan_items_dumps:
  assumes "xs \<noteq> []" and "\<forall>x \<in> set xs. readable x \<and> reads_back ascii x"
    and "2 * length (join_with '','' (map (dumps False ascii) xs)) < n"
  shows "scan_items cs n (join_with '','' (map (dumps False ascii) xs) @ CHR '']'' # r) = Some (xs, r)"
  using assms
proof (induction xs arbitrary: n)
  case Nil
  then show ?case by simp
next
  case (Cons x xs)
  obtain m where n: "n = Suc m" using Cons.prems(3) by (cases n) auto
  have rx: "reads_back ascii x" using Cons.prems(2) by simp
  show ?case
  proof (cases xs)
    case Nil
    then show ?thesis using Cons.prems(3) n reads_backD [OF rx, of "CHR '']'' # r" m] by (simp add: join_with_Cons)
  next
    case (Cons y ys)
    let ?t = "join_with '','' (map (dumps False ascii) xs) @ CHR '']'' # r"
    obtain c t where t: "?t = c # t" "value_start c"
    proof -
      have "readable y" using Cons Cons.prems(2) by simp
      then obtain c u where u: "dumps False ascii y = c # u" "value_start c" using dumps_head by blast
      then have "hd (map (dumps False ascii) xs) = c # u" "map (dumps False ascii) xs \<noteq> []" using Cons by simp_all
      then obtain w where "join_with '','' (map (dumps False ascii) xs) = c # w" using join_with_head by blast
      then show thesis using that u(2) by simp
    qed
    moreover have "scan_items cs m ?t = Some (xs, r)"
      using Cons Cons.prems n by (intro Cons.IH) (auto simp: join_with_Cons2)
    moreover have "join_with '','' (map (dumps False ascii) (x # xs)) @ CHR '']'' # r = dumps False ascii x @ CHR '','' # ?t"
      using Cons by (simp add: join_with_Cons2)
    moreover have "2 * length (dumps False ascii x) \<le> m" using Cons.prems(3) n Cons by (simp add: join_with_Cons2)
    ultimately show ?thesis
      using n reads_backD [OF rx, of "CHR '','' # ?t" m] by simp
  qed
qed

definition member_text :: "bool \<Rightarrow> string \<times> json \<Rightarrow> string" where
  "member_text ascii kv = quote_str ascii (fst kv) @ '':'' @ dumps False ascii (snd kv)"

lemma dumps_obj: "dumps False ascii (JObj kvs) = ''{'' @ join_with '','' (map (member_text ascii) kvs) @ ''}''"
  by (simp add: member_text_def [abs_def] comp_def case_prod_beta)

lemma member_text_scan:
  "\<exists>t. member_text ascii (k, v) @ r = CHR 0x22 # t \<and> scan_string t = Some (k, CHR '':'' # dumps False ascii v @ r)"
  using scan_string_quote_str [of ascii k "CHR '':'' # dumps False ascii v @ r"] by (simp add: member_text_def)

lemma scan_pairs_dumps:
  assumes "kvs \<noteq> []" and "\<forall>(k, v) \<in> set kvs. readable v \<and> reads_back ascii v"
    and "2 * length (join_with '','' (map (member_text ascii) kvs)) < n"
  shows "\<exists>t. join_with '','' (map (member_text ascii) kvs) @ CHR ''}'' # r = CHR 0x22 # t \<and>
    scan_pairs cs n t = Some (kvs, r)"
  using assms
proof (induction kvs arbitrary: n)
  case Nil
  then show ?case by simp
next
  case (Cons kv kvs)
  obtain k v where kv: "kv = (k, v)" by (cases kv)
  obtain m where n: "n = Suc m" using Cons.prems(3) by (cases n) auto
  have rv: "readable v" "reads_back ascii v" using Cons.prems(2) kv by auto
  obtain c u where head: "dumps False ascii v = c # u" "value_start c" using dumps_head [OF rv(1)] by blast
  have colon: "skip_space (CHR '':'' # w) = CHR '':'' # w" for w by (simp add: skip_space_def json_space_def)
  have len: "length (member_text ascii kv) \<ge> length (dumps False ascii v)" by (simp add: member_text_def kv)
  show ?case
  proof (cases kvs)
    case Nil
    obtain t where "member_text ascii kv @ CHR ''}'' # r = CHR 0x22 # t"
      "scan_string t = Some (k, CHR '':'' # dumps False ascii v @ CHR ''}'' # r)"
      using member_text_scan kv by blast
    then show ?thesis
      using Nil Cons.prems(3) n len colon head reads_backD [OF rv(2), of "CHR ''}'' # r" m]
      by (simp add: kv)
  next
    case (Cons y ys)
    obtain t where t: "join_with '','' (map (member_text ascii) kvs) @ CHR ''}'' # r = CHR 0x22 # t" "scan_pairs cs m t = Some (kvs, r)"
      using Cons.IH [of m] Cons Cons.prems n by (auto simp: join_with_Cons2)
    obtain w where w: "member_text ascii kv @ CHR '','' # CHR 0x22 # t = CHR 0x22 # w"
      "scan_string w = Some (k, CHR '':'' # dumps False ascii v @ CHR '','' # CHR 0x22 # t)"
      using member_text_scan kv by blast
    have quote: "skip_space (CHR 0x22 # t) = CHR 0x22 # t" by (simp add: skip_space_def json_space_def)
    have "scan_pairs cs n w = Some (kv # kvs, r)"
      using w(2) Cons Cons.prems(3) n len colon head quote t(2) kv reads_backD [OF rv(2), of "CHR '','' # CHR 0x22 # t" m]
      by (simp add: join_with_Cons2)
    moreover have "join_with '','' (map (member_text ascii) (kv # kvs)) @ CHR ''}'' # r = CHR 0x22 # w"
      using Cons t(1) w(1) by (simp add: join_with_Cons2)
    ultimately show ?thesis by blast
  qed
qed

lemma update_fresh: "k \<notin> fst ` set d \<Longrightarrow> AList.update k v d = d @ [(k, v)]"
  by (induction d) auto

lemma dict_of_distinct:
  assumes "distinct (map fst kvs)" shows "dict_of kvs = kvs"
proof -
  have "\<And>d. distinct (map fst (d @ kvs)) \<Longrightarrow> foldl (\<lambda>d (k, v). AList.update k v d) d kvs = d @ kvs"
    using assms
  proof (induction kvs)
    case Nil
    then show ?case by simp
  next
    case (Cons kv kvs)
    have "AList.update (fst kv) (snd kv) d = d @ [kv]"
      using Cons.prems(1) by (cases kv) (auto simp: update_fresh)
    then show ?case using Cons.IH [of "d @ [kv]"] Cons.prems by (simp add: case_prod_beta)
  qed
  then show ?thesis using assms by (simp add: dict_of_def)
qed

lemma scan_value_word:
  assumes "0 < n"
  shows "scan_value cs n (''null'' @ r) = Some (JNull, r)" "scan_value cs n (''true'' @ r) = Some (JBool True, r)"
    "scan_value cs n (''false'' @ r) = Some (JBool False, r)"
  using assms scan_atom_word [of cs r] by (cases n; simp)+

lemma reads_back_int:
  assumes "readable (JInt i)"
  shows "reads_back ascii (JInt i)"
  unfolding reads_back_def
proof (intro allI impI)
  fix cs n r
  assume r: "value_end r" and n: "2 * length (dumps False ascii (JInt i)) \<le> n"
  obtain c t where i: "show_int i = c # t" "decimal c \<or> c = CHR ''-''" using show_int_head by blast
  obtain m where "n = Suc m" using n i(1) by (cases n) auto
  then show "scan_value cs n (dumps False ascii (JInt i) @ r) = Some (JInt i, r)"
    using i scan_atom_show [OF r, of i] assms by (auto simp: decimal_def)
qed

lemma reads_back_str:
  shows "reads_back ascii (JStr s)"
  unfolding reads_back_def
proof (intro allI impI)
  fix cs n r
  assume n: "2 * length (dumps False ascii (JStr s)) \<le> n"
  obtain t where "quote_str ascii s @ r = CHR 0x22 # t" "scan_string t = Some (s, r)" using scan_string_quote_str by blast
  moreover obtain m where "n = Suc m" using n by (cases n) (auto simp: quote_str_def)
  ultimately show "scan_value cs n (dumps False ascii (JStr s) @ r) = Some (JStr s, r)" by simp
qed

lemma reads_back_list:
  assumes all: "\<forall>x \<in> set xs. readable x \<and> reads_back ascii x"
  shows "reads_back ascii (JList xs)"
  unfolding reads_back_def
proof (intro allI impI)
  fix cs n r
  assume n: "2 * length (dumps False ascii (JList xs)) \<le> n"
  then obtain m where m: "n = Suc m" by (cases n) auto
  show "scan_value cs n (dumps False ascii (JList xs) @ r) = Some (JList xs, r)"
  proof (cases xs)
    case Nil
    then show ?thesis by (simp add: m)
  next
    case (Cons x ys)
    let ?t = "join_with '','' (map (dumps False ascii) xs)"
    obtain c u where c: "dumps False ascii x = c # u" "value_start c" using dumps_head all Cons by fastforce
    then obtain w where w: "?t = c # w" using join_with_head [of "map (dumps False ascii) xs" c u "'',''"] Cons by auto
    have "scan_items cs m (?t @ CHR '']'' # r) = Some (xs, r)"
      using Cons all n m by (intro scan_items_dumps) auto
    then show ?thesis using w c(2) m by (auto simp: value_start_def skip_space_def)
  qed
qed

lemma reads_back_obj:
  assumes all: "\<forall>(k, v) \<in> set kvs. readable v \<and> reads_back ascii v" and keys: "distinct (map fst kvs)"
  shows "reads_back ascii (JObj kvs)"
  unfolding reads_back_def
proof (intro allI impI)
  fix cs n r
  assume n: "2 * length (dumps False ascii (JObj kvs)) \<le> n"
  then obtain m where m: "n = Suc m" unfolding dumps_obj by (cases n) auto
  show "scan_value cs n (dumps False ascii (JObj kvs) @ r) = Some (JObj kvs, r)"
  proof (cases "kvs = []")
    case True
    then show ?thesis by (simp add: m)
  next
    case False
    obtain t where "join_with '','' (map (member_text ascii) kvs) @ CHR ''}'' # r = CHR 0x22 # t" "scan_pairs cs m t = Some (kvs, r)"
      using scan_pairs_dumps [OF False all, of m r] n m unfolding dumps_obj by auto
    moreover have "dict_of kvs = kvs" using keys by (rule dict_of_distinct)
    ultimately show ?thesis
      unfolding dumps_obj m by (simp add: skip_space_def json_space_def)
  qed
qed

theorem dumps_reads_back: "readable j \<Longrightarrow> reads_back ascii j"
proof (induction j)
  case JNull
  then show ?case using scan_value_word(1) by (simp add: reads_back_def)
next
  case (JBool b)
  then show ?case using scan_value_word(2,3) by (simp add: reads_back_def)
next
  case (JList xs)
  then show ?case by (intro reads_back_list) (auto simp: list_all_iff)
next
  case (JObj kvs)
  then show ?case by (intro reads_back_obj) (auto simp: list_all_iff)
qed (simp_all only: reads_back_int reads_back_str readable.simps)

theorem loads_with_dumps:
  assumes "readable j" shows "loads_with cs (dumps False ascii j) = Some j"
proof -
  obtain c t where "dumps False ascii j = c # t" "value_start c" using dumps_head [OF assms] by blast
  then have "skip_space (dumps False ascii j) = dumps False ascii j" by simp
  then show ?thesis
    using reads_backD [OF dumps_reads_back [OF assms], of "[]" ascii] by (simp add: loads_with_def del: scan_value.simps)
qed

subsection \<open>Bytes\<close>

definition plain_char :: "char \<Rightarrow> bool" where
  "plain_char c \<longleftrightarrow> 32 \<le> ord c \<and> ord c < 128"

lemma plain_chars [simp]: "\<not> plain_char (CHR 0x00)" "\<not> plain_char (CHR 0xFE)" "\<not> plain_char (CHR 0xFF)" "\<not> plain_char (CHR 0xEF)"
  by (simp_all add: plain_char_def)

lemma utf8_points_plain: "\<forall>c \<in> set b. plain_char c \<Longrightarrow> utf8_points b = Some (map ord b)"
  by (induction b) (auto simp: plain_char_def)

lemma detect_encoding_plain:
  assumes "\<forall>c \<in> set b. plain_char c" shows "detect_encoding b = (1, True, 0)"
proof -
  have "\<not> starts_with b p" if "\<exists>c \<in> set p. \<not> plain_char c" for p using starts_with_set [of b p] assms that by blast
  moreover have nul: "b ! i \<noteq> CHR 0x00" if "i < length b" for i using assms that by (metis nth_mem plain_chars(1))
  from nul have "4 \<le> length b \<Longrightarrow> b ! 0 \<noteq> CHR 0x00 \<and> b ! 1 \<noteq> CHR 0x00"
    "length b = 2 \<Longrightarrow> b ! 0 \<noteq> CHR 0x00 \<and> b ! 1 \<noteq> CHR 0x00" by (intro conjI nul; linarith)+
  ultimately show ?thesis unfolding detect_encoding_def Let_def by auto
qed

lemma loads_plain:
  assumes "\<forall>c \<in> set b. plain_char c" shows "loads b = loads_text b"
proof -
  have "map (code_char \<circ> ord) b = b" by (simp add: comp_def)
  then show ?thesis
    by (simp add: loads_def decode_bytes_def detect_encoding_plain [OF assms] utf8_points_plain [OF assms])
qed

lemma plain_ascii:
  shows "plain_char (CHR 0x22)" "plain_char (CHR ''{'')" "plain_char (CHR ''}'')" "plain_char (CHR ''['')"
    "plain_char (CHR '']'')" "plain_char (CHR '','')" "plain_char (CHR '':'')" "plain_char (CHR ''-'')"
  by (simp_all add: plain_char_def)

lemma esc_char_plain: "\<forall>x \<in> set (esc_char True c). plain_char x"
proof -
  have "\<forall>x \<in> set (hex_digits 4 (ord c)). plain_char x"
    using hex_digits_lower_hex by (fastforce simp: plain_char_def lower_hex_def Let_def)
  then show ?thesis by (auto simp: esc_char_def plain_char_def)
qed

lemma quote_str_plain: "\<forall>x \<in> set (quote_str True s). plain_char x"
  using esc_char_plain by (auto simp: quote_str_def plain_ascii)

lemma show_int_plain: "\<forall>x \<in> set (show_int i). plain_char x"
proof -
  have "plain_char c" if "decimal c" for c using that by (simp add: decimal_def plain_char_def)
  then show ?thesis using show_nat_decimal by (auto simp: show_int_def list_all_iff plain_ascii)
qed

lemma set_join_with: "set (join_with s xs) \<subseteq> set s \<union> \<Union> (set ` set xs)"
  by (induction s xs rule: join_with.induct) auto

lemma dumps_plain: "readable j \<Longrightarrow> \<forall>x \<in> set (dumps False True j). plain_char x"
proof (induction j)
  case (JList xs)
  then show ?case
    using set_join_with [of "'',''" "map (dumps False True) xs"] by (fastforce simp: plain_ascii list_all_iff)
next
  case (JObj kvs)
  have "\<forall>x \<in> set (member_text True (k, v)). plain_char x" if "(k, v) \<in> set kvs" for k v
    using JObj that quote_str_plain by (fastforce simp: member_text_def plain_ascii list_all_iff)
  then show ?case
    unfolding dumps_obj
    using set_join_with [of "'',''" "map (member_text True) kvs"] by (fastforce simp: plain_ascii)
qed (simp_all add: show_int_plain quote_str_plain, simp_all add: plain_char_def)

text \<open>The text \<open>json.dumps\<close> writes, encoded, is read back by \<open>json.loads\<close>.\<close>

theorem loads_dumps: "readable j \<Longrightarrow> loads (dumps False True j) = Some j"
  by (simp add: loads_plain dumps_plain loads_text_def loads_with_dumps)

end
