(* ===== verification/Access.thy ===== *)
theory Access
  imports Oidc Submission Feed Json_Read
begin

text \<open>
  The HTTP boundary: authenticating a request and resolving its user
  (\<open>api/dependencies/authentication.py\<close>), the routes of runs and users
  (\<open>api/routes/runs.py\<close>, \<open>users.py\<close>, \<open>readiness.py\<close>) and the personal event stream
  (\<open>api/routes/run_events.py\<close>). FastAPI's parsing of bodies and its answer to an exception
  (\<open>http_answer\<close>) are taken as documented. A stream is a list of turns of its loop, each
  with the clock readings and answers that turn meets.
\<close>

section \<open>Authentication\<close>

definition unauthorized :: exn where
  "unauthorized = HTTPException 401 ''A valid bearer access token is required.''"

definition auth_unavailable :: exn where
  "auth_unavailable = HTTPException 503 ''Authentication dependencies are unavailable.''"

text \<open>\<open>credentials\<close> are the scheme and the token of the \<open>Authorization\<close> header.\<close>

definition get_validated_identity ::
  "(string \<Rightarrow> 'v \<Rightarrow> (exn + validated_identity) \<times> 'v) \<Rightarrow> (string \<times> string) option \<Rightarrow> 'v \<Rightarrow> (exn + validated_identity) \<times> 'v" where
  "get_validated_identity validate credentials v =
     (case credentials of
        None \<Rightarrow> (Inl unauthorized, v)
      | Some (scheme, token) \<Rightarrow>
          if map ascii_lower scheme \<noteq> ''bearer'' then (Inl unauthorized, v)
          else (case validate token v of
              (Inl InvalidAccessTokenError, v') \<Rightarrow> (Inl unauthorized, v')
            | (Inl IdentityProviderUnavailableError, v') \<Rightarrow> (Inl auth_unavailable, v')
            | (res, v') \<Rightarrow> (res, v')))"

fun resolution_answer :: "exn \<Rightarrow> exn" where
  "resolution_answer InactiveUserError = HTTPException 403 ''The MIC3 account is inactive.''"
| "resolution_answer UserProvisioningConfigurationError = HTTPException 500 ''The user account could not be provisioned.''"
| "resolution_answer IdentityProvisioningError = auth_unavailable"
| "resolution_answer (DBAPIError _) = auth_unavailable"
| "resolution_answer e = e"

text \<open>What a request meets: other requests' commits around its user's transactions.\<close>

record meeting =
  mt_stamp1 :: stamp
  mt_stamp2 :: stamp
  mt_during1 :: "db \<Rightarrow> db"
  mt_during2 :: "db \<Rightarrow> db"

definition resolve_request_user :: "meeting \<Rightarrow> validated_identity \<Rightarrow> db \<Rightarrow> (exn + current_user) \<times> db" where
  "resolve_request_user mt i d =
     (case current_user_of (mt_stamp1 mt) (mt_stamp2 mt) (mt_during1 mt) (mt_during2 mt) i d of
        (Inl e, d') \<Rightarrow> (Inl (resolution_answer e), d')
      | (Inr u, d') \<Rightarrow> (Inr u, d'))"

definition get_current_user ::
  "'k oidc_env \<Rightarrow> oidc_settings \<Rightarrow> meeting \<Rightarrow> (string \<times> string) option \<Rightarrow> string option \<times> db
   \<Rightarrow> (exn + current_user) \<times> string option \<times> db" where
  "get_current_user env c mt credentials = (\<lambda>(client, d).
     case get_validated_identity (validate_token env c) credentials client of
       (Inl e, client') \<Rightarrow> (Inl e, client', d)
     | (Inr i, client') \<Rightarrow> (case resolve_request_user mt i d of (res, d') \<Rightarrow> (res, client', d')))"

section \<open>Routes\<close>

record submit_run_request =
  sq_model_release_id :: uuid
  sq_parameters :: json

record submitted_run_response =
  sp_location :: string
  sp_id :: uuid
  sp_model_release_id :: uuid
  sp_parameters :: json
  sp_status :: string

definition post_run ::
  "run_admission_limits \<Rightarrow> stamp \<Rightarrow> uuid \<Rightarrow> submit_run_request \<Rightarrow> current_user \<Rightarrow> db \<Rightarrow> (exn + submitted_run_response) \<times> db" where
  "post_run limits st i body user d =
     (case submit (Some limits) st i (sq_model_release_id body) (sq_parameters body) (Some (cu_id user)) d of
        (Inl e, d') \<Rightarrow> (Inl e, d')
      | (Inr q, d') \<Rightarrow> (Inr \<lparr>sp_location = ''/runs/'' @ uuid_str (q_id q), sp_id = q_id q,
          sp_model_release_id = q_model_release_id q, sp_parameters = q_parameters q,
          sp_status = status_str (q_status q)\<rparr>, d'))"

text \<open>An endpoint behind \<open>get_current_user\<close>.\<close>

definition with_user ::
  "'k oidc_env \<Rightarrow> oidc_settings \<Rightarrow> meeting \<Rightarrow> (string \<times> string) option
   \<Rightarrow> (current_user \<Rightarrow> db \<Rightarrow> (exn + 'a) \<times> db) \<Rightarrow> string option \<times> db \<Rightarrow> (exn + 'a) \<times> string option \<times> db" where
  "with_user env c mt credentials handler s =
     (case get_current_user env c mt credentials s of
        (Inl e, s') \<Rightarrow> (Inl e, s')
      | (Inr user, client, d) \<Rightarrow> (case handler user d of (res, d') \<Rightarrow> (res, client, d')))"

text \<open>\<open>Query(ge=1, le=100)\<close> and \<open>Query(ge=0)\<close>: FastAPI answers 422 before the handler runs.\<close>

definition check_page :: "int \<Rightarrow> int \<Rightarrow> exn + unit" where
  "check_page limit offset =
     require (1 \<le> limit \<and> limit \<le> 100 \<and> 0 \<le> offset) (HTTPException 422 ''Unprocessable Entity'')"

definition list_runs_route :: "int \<Rightarrow> int \<Rightarrow> current_user \<Rightarrow> db \<Rightarrow> exn + (run_summary list \<times> int \<times> int)" where
  "list_runs_route limit offset user d =
     bind_res (check_page limit offset) (\<lambda>_.
     bind_res (list_own_runs list_owned user limit offset d) (\<lambda>runs. Inr (runs, limit, offset)))"

record user_directory_item =
  ud_id :: uuid
  ud_email :: "string option"
  ud_display_name :: "string option"
  ud_roles :: "string list"
  ud_is_active :: bool

definition directory_item :: "user_account \<Rightarrow> user_directory_item" where
  "directory_item a = \<lparr>ud_id = ua_id a, ud_email = ua_email a, ud_display_name = ua_display_name a,
     ud_roles = sorted_list_of_set (ua_roles a), ud_is_active = ua_is_active a\<rparr>"

definition list_users_route :: "int \<Rightarrow> int \<Rightarrow> current_user \<Rightarrow> db \<Rightarrow> exn + (user_directory_item list \<times> int \<times> int)" where
  "list_users_route limit offset user d =
     bind_res (check_page limit offset) (\<lambda>_.
     bind_res (list_users user limit offset d) (\<lambda>accounts. Inr (map directory_item accounts, limit, offset)))"

record current_user_response =
  cr_id :: uuid
  cr_email :: "string option"
  cr_display_name :: "string option"
  cr_roles :: "string list"

definition read_current_user :: "current_user \<Rightarrow> current_user_response" where
  "read_current_user u = \<lparr>cr_id = cu_id u, cr_email = cu_email u, cr_display_name = cu_display_name u, cr_roles = cu_roles u\<rparr>"

definition readiness :: "exn + unit \<Rightarrow> exn + (nat \<times> string)" where
  "readiness ping =
     (case ping of
        Inr _ \<Rightarrow> Inr (200, ''ready'')
      | Inl (DBAPIError _) \<Rightarrow> Inr (503, ''not_ready'')
      | Inl e \<Rightarrow> Inl e)"

section \<open>Opening a stream\<close>

text \<open>
  \<open>later\<close> is what other threads make of the feed while the snapshot is read.
\<close>

definition open_stream ::
  "int \<Rightarrow> validated_identity \<Rightarrow> meeting \<Rightarrow> nat \<Rightarrow> (uuid \<Rightarrow> db \<Rightarrow> exn + run_detail list) \<Rightarrow> (run_feed \<Rightarrow> run_feed)
   \<Rightarrow> db \<times> run_feed \<Rightarrow> (exn + (current_user \<times> run_detail list)) \<times> db \<times> run_feed" where
  "open_stream now identity mt t read later = (\<lambda>(d, f).
     if vi_expires_at identity = None \<or> the (vi_expires_at identity) \<le> now
     then (Inl (HTTPException 401 ''An unexpired bearer token is required.''), d, f)
     else case resolve_request_user mt identity d of
       (Inl e, d') \<Rightarrow> (Inl e, d', f)
     | (Inr user, d') \<Rightarrow>
         (case subscribe t (cu_id user) f of
            Inl FeedLimitExceeded \<Rightarrow> (Inl (HTTPException 429 ''The stream connection limit has been reached.''), d', f)
          | Inl FeedUnavailable \<Rightarrow> (Inl (HTTPException 503 ''Run notifications are unavailable.''), d', f)
          | Inl e \<Rightarrow> (Inl e, d', f)
          | Inr f1 \<Rightarrow>
              (let f2 = later f1;
                   gone = (Inl (HTTPException 503 ''Run notifications are unavailable.''), d', unsubscribe t f2)
               in case read (cu_id user) d' of
                    Inl _ \<Rightarrow> gone
                  | Inr runs \<Rightarrow>
                      (case find_sub t f2 of
                         None \<Rightarrow> gone
                       | Some s \<Rightarrow>
                           (case snapshot_ready s f2 of
                              Inl _ \<Rightarrow> gone
                            | Inr f3 \<Rightarrow> (Inr (user, runs), d', f3))))))"

section \<open>The stream\<close>

datatype sse_frame =
    Retry nat
  | RunsSnapshot "run_detail list"
  | RunUpdated run_detail
  | Heartbeat
  | StreamError string

text \<open>
  One access check: the clock before, the answer of \<open>is_active\<close>, the clock after.
\<close>

record access_check =
  ck_before :: int
  ck_active :: "exn + bool"
  ck_after :: int

definition access_error :: "int \<Rightarrow> access_check \<Rightarrow> string option" where
  "access_error expires ck =
     (if ck_before ck \<ge> expires then Some ''token_expired''
      else case ck_active ck of
        Inl _ \<Rightarrow> Some ''unavailable''
      | Inr is_act \<Rightarrow>
          if ck_after ck \<ge> expires then Some ''token_expired''
          else if is_act then None else Some ''access_denied'')"

text \<open>
  One turn of the loop: what \<open>drain\<close> returned, the monotonic clock when it looks for a due
  heartbeat, the access check should it make one, the clock of the last check before it sends,
  and the monotonic clock after a heartbeat.
\<close>

record turn =
  tn_error :: "string option"
  tn_updates :: "run_detail list"
  tn_monotonic :: int
  tn_check :: access_check
  tn_time :: int
  tn_monotonic_after :: int

definition HEARTBEAT_SECONDS :: int where "HEARTBEAT_SECONDS = 15"

definition turn_error :: "int \<Rightarrow> int \<Rightarrow> turn \<Rightarrow> string option" where
  "turn_error expires heartbeat_at tn =
     (let due = (tn_monotonic tn \<ge> heartbeat_at);
          e1 = (if tn_error tn = None \<and> (tn_updates tn \<noteq> [] \<or> due) then access_error expires (tn_check tn) else tn_error tn)
      in if e1 = None \<and> tn_time tn \<ge> expires then Some ''token_expired'' else e1)"

fun stream_loop :: "int \<Rightarrow> int \<Rightarrow> turn list \<Rightarrow> sse_frame list" where
  "stream_loop expires heartbeat_at [] = []"
| "stream_loop expires heartbeat_at (tn # turns) =
     (case turn_error expires heartbeat_at tn of
        Some code \<Rightarrow> [StreamError code]
      | None \<Rightarrow>
          map RunUpdated (tn_updates tn)
          @ (if tn_monotonic tn \<ge> heartbeat_at then [Heartbeat] else [])
          @ stream_loop expires
              (if tn_monotonic tn \<ge> heartbeat_at then tn_monotonic_after tn + HEARTBEAT_SECONDS else heartbeat_at) turns)"

definition stream :: "nat \<Rightarrow> int \<Rightarrow> access_check \<Rightarrow> int \<Rightarrow> run_detail list \<Rightarrow> turn list \<Rightarrow> sse_frame list" where
  "stream retry expires ck opened snap turns =
     Retry retry #
     (case access_error expires ck of
        Some code \<Rightarrow> [StreamError code]
      | None \<Rightarrow> RunsSnapshot snap # stream_loop expires (opened + HEARTBEAT_SECONDS) turns)"

text \<open>
  The text of a frame. \<open>run_data\<close> is pydantic's dump of a run.
\<close>

definition frame :: "string \<Rightarrow> json \<Rightarrow> string" where
  "frame event payload =
     ''event: '' @ event @ [CHR 0x0A] @ ''data: '' @ dumps False True payload @ [CHR 0x0A, CHR 0x0A]"

fun frame_text :: "(run_detail \<Rightarrow> json) \<Rightarrow> sse_frame \<Rightarrow> string" where
  "frame_text run_data (Retry ms) = ''retry: '' @ show_nat ms @ [CHR 0x0A, CHR 0x0A]"
| "frame_text run_data (RunsSnapshot runs) = frame ''runs.snapshot'' (JObj [(''items'', JList (map run_data runs))])"
| "frame_text run_data (RunUpdated run) = frame ''run.updated'' (run_data run)"
| "frame_text run_data Heartbeat = '': heartbeat'' @ [CHR 0x0A, CHR 0x0A]"
| "frame_text run_data (StreamError code) = frame ''stream.error'' (JObj [(''code'', JStr code)])"

section \<open>Facts\<close>

lemma access_error_None:
  "access_error expires ck = None \<longleftrightarrow> ck_before ck < expires \<and> ck_active ck = Inr True \<and> ck_after ck < expires"
  by (auto simp: access_error_def split: sum.splits)

lemma turn_error_None:
  assumes "turn_error expires h tn = None"
  shows "tn_error tn = None" and "tn_time tn < expires"
    and "tn_updates tn \<noteq> [] \<Longrightarrow> access_error expires (tn_check tn) = None"
  using assms by (auto simp: turn_error_def Let_def split: if_splits)

lemma stream_loop_updates:
  assumes "RunUpdated x \<in> set (stream_loop expires h turns)"
  shows "\<exists>tn \<in> set turns. x \<in> set (tn_updates tn) \<and> tn_error tn = None \<and> tn_time tn < expires
    \<and> ck_active (tn_check tn) = Inr True \<and> ck_after (tn_check tn) < expires"
  using assms
proof (induction expires h turns rule: stream_loop.induct)
  case (2 expires h tn turns)
  show ?case
  proof (cases "turn_error expires h tn")
    case None
    from 2 None consider "x \<in> set (tn_updates tn)"
      | "RunUpdated x \<in> set (stream_loop expires (if tn_monotonic tn \<ge> h then tn_monotonic_after tn + HEARTBEAT_SECONDS else h) turns)"
      by (auto split: if_splits)
    then show ?thesis
    proof cases
      case 1
      then have "tn_updates tn \<noteq> []" by auto
      with turn_error_None [OF None] 1 show ?thesis by (auto simp: access_error_None)
    next
      case 2
      with "2.IH" [OF None] show ?thesis by auto
    qed
  qed (use 2 in simp)
qed simp

lemma stream_loop_error_last:
  assumes "StreamError code \<in> set (stream_loop expires h turns)"
  shows "\<exists>frames. stream_loop expires h turns = frames @ [StreamError code] \<and> (\<forall>c. StreamError c \<notin> set frames)"
  using assms
proof (induction expires h turns rule: stream_loop.induct)
  case (2 expires h tn turns)
  show ?case
  proof (cases "turn_error expires h tn")
    case None
    let ?h = "if tn_monotonic tn \<ge> h then tn_monotonic_after tn + HEARTBEAT_SECONDS else h"
    let ?pre = "map RunUpdated (tn_updates tn) @ (if tn_monotonic tn \<ge> h then [Heartbeat] else [])"
    from 2(2) None have "StreamError code \<in> set (stream_loop expires ?h turns)" by (auto split: if_splits)
    from "2.IH" [OF None this] obtain frames where f: "stream_loop expires ?h turns = frames @ [StreamError code]"
      "\<forall>c. StreamError c \<notin> set frames" by blast
    with None show ?thesis by (intro exI [of _ "?pre @ frames"]) auto
  qed (use 2(2) in auto)
qed simp

lemma stream_loop_expires:
  assumes "tn \<in> set turns" and "expires \<le> tn_time tn"
  shows "\<exists>code. StreamError code \<in> set (stream_loop expires h turns)"
  using assms(1)
proof (induction turns arbitrary: h)
  case (Cons x turns)
  show ?case
  proof (cases "turn_error expires h x")
    case None
    with turn_error_None(2) [OF None] assms(2) have "x \<noteq> tn" by auto
    with Cons.prems have "tn \<in> set turns" by simp
    with Cons.IH None show ?thesis by simp blast
  qed simp
qed simp

lemma stream_loop_no_snapshot: "RunsSnapshot xs \<notin> set (stream_loop expires h turns)"
  by (induction expires h turns rule: stream_loop.induct) (auto split: option.splits)

lemma get_validated_identity_Inr:
  assumes "get_validated_identity validate credentials v = (Inr i, v')"
  shows "\<exists>scheme token. credentials = Some (scheme, token) \<and> map ascii_lower scheme = ''bearer'' \<and> validate token v = (Inr i, v')"
  using assms by (auto simp: get_validated_identity_def unauthorized_def auth_unavailable_def
      split: option.splits prod.splits if_splits sum.splits exn.splits)

lemma get_current_user_Inr:
  assumes "get_current_user env c mt credentials (client, d) = (Inr u, client', d')"
  shows "\<exists>scheme token i. credentials = Some (scheme, token) \<and> validate_token env c token client = (Inr i, client')
    \<and> current_user_of (mt_stamp1 mt) (mt_stamp2 mt) (mt_during1 mt) (mt_during2 mt) i d = (Inr u, d')"
  using assms
  by (auto simp: get_current_user_def resolve_request_user_def split: prod.splits sum.splits
      dest!: get_validated_identity_Inr)

text \<open>
  Whatever text a run holds, a frame is two lines and a blank one: no payload can end its frame or
  begin another, and the payload of the second line reads back.
\<close>

lemma split_two_lines:
  assumes "c \<notin> set a" and "c \<notin> set b"
  shows "split_on c (a @ c # b @ c # c # rest) = [a, b, []] @ split_on c rest"
  using assms by (simp add: split_on_Cons_sep)

lemma frame_lines:
  assumes "CHR 0x0A \<notin> set event" and "readable payload"
  shows "split_on (CHR 0x0A) (frame event payload @ rest)
    = [''event: '' @ event, ''data: '' @ dumps False True payload, []] @ split_on (CHR 0x0A) rest"
    and "loads (dumps False True payload) = Some payload"
proof -
  have "CHR 0x0A \<notin> set (''data: '' @ dumps False True payload)"
    using dumps_plain [OF assms(2)] by (auto simp: plain_char_def)
  moreover have "CHR 0x0A \<notin> set (''event: '' @ event)" using assms(1) by simp
  moreover have "frame event payload @ rest
      = (''event: '' @ event) @ CHR 0x0A # (''data: '' @ dumps False True payload) @ CHR 0x0A # CHR 0x0A # rest"
    by (simp add: frame_def)
  ultimately show "split_on (CHR 0x0A) (frame event payload @ rest)
    = [''event: '' @ event, ''data: '' @ dumps False True payload, []] @ split_on (CHR 0x0A) rest"
    using split_two_lines by presburger
  show "loads (dumps False True payload) = Some payload" using assms(2) by (rule loads_dumps)
qed

end
