(* ===== verification/Envelope.thy ===== *)
theory Envelope
  imports Json_Read Publication Consumption
begin

text \<open>
  The request envelope (\<open>infrastructure/request_envelope.py\<close>): what the worker makes of the
  key and the value of a Kafka record. Bytes are strings; a missing key or value is \<open>None\<close>.
  \<open>datetime.fromisoformat\<close> differs between versions of the runtime and is the argument
  \<open>parse_time\<close>: \<open>None\<close> when it raises, else whether the result carries an offset. The
  depth at which \<open>json.loads\<close> raises \<open>RecursionError\<close> is the argument
  \<open>max_depth\<close>.
\<close>

section \<open>Decoding\<close>

primrec json_depth :: "json \<Rightarrow> nat" where
  "json_depth JNull = 0"
| "json_depth (JBool b) = 0"
| "json_depth (JInt i) = 0"
| "json_depth (JFloat r) = 0"
| "json_depth (JStr s) = 0"
| "json_depth (JList xs) = Suc (foldr max (map json_depth xs) 0)"
| "json_depth (JObj kvs) = Suc (foldr max (map snd (map (map_prod id json_depth) kvs)) 0)"

definition rejection_for :: "string \<Rightarrow> string \<Rightarrow> rejection" where
  "rejection_for code diagnostic = \<lparr>rej_code = code, rej_diagnostic = diagnostic\<rparr>"

definition not_an_object :: rejection where
  "not_an_object = rejection_for ''invalid_envelope'' ''Expected a JSON object.''"

definition bad_version :: rejection where
  "bad_version = rejection_for ''unsupported_version'' ''Expected schema version 1.''"

definition bad_event :: rejection where
  "bad_event = rejection_for ''unsupported_event'' ''Expected run.requested.''"

definition bad_fields :: rejection where
  "bad_fields = rejection_for ''invalid_envelope'' ''Expected UUID identifiers and a timezone-aware creation time.''"

definition bad_key :: rejection where
  "bad_key = rejection_for ''key_mismatch'' ''Record key must match the run UUID.''"

definition envelope_uuid :: "json_dict \<Rightarrow> string \<Rightarrow> uuid option" where
  "envelope_uuid data k = Option.bind (Option.bind (map_of data k) as_str) uuid_parse"

definition envelope_time :: "(string \<Rightarrow> bool option) \<Rightarrow> json_dict \<Rightarrow> bool" where
  "envelope_time parse_time data \<longleftrightarrow>
     Option.bind (Option.bind (map_of data ''created_at'') as_str) parse_time = Some True"

definition envelope_object :: "nat \<Rightarrow> string option \<Rightarrow> json_dict option" where
  "envelope_object max_depth value =
     (case Option.bind value loads of
        None \<Rightarrow> None
      | Some j \<Rightarrow> if json_depth j \<le> max_depth then as_dict j else None)"

definition decode_request :: "(string \<Rightarrow> bool option) \<Rightarrow> nat \<Rightarrow> string option \<Rightarrow> string option \<Rightarrow> uuid + rejection" where
  "decode_request parse_time max_depth key value =
     (case envelope_object max_depth value of
        None \<Rightarrow> Inr not_an_object
      | Some data \<Rightarrow>
          if map_of data ''schema_version'' \<noteq> Some (JInt 1) then Inr bad_version
          else if map_of data ''event_type'' \<noteq> Some (JStr ''run.requested'') then Inr bad_event
          else
            (case (envelope_uuid data ''event_id'', envelope_uuid data ''run_id'') of
               (Some _, Some run_id) \<Rightarrow>
                 if \<not> envelope_time parse_time data then Inr bad_fields
                 else if key \<noteq> Some (uuid_str run_id) then Inr bad_key
                 else Inl run_id
             | _ \<Rightarrow> Inr bad_fields))"

section \<open>What the decoder promises\<close>

definition envelope_rejections :: "rejection list" where
  "envelope_rejections = [not_an_object, bad_version, bad_event, bad_fields, bad_key]"

lemma envelope_rejections_fit:
  "rej \<in> set envelope_rejections \<Longrightarrow> length (rej_code rej) \<le> 64 \<and> length (rej_diagnostic rej) \<le> 256"
  by (auto simp: envelope_rejections_def not_an_object_def bad_version_def bad_event_def bad_fields_def
      bad_key_def rejection_for_def)

lemma decode_request_key: "decode_request pt md key value = Inl i \<Longrightarrow> key = Some (uuid_str i)"
  by (auto simp: decode_request_def split: option.splits if_splits)

lemma decode_request_rejection: "decode_request pt md key value = Inr rej \<Longrightarrow> rej \<in> set envelope_rejections"
  by (auto simp: decode_request_def envelope_rejections_def split: option.splits if_splits)

section \<open>The publisher's envelope\<close>

definition envelope_json :: "run_event \<Rightarrow> json_dict" where
  "envelope_json e =
     [(''schema_version'', JInt 1), (''event_id'', JStr (uuid_str (ev_id e))),
      (''run_id'', JStr (uuid_str (ev_run_id e))), (''event_type'', JStr (ev_event_type e)),
      (''created_at'', JStr (isoformat (ev_created_at e)))]"

lemma loads_event_payload: "loads (event_payload e) = Some (JObj (envelope_json e))"
proof -
  have "show_nat 1 = ''1''" by code_simp
  then have "readable (JObj (envelope_json e))" by (simp add: envelope_json_def)
  then show ?thesis using loads_dumps [of "JObj (envelope_json e)"] by (simp add: event_payload_def envelope_json_def)
qed

lemma envelope_object_payload: "0 < md \<Longrightarrow> envelope_object md (Some (event_payload e)) = Some (envelope_json e)"
  by (simp add: envelope_object_def loads_event_payload envelope_json_def)

lemma decode_payload:
  assumes "0 < md" and "pt (isoformat (ev_created_at e)) = Some True"
  shows "decode_request pt md key (Some (event_payload e)) =
     (if ev_event_type e \<noteq> ''run.requested'' then Inr bad_event
      else if key \<noteq> Some (uuid_str (ev_run_id e)) then Inr bad_key else Inl (ev_run_id e))"
  using assms(2) unfolding decode_request_def envelope_object_payload [OF assms(1)]
  by (simp add: envelope_json_def envelope_uuid_def envelope_time_def uuid_roundtrip)

lemma kafka_publish_acknowledged:
  assumes "kafka_publish rt et deadline e w = (Inr u, w')"
  shows "acknowledged w' = acknowledged w @ [kafka_message rt et e]"
  by (rule sql_outbox.publish_ack [OF assms])

lemma record_rejection_total:
  assumes "0 \<le> l_partition l" "l_partition l < 2 ^ 31" "0 \<le> l_offset l" "l_offset l < 2 ^ 63"
    and "length (rej_code rej) \<le> 64" "length (rej_diagnostic rej) \<le> 256"
  obtains d' where "record_rejection st l rej d = (Inr (), d')"
    and "(l_topic l, l_partition l, l_offset l) \<in> location_key ` set (rejected_t d')"
proof -
  obtain d' where b: "record_body st l rej d = Inr ((), d')"
    using assms by (cases "(l_topic l, l_partition l, l_offset l) \<in> location_key ` set (rejected_t d)") (auto simp: record_body_def)
  then have "record_rejection st l rej d = (Inr (), d')" by (simp add: record_rejection_def transaction_commit)
  moreover have "(l_topic l, l_partition l, l_offset l) \<in> location_key ` set (rejected_t d')"
    using b by (auto simp: record_body_def location_key_def split: if_splits)
  ultimately show thesis by (rule that)
qed

end
