(* ===== verification/Processes.thy ===== *)
theory Processes
  imports System Envelope
begin

text \<open>
  The loops of the long-running processes: the worker (\<open>worker.py\<close>) over its Kafka consumer
  (\<open>infrastructure/kafka_consumption.py\<close>), the publisher (\<open>publisher.py\<close>) and the
  execution loop (\<open>execution_loop.py\<close>). A loop is given what each of its turns meets, in
  order; when the list ends the stop event has been set. Between turns other processes commit.
  The worker commits the offset of a record only once the record is settled in the database,
  and never past one that is not; the publisher drains the outbox.
\<close>

section \<open>The Kafka consumer\<close>

record kafka_record =
  kr_location :: record_location
  kr_key :: "string option"
  kr_value :: "string option"

text \<open>A message carries an error, fatal or not, or a record.\<close>

datatype broker_message = BrokerError bool | BrokerRecord kafka_record

fun poll_record :: "broker_message option \<Rightarrow> exn + kafka_record option" where
  "poll_record None = Inr None"
| "poll_record (Some (BrokerError fatal)) = Inl (KafkaException fatal)"
| "poll_record (Some (BrokerRecord r)) = Inr (Some r)"

text \<open>A synchronous commit raises, or answers each offset with an error or none.\<close>

datatype commit_reply = CommitRaises exn | Offsets "bool option list"

definition committed_offset :: "kafka_record \<Rightarrow> record_location" where
  "committed_offset r = (kr_location r)\<lparr>l_offset := l_offset (kr_location r) + 1\<rparr>"

fun commit_record :: "commit_reply \<Rightarrow> exn + unit" where
  "commit_record (CommitRaises e) = Inl e"
| "commit_record (Offsets errors) =
     for_each (\<lambda>e. case e of None \<Rightarrow> Inr () | Some fatal \<Rightarrow> Inl (KafkaException fatal)) errors"

section \<open>The worker\<close>

text \<open>
  What one turn of the inner loop meets: the poll, the monotonic clock when nothing arrived,
  the commits of other processes, the clock of the transaction and the answer to the commit.
\<close>

record polled =
  pl_message :: "exn + broker_message option"
  pl_clock :: int
  pl_others :: "db \<Rightarrow> db"
  pl_stamp :: stamp
  pl_reply :: commit_reply

type_synonym decoder = "string option \<Rightarrow> string option \<Rightarrow> uuid + rejection"

text \<open>An offset the worker asked the broker to commit, with the record and the database then.\<close>

type_synonym commit_request = "record_location \<times> kafka_record \<times> db"

definition handle_record :: "decoder \<Rightarrow> stamp \<Rightarrow> kafka_record \<Rightarrow> db \<Rightarrow> (exn + string) \<times> db" where
  "handle_record decode st r = consume st (kr_location r) (decode (kr_key r) (kr_value r))"

text \<open>The inner loop: an exit code or the exception it raised, and what it asked to commit.\<close>

fun worker_session :: "decoder \<Rightarrow> bool \<Rightarrow> int \<Rightarrow> polled list \<Rightarrow> db \<Rightarrow> (exn + nat) \<times> commit_request list \<times> db" where
  "worker_session decode once deadline [] d = (Inr 0, [], d)"
| "worker_session decode once deadline (p # ps) d =
     (let d1 = pl_others p d in
      case bind_res (pl_message p) poll_record of
        Inl e \<Rightarrow> (Inl e, [], d1)
      | Inr None \<Rightarrow>
          if once \<and> pl_clock p \<ge> deadline then (Inr 0, [], d1) else worker_session decode once deadline ps d1
      | Inr (Some r) \<Rightarrow>
          (case handle_record decode (pl_stamp p) r d1 of
             (Inl e, d2) \<Rightarrow> (Inl e, [], d2)
           | (Inr _, d2) \<Rightarrow>
               (let asked = (committed_offset r, r, d2) in
                case commit_record (pl_reply p) of
                  Inl e \<Rightarrow> (Inl e, [asked], d2)
                | Inr _ \<Rightarrow>
                    if once then (Inr 0, [asked], d2)
                    else (case worker_session decode once deadline ps d2 of
                        (res, cs, d3) \<Rightarrow> (res, asked # cs, d3)))))"

text \<open>A turn of the outer loop: the consumer cannot be created, or gives an idle deadline and polls.\<close>

record worker_turn =
  wt_factory :: "exn + int"
  wt_polls :: "polled list"

definition worker_attempt :: "decoder \<Rightarrow> bool \<Rightarrow> worker_turn \<Rightarrow> db \<Rightarrow> (exn + nat) \<times> commit_request list \<times> db" where
  "worker_attempt decode once t d =
     (case wt_factory t of
        Inl e \<Rightarrow> (Inl e, [], d)
      | Inr deadline \<Rightarrow> worker_session decode once deadline (wt_polls t) d)"

fun worker_run :: "decoder \<Rightarrow> bool \<Rightarrow> worker_turn list \<Rightarrow> db \<Rightarrow> nat \<times> commit_request list list \<times> db" where
  "worker_run decode once [] d = (0, [], d)"
| "worker_run decode once (t # ts) d =
     (case worker_attempt decode once t d of
        (Inr code, cs, d1) \<Rightarrow> (code, [cs], d1)
      | (Inl e, cs, d1) \<Rightarrow>
          if \<not> is_retryable e then (1, [cs], d1)
          else if once then (1, [cs], d1)
          else (case worker_run decode once ts d1 of (code, css, d2) \<Rightarrow> (code, cs # css, d2)))"

section \<open>The publisher\<close>

record publish_round =
  pr_others :: "db \<Rightarrow> db"
  pr_locked :: "uuid \<Rightarrow> bool"
  pr_clock :: "uuid \<Rightarrow> timestamp"
  pr_commit :: "db \<Rightarrow> exn option"

fun caught_by_publisher :: "exn \<Rightarrow> bool" where
  "caught_by_publisher (PublicationError _) = True"
| "caught_by_publisher (DBAPIError _) = True"
| "caught_by_publisher _ = False"

fun publisher_run :: "(run_event \<Rightarrow> 'w \<Rightarrow> (exn + unit) \<times> 'w) \<Rightarrow> int \<Rightarrow> bool \<Rightarrow> publish_round list \<Rightarrow> db \<times> 'w
    \<Rightarrow> (exn + nat) \<times> db \<times> 'w" where
  "publisher_run publish batch once [] (d, w) = (Inr 0, d, w)"
| "publisher_run publish batch once (r # rs) (d, w) =
     (case sql_publish_outbox (pr_locked r) (pr_clock r) (pr_commit r) publish batch (pr_others r d, w) of
        (Inr _, s) \<Rightarrow> if once then (Inr 0, s) else publisher_run publish batch once rs s
      | (Inl e, s) \<Rightarrow>
          if \<not> caught_by_publisher e then (Inl e, s)
          else if once then (Inr 1, s) else publisher_run publish batch once rs s)"

section \<open>The execution loop\<close>

fun infrastructure_down :: "exn \<Rightarrow> bool" where
  "infrastructure_down (InfrastructureUnavailable _) = True"
| "infrastructure_down _ = False"

text \<open>The exit code and whether the loop itself set the stop event.\<close>

fun run_execution :: "('s \<Rightarrow> (exn + unit) \<times> 's) list \<Rightarrow> 's \<Rightarrow> nat \<times> bool \<times> 's" where
  "run_execution [] s = (0, False, s)"
| "run_execution (t # ts) s =
     (case t s of
        (Inr _, s') \<Rightarrow> run_execution ts s'
      | (Inl e, s') \<Rightarrow> if \<not> infrastructure_down e \<and> \<not> is_retryable e then (1, True, s') else run_execution ts s')"

lemma run_execution_code: "fst (run_execution ticks s) \<le> 1"
  by (induction ticks s rule: run_execution.induct) (auto split: prod.splits sum.splits)

section \<open>The worker commits what is settled\<close>

definition records_of :: "polled list \<Rightarrow> kafka_record list" where
  "records_of ps = List.map_filter (\<lambda>p. case pl_message p of Inr (Some (BrokerRecord r)) \<Rightarrow> Some r | _ \<Rightarrow> None) ps"

text \<open>Delivering the record again, at any time, succeeds and changes nothing.\<close>

definition settled :: "decoder \<Rightarrow> kafka_record \<Rightarrow> db \<Rightarrow> bool" where
  "settled decode r d \<longleftrightarrow> (\<forall>st. \<exists>outcome. handle_record decode st r d = (Inr outcome, d))"

lemma handle_record_settles:
  "handle_record decode st r d = (Inr res, d') \<Longrightarrow> settled decode r d'"
  using sql_consumer.redelivery [of st "kr_location r" "decode (kr_key r) (kr_value r)" d res d']
  by (auto simp: settled_def handle_record_def consume_def)

lemma records_of_Cons:
  "records_of (p # ps) = (case pl_message p of Inr (Some (BrokerRecord r)) \<Rightarrow> [r] | _ \<Rightarrow> []) @ records_of ps"
  by (simp add: records_of_def List.map_filter_def split: sum.splits option.splits broker_message.splits)

lemma poll_record_iff [simp]:
  "poll_record m = Inr None \<longleftrightarrow> m = None" "poll_record m = Inr (Some r) \<longleftrightarrow> m = Some (BrokerRecord r)"
  by (auto elim!: poll_record.elims)

lemma worker_session_step:
  assumes "worker_session decode once deadline (p # ps) d = (res, cs, d')"
  obtains (none) "cs = []"
  | (idle) d1 where "records_of (p # ps) = records_of ps" and "worker_session decode once deadline ps d1 = (res, cs, d')"
  | (last) r d2 where "records_of (p # ps) = r # records_of ps" and "settled decode r d2" and "cs = [(committed_offset r, r, d2)]"
  | (more) r d2 cs' where "records_of (p # ps) = r # records_of ps" and "settled decode r d2"
      and "cs = (committed_offset r, r, d2) # cs'" and "worker_session decode once deadline ps d2 = (res, cs', d')"
proof (cases "bind_res (pl_message p) poll_record")
  case (Inl e)
  with assms show ?thesis by (intro none) simp
next
  case (Inr m)
  show ?thesis
  proof (cases m)
    case None
    with Inr have "records_of (p # ps) = records_of ps" by (auto simp: records_of_Cons)
    with assms Inr None show ?thesis by (auto simp: Let_def split: if_splits intro: none idle)
  next
    case (Some r)
    with Inr have rs: "records_of (p # ps) = r # records_of ps" by (auto simp: records_of_Cons)
    obtain out d2 where h: "handle_record decode (pl_stamp p) r (pl_others p d) = (out, d2)" by fastforce
    show ?thesis
    proof (cases out)
      case (Inl e)
      with assms Inr Some h show ?thesis by (intro none) simp
    next
      case out: (Inr y)
      note ok = handle_record_settles [OF h [unfolded out]]
      from assms Inr Some h out show ?thesis
        using last [OF rs ok] more [OF rs ok] by (auto simp: Let_def split: sum.splits if_splits prod.splits)
    qed
  qed
qed

lemma worker_session_commits:
  assumes "worker_session decode once deadline ps d = (res, cs, d')"
  shows "(\<exists>n. map (\<lambda>(_, r, _). r) cs = take n (records_of ps))
    \<and> (\<forall>(l, r, dc) \<in> set cs. l = committed_offset r \<and> settled decode r dc)"
  using assms
proof (induction ps arbitrary: d cs)
  case (Cons p ps)
  from Cons.prems show ?case
  proof (cases rule: worker_session_step)
    case (last r d2)
    then show ?thesis by (auto intro: exI [of _ 1])
  next
    case (more r d2 cs')
    from Cons.IH [OF more(4)] obtain n where "map (\<lambda>(_, r, _). r) cs' = take n (records_of ps)"
      "\<forall>(l, r, dc) \<in> set cs'. l = committed_offset r \<and> settled decode r dc" by blast
    with more show ?thesis by (auto intro!: exI [of _ "Suc n"])
  qed (use Cons.IH in \<open>auto intro: exI [of _ 0]\<close>)
qed simp

lemma worker_session_code: "worker_session decode once deadline ps d = (Inr code, cs, d') \<Longrightarrow> code = 0"
  by (induction decode once deadline ps d arbitrary: cs d' rule: worker_session.induct)
    (auto simp: Let_def split: sum.splits option.splits prod.splits if_splits)

lemma worker_attempt_commits:
  assumes "worker_attempt decode once t d = (res, cs, d')"
  shows "(\<exists>n. map (\<lambda>(_, r, _). r) cs = take n (records_of (wt_polls t)))
    \<and> (\<forall>(l, r, dc) \<in> set cs. l = committed_offset r \<and> settled decode r dc)"
  using assms worker_session_commits
  by (cases "wt_factory t") (auto simp: worker_attempt_def intro: exI [of _ 0])

lemma worker_run_step:
  assumes "worker_run decode once (t # ts) d = (code, css, d')"
  obtains res cs d1 where "worker_attempt decode once t d = (res, cs, d1)" and "code \<le> 1" and "css = [cs]"
  | res cs d1 css' where "worker_attempt decode once t d = (res, cs, d1)" and "css = cs # css'"
      and "worker_run decode once ts d1 = (code, css', d')"
proof (cases "worker_attempt decode once t d")
  case (fields res cs d1)
  show ?thesis
  proof (cases res)
    case (Inl e)
    with assms fields that show ?thesis by (auto split: if_splits prod.splits)
  next
    case (Inr c)
    with fields have "c = 0" by (auto simp: worker_attempt_def split: sum.splits dest: worker_session_code)
    with assms fields Inr that(1) show ?thesis by auto
  qed
qed

lemma worker_run_commits:
  assumes "worker_run decode once ts d = (code, css, d')"
  shows "code \<le> 1 \<and> length css \<le> length ts \<and> (\<forall>k < length css.
    (\<exists>n. map (\<lambda>(_, r, _). r) (css ! k) = take n (records_of (wt_polls (ts ! k))))
    \<and> (\<forall>(l, r, dc) \<in> set (css ! k). l = committed_offset r \<and> settled decode r dc))"
  using assms
proof (induction ts arbitrary: d css)
  case (Cons t ts)
  from Cons.prems show ?case
  proof (cases rule: worker_run_step)
    case (1 res cs d1)
    with worker_attempt_commits [OF 1(1)] show ?thesis by simp
  next
    case (2 res cs d1 css')
    from worker_attempt_commits [OF 2(1)] Cons.IH [OF 2(3)] 2(2) show ?thesis
      by (simp add: nth_Cons split: nat.split)
  qed
qed simp

section \<open>The publisher drains the outbox\<close>

lemma unpublished_mark:
  "unpublished (mark_published clock i d) = filter (\<lambda>e. ob_id e \<noteq> i) (unpublished d)"
proof -
  have "filter (\<lambda>e. ob_published_at e = None) (update_by ob_id i (\<lambda>e. e\<lparr>ob_published_at := Some t\<rparr>) es)
      = filter (\<lambda>e. ob_id e \<noteq> i) (filter (\<lambda>e. ob_published_at e = None) es)" for es :: "outbox_row list" and t
    by (induction es) (auto simp: update_by_def)
  then show ?thesis by (simp add: unpublished_def mark_published_def filter_sort del: filter_filter)
qed

text \<open>The broker acknowledges the next \<open>n\<close> messages before the deadline.\<close>

definition answers :: "int \<Rightarrow> nat \<Rightarrow> broker \<Rightarrow> bool" where
  "answers deadline n w \<longleftrightarrow> n \<le> length (responses w)
     \<and> list_all (\<lambda>r. \<exists>now. now < deadline \<and> r = Polls [(now, Some Acknowledged)]) (take n (responses w))"

lemma answers_kafka_publish:
  assumes "answers deadline (Suc n) w" and "ev_event_type e \<in> set supported_event_types"
  shows "\<exists>w'. kafka_publish rt et deadline e w = (Inr (), w') \<and> answers deadline n w'
    \<and> acknowledged w' = acknowledged w @ [kafka_message rt et e]"
  using assms by (cases "responses w") (auto simp: answers_def kafka_publish_def)

lemma answers_publish_events:
  assumes "answers deadline (length es + k) w" and "\<forall>e \<in> set es. ev_event_type e \<in> set supported_event_types"
  shows "\<exists>w'. publish_events (kafka_publish rt et deadline) (mark_published clock) es d w
      = (Inr (foldl (\<lambda>d e. mark_published clock (ev_id e) d) d es), w') \<and> answers deadline k w'
    \<and> acknowledged w' = acknowledged w @ map (kafka_message rt et) es"
  using assms
proof (induction es arbitrary: d w)
  case (Cons e es)
  from answers_kafka_publish [of deadline "length es + k" w e rt et] Cons.prems obtain w1 where
    w1: "kafka_publish rt et deadline e w = (Inr (), w1)" "answers deadline (length es + k) w1"
      "acknowledged w1 = acknowledged w @ [kafka_message rt et e]" by auto
  from Cons.IH [OF w1(2), of "mark_published clock (ev_id e) d"] Cons.prems(2) w1 show ?case by auto
qed auto

lemma unpublished_marks:
  "unpublished (foldl (\<lambda>d e. mark_published clock (ev_id e) d) d es)
    = filter (\<lambda>x. ob_id x \<notin> ev_id ` set es) (unpublished d)"
proof (induction es arbitrary: d)
  case (Cons e es)
  then show ?case by (simp add: unpublished_mark conj_commute cong: conj_cong)
qed simp

lemma filter_not_taken:
  "distinct (map f xs) \<Longrightarrow> filter (\<lambda>x. f x \<notin> f ` set (take n xs)) xs = drop n xs"
proof -
  assume d: "distinct (map f xs)"
  have "filter (\<lambda>x. f x \<notin> f ` set (take n xs)) (take n xs) = []" by (auto simp: filter_empty_conv)
  moreover have "filter (\<lambda>x. f x \<notin> f ` set (take n xs)) (drop n xs) = drop n xs"
    using set_take_disj_set_drop_if_distinct [OF d, of n n] by (auto simp: filter_id_conv take_map drop_map)
  ultimately show ?thesis by (metis append_Nil append_take_drop_id filter_append)
qed

lemma wf_runs_events:
  assumes "wf_runs d" and "e \<in> set (outbox_t d)" shows "ob_event_type e \<in> set supported_event_types"
proof -
  from wf_runsD(4) [OF assms(1)] assms(2) obtain r where r: "r \<in> set (runs_t d)" "r_id r = ob_run_id e" by auto
  have "ob_event_type e \<in> set (run_events d (r_id r))" using assms(2) r(2) by (auto simp: run_events_def)
  then have "ob_event_type e \<in> set (expected_events r)" using wf_runsD(8) [OF assms(1) r(1)] by simp
  then show ?thesis
    by (auto simp: expected_events_def supported_event_types_def terminal_statuses_def split: if_splits)
qed

lemma wf_runs_mark: "wf_runs d \<Longrightarrow> wf_runs (mark_published clock j d)" (is "_ \<Longrightarrow> wf_runs ?d")
proof -
  assume wf: "wf_runs d"
  have same: "runs_t ?d = runs_t d" "artifacts_t ?d = artifacts_t d" by (simp_all add: mark_published_def)
  have ids: "map ob_id (outbox_t ?d) = map ob_id (outbox_t d)" "map ob_run_id (outbox_t ?d) = map ob_run_id (outbox_t d)"
    by (simp_all add: mark_published_def map_update_by)
  have "ob_run_id ` set (outbox_t ?d) = ob_run_id ` set (outbox_t d)"
    unfolding list.set_map [symmetric] ids ..
  with wf show ?thesis by (simp add: wf_runs_def run_events_mark same ids)
qed

lemma publish_round_drains:
  assumes "wf_runs d" and "1 \<le> n" and "n \<le> 100" and "answers deadline (length (unpublished d)) w"
  shows "\<exists>c d' w'. sql_publish_outbox (\<lambda>_. False) clock (\<lambda>_. None) (kafka_publish rt et deadline) (int n) (d, w) = (Inr c, d', w')
    \<and> unpublished d' = drop n (unpublished d) \<and> answers deadline (length (unpublished d')) w' \<and> wf_runs d'
    \<and> acknowledged w' = acknowledged w @ map (kafka_message rt et) (map event_of_row (take n (unpublished d)))"
proof -
  let ?u = "unpublished d" and ?d' = "foldl (\<lambda>d e. mark_published clock (ev_id e) d) d (map event_of_row (take n (unpublished d)))"
  have "\<forall>e \<in> set (map event_of_row (take n ?u)). ev_event_type e \<in> set supported_event_types"
    using wf_runs_events [OF assms(1)] by (auto simp: event_of_row_def unpublished_def dest!: in_set_takeD)
  moreover have "answers deadline (length (map event_of_row (take n ?u)) + length (drop n ?u)) w"
    using assms(4) by (simp add: min_def)
  ultimately obtain w' where p: "publish_events (kafka_publish rt et deadline) (mark_published clock) (map event_of_row (take n ?u)) d w
      = (Inr ?d', w')" and w': "answers deadline (length (drop n ?u)) w'"
    "acknowledged w' = acknowledged w @ map (kafka_message rt et) (map event_of_row (take n ?u))"
    using answers_publish_events [of deadline "map event_of_row (take n ?u)" "length (drop n ?u)" w rt et clock d] by auto
  have "distinct (map ob_id ?u)"
    using wf_runsD(2) [OF assms(1)] by (simp add: unpublished_def distinct_map inj_on_def)
  then have "filter (\<lambda>x. ob_id x \<notin> ob_id ` set (take n ?u)) ?u = drop n ?u" by (rule filter_not_taken)
  then have "unpublished ?d' = drop n ?u"
    by (simp add: unpublished_marks event_of_row_def image_image)
  moreover have "wf_runs ?d'"
    using publish_events_marks [OF p, of wf_runs] assms(1) wf_runs_mark by blast
  ultimately show ?thesis
    using p w' assms(2,3) by (simp add: sql_publish_outbox_def publish_outbox_def claim_outbox_def)
qed

lemma publisher_run_drains:
  assumes "wf_runs d" and "1 \<le> n" and "n \<le> 100" and "answers deadline (length (unpublished d)) w"
    and "length (unpublished d) \<le> length rs * n"
    and "\<forall>r \<in> set rs. pr_others r = (\<lambda>d. d) \<and> pr_locked r = (\<lambda>_. False) \<and> pr_commit r = (\<lambda>_. None)"
  shows "\<exists>d' w'. publisher_run (kafka_publish rt et deadline) (int n) False rs (d, w) = (Inr 0, d', w')
    \<and> unpublished d' = [] \<and> acknowledged w' = acknowledged w @ map (kafka_message rt et) (map event_of_row (unpublished d))"
  using assms
proof (induction rs arbitrary: d w)
  case (Cons r rs)
  from publish_round_drains [OF Cons.prems(1-4), of "pr_clock r" rt et] Cons.prems(6) obtain c d1 w1 where
    one: "sql_publish_outbox (pr_locked r) (pr_clock r) (pr_commit r) (kafka_publish rt et deadline) (int n) (pr_others r d, w)
        = (Inr c, d1, w1)" and u: "unpublished d1 = drop n (unpublished d)" and a: "answers deadline (length (unpublished d1)) w1"
      and wf: "wf_runs d1" and ack: "acknowledged w1 = acknowledged w @ map (kafka_message rt et) (map event_of_row (take n (unpublished d)))"
    by (auto simp del: map_map)
  have len: "length (unpublished d1) \<le> length rs * n" using Cons.prems(5) by (simp add: u)
  have rs: "\<forall>r \<in> set rs. pr_others r = (\<lambda>d. d) \<and> pr_locked r = (\<lambda>_. False) \<and> pr_commit r = (\<lambda>_. None)"
    using Cons.prems(6) by simp
  from Cons.IH [OF wf Cons.prems(2,3) a len rs] obtain d' w' where
    "publisher_run (kafka_publish rt et deadline) (int n) False rs (d1, w1) = (Inr 0, d', w')" "unpublished d' = []"
    "acknowledged w' = acknowledged w1 @ map (kafka_message rt et) (map event_of_row (unpublished d1))"
    by (elim exE conjE) (rule that)
  moreover have "map event_of_row (unpublished d) = map event_of_row (take n (unpublished d)) @ map event_of_row (unpublished d1)"
    unfolding map_append [symmetric] u by simp
  ultimately show ?case using one ack by (simp only: publisher_run.simps prod.case sum.case if_False map_append append_assoc) simp
qed simp

end
