(* ===== verification/Release.thy ===== *)
theory Release
  imports Kubernetes Json_Read
begin

text \<open>
  The release and delivery tooling: release records and their publication
  (\<open>scripts/release_record.py\<close>), the gates of a delivery (\<open>scripts/execution_delivery.py\<close>)
  and the one-time annotation of an existing installation
  (\<open>scripts/bootstrap_execution_identity.py\<close>). Docker, the GitHub command line and the
  cluster are arguments; a command that fails raises with its standard error.
\<close>

section \<open>Release identities\<close>

definition repositories :: "(string \<times> string) list" where
  "repositories = map (\<lambda>role. (role, ''ghcr.io/transience-mic3/mic3-'' @ role)) [''api'', ''publisher'', ''worker'']"

definition number_rx :: rx where
  "number_rx = Alt (Lit ''0'') (Seq (Cls (\<lambda>c. decimal c \<and> c \<noteq> CHR ''0'')) (Rep decimal 0 None))"

definition version_rx :: rx where
  "version_rx = Seq number_rx (Seq (Lit ''.'') (Seq number_rx (Seq (Lit ''.'') number_rx)))"

definition digest_rx :: rx where
  "digest_rx = Seq (Lit ''sha256:'') (Rep lower_hex 64 (Some 64))"

definition validate_identity :: "string \<Rightarrow> string \<Rightarrow> exn + unit" where
  "validate_identity tag commit =
     bind_res (require (fullmatch (Seq (Lit ''v'') version_rx) tag) (ValueError ''Invalid stable release tag'')) (\<lambda>_.
     require (fullmatch (Rep lower_hex 40 (Some 40)) commit) (ValueError ''Invalid source commit''))"

section \<open>Release records\<close>

definition image_reference :: "string \<Rightarrow> string \<Rightarrow> string" where
  "image_reference repository tag = repository @ '':'' @ drop 1 tag"

definition check_image :: "string \<Rightarrow> string \<times> json \<Rightarrow> exn + unit" where
  "check_image tag = (\<lambda>(role, image).
     case map_of repositories role of
       None \<Rightarrow> Inl (KeyError role)
     | Some repository \<Rightarrow>
         (case image of
            JObj d \<Rightarrow>
              if map_of d ''image_repository'' \<noteq> Some (JStr repository) then Inl (ValueError (''Unexpected '' @ role @ '' repository''))
              else (case map_of d ''image_ref'' of
                  Some (JStr ref) \<Rightarrow> require (fullmatch (Seq (Lit (image_reference repository tag @ ''@'')) digest_rx) ref)
                    (ValueError (''Invalid '' @ role @ '' immutable reference''))
                | _ \<Rightarrow> Inl (ValueError (''Invalid '' @ role @ '' immutable reference'')))
          | _ \<Rightarrow> Inl (ValueError (''Unexpected '' @ role @ '' repository''))))"

definition record_images :: "json_dict \<Rightarrow> exn + json_dict" where
  "record_images record =
     (case map_of record ''format_version'' of
        Some (JInt n) \<Rightarrow>
          if n = 1 then Inr [(''api'', JObj (map (\<lambda>k. (k, case map_of record k of Some v \<Rightarrow> v | None \<Rightarrow> JNull))
            [''image_repository'', ''image_ref'']))]
          else if n = 2 then
            (case map_of record ''images'' of
               Some (JObj images) \<Rightarrow>
                 if set (map fst images) \<noteq> set (map fst repositories) then Inl (ValueError ''All three images are required'')
                 else Inr images
             | _ \<Rightarrow> Inl (ValueError ''All three images are required''))
          else Inl (ValueError ''Unsupported record format'')
      | _ \<Rightarrow> Inl (ValueError ''Invalid record format''))"

definition validate_record :: "json \<Rightarrow> string \<Rightarrow> string \<Rightarrow> exn + json_dict" where
  "validate_record record tag commit =
     bind_res (validate_identity tag commit) (\<lambda>_.
     case record of
       JObj d \<Rightarrow>
         if map_of d ''release_tag'' \<noteq> Some (JStr tag) \<or> map_of d ''commit'' \<noteq> Some (JStr commit)
         then Inl (ValueError ''Release tag/source mismatch'')
         else bind_res (record_images d) (\<lambda>images. bind_res (for_each (check_image tag) images) (\<lambda>_. Inr images))
     | _ \<Rightarrow> Inl AttributeError)"

section \<open>Publication\<close>

datatype script_error = CalledProcessError string | Script exn

record 'w docker =
  manifest_inspect :: "string \<Rightarrow> 'w \<Rightarrow> (string + unit) \<times> 'w"
  image_inspect :: "string \<Rightarrow> 'w \<Rightarrow> (string + json) \<times> 'w"
  push_image :: "string \<Rightarrow> 'w \<Rightarrow> (string + unit) \<times> 'w"

text \<open>Steps on the outside world that may raise.\<close>

definition bind_world :: "('w \<Rightarrow> ('e + 'a) \<times> 'w) \<Rightarrow> ('a \<Rightarrow> 'w \<Rightarrow> ('e + 'b) \<times> 'w) \<Rightarrow> 'w \<Rightarrow> ('e + 'b) \<times> 'w" where
  "bind_world m f w = (case m w of (Inl e, w') \<Rightarrow> (Inl e, w') | (Inr x, w') \<Rightarrow> f x w')"

definition pure_world :: "exn + 'a \<Rightarrow> 'w \<Rightarrow> (script_error + 'a) \<times> 'w" where
  "pure_world r w = (map_sum Script id r, w)"

definition run_command :: "('w \<Rightarrow> (string + 'a) \<times> 'w) \<Rightarrow> 'w \<Rightarrow> (script_error + 'a) \<times> 'w" where
  "run_command c w = map_prod (map_sum CalledProcessError id) id (c w)"

fun each_world :: "('a \<Rightarrow> 'w \<Rightarrow> ('e + 'b) \<times> 'w) \<Rightarrow> 'a list \<Rightarrow> 'w \<Rightarrow> ('e + 'b list) \<times> 'w" where
  "each_world f [] w = (Inr [], w)"
| "each_world f (x # xs) w = bind_world (f x) (\<lambda>y. bind_world (each_world f xs) (\<lambda>ys w'. (Inr (y # ys), w'))) w"

text \<open>A tag may be published only when the registry confirms that it does not exist.\<close>

definition check_absent :: "'w docker \<Rightarrow> string \<Rightarrow> string \<times> string \<Rightarrow> 'w \<Rightarrow> (script_error + unit) \<times> 'w" where
  "check_absent docker tag = (\<lambda>(role, repository) w.
     let ref = image_reference repository tag in
     case manifest_inspect docker ref w of
       (Inr _, w') \<Rightarrow> (Inl (Script (ValueError ''Version image exists; recover release.json from verified evidence or use a new version'')), w')
     | (Inl stderr, w') \<Rightarrow>
         if py_strip stderr \<notin> {''manifest unknown'', ''no such manifest: '' @ ref}
         then (Inl (Script (RuntimeError ''Registry lookup failed; publication refused'')), w')
         else (Inr (), w'))"

fun py_first :: "json \<Rightarrow> exn + json" where
  "py_first (JList (x # _)) = Inr x"
| "py_first (JList []) = Inl IndexError"
| "py_first (JObj _) = Inl (KeyError ''0'')"
| "py_first _ = Inl TypeError"

fun py_falsy :: "json \<Rightarrow> bool" where
  "py_falsy JNull = True"
| "py_falsy (JBool b) = (\<not> b)"
| "py_falsy (JInt n) = (n = 0)"
| "py_falsy (JFloat r) = (r = ''0.0'' \<or> r = ''-0.0'')"
| "py_falsy (JStr s) = (s = [])"
| "py_falsy (JList xs) = (xs = [])"
| "py_falsy (JObj d) = (d = [])"

definition check_local :: "string \<Rightarrow> string \<Rightarrow> string \<Rightarrow> json \<Rightarrow> exn + unit" where
  "check_local tag commit role output =
     bind_res (py_first output) (\<lambda>local.
     bind_res (py_getitem local ''Config'') (\<lambda>config.
     bind_res (py_get config ''Labels'' JNull) (\<lambda>found.
     let labels = (if py_falsy found then JObj [] else found) in
     bind_res (py_getitem local ''Os'') (\<lambda>os.
     bind_res (py_getitem local ''Architecture'') (\<lambda>arch.
     if os \<noteq> JStr ''linux'' \<or> arch \<noteq> JStr ''amd64'' then Inl (ValueError (''Incorrect local '' @ role @ '' artifact''))
     else
       bind_res (py_get labels ''org.opencontainers.image.revision'' JNull) (\<lambda>revision.
       bind_res (py_get labels ''org.opencontainers.image.version'' JNull) (\<lambda>built.
       require (revision = JStr commit \<and> built = JStr (drop 1 tag)) (ValueError (''Incorrect local '' @ role @ '' artifact'')))))))))"

definition inspect_local :: "'w docker \<Rightarrow> string \<Rightarrow> string \<Rightarrow> string \<times> string \<Rightarrow> 'w \<Rightarrow> (script_error + unit) \<times> 'w" where
  "inspect_local docker tag commit = (\<lambda>(role, repository).
     bind_world (run_command (image_inspect docker (image_reference repository tag))) (\<lambda>output.
     pure_world (check_local tag commit role output)))"

fun repo_digest :: "string \<Rightarrow> json \<Rightarrow> exn + string option" where
  "repo_digest repository (JStr v) =
     Inr (if starts_with v (repository @ ''@'') then Some (drop (length repository + 1) v) else None)"
| "repo_digest repository _ = Inl AttributeError"

fun only_digest :: "string \<Rightarrow> string list \<Rightarrow> exn + string" where
  "only_digest role [digest] =
     (if fullmatch digest_rx digest then Inr digest else Inl (ValueError (''Missing or ambiguous published '' @ role @ '' digest'')))"
| "only_digest role _ = Inl (ValueError (''Missing or ambiguous published '' @ role @ '' digest''))"

definition published_digest :: "string \<Rightarrow> string \<Rightarrow> json \<Rightarrow> exn + string" where
  "published_digest role repository output =
     bind_res (py_first output) (\<lambda>local.
     bind_res (py_get local ''RepoDigests'' (JList [])) (\<lambda>ds.
     bind_res (py_list ds) (\<lambda>vs.
     bind_res (map_res (repo_digest repository) vs) (\<lambda>found.
     only_digest role (remdups (List.map_filter id found))))))"

definition push_role :: "'w docker \<Rightarrow> string \<Rightarrow> string \<times> string \<Rightarrow> 'w \<Rightarrow> (script_error + (string \<times> json)) \<times> 'w" where
  "push_role docker tag = (\<lambda>(role, repository).
     let ref = image_reference repository tag in
     bind_world (run_command (push_image docker ref)) (\<lambda>_.
     bind_world (run_command (image_inspect docker ref)) (\<lambda>output.
     bind_world (pure_world (published_digest role repository output)) (\<lambda>digest w.
       (Inr (role, JObj [(''image_repository'', JStr repository), (''image_ref'', JStr (ref @ ''@'' @ digest))]), w)))))"

definition release_json :: "string \<Rightarrow> string \<Rightarrow> json_dict \<Rightarrow> json" where
  "release_json tag commit images =
     JObj [(''format_version'', JInt 2), (''release_tag'', JStr tag), (''commit'', JStr commit), (''images'', JObj images)]"

definition verify_image :: "'w docker \<Rightarrow> string \<times> json \<Rightarrow> 'w \<Rightarrow> (script_error + unit) \<times> 'w" where
  "verify_image docker = (\<lambda>(role, image).
     bind_world (pure_world (py_getitem image ''image_ref'')) (\<lambda>ref.
     case ref of JStr s \<Rightarrow> run_command (manifest_inspect docker s) | _ \<Rightarrow> pure_world (Inl TypeError)))"

text \<open>Everything \<open>publish\<close> checks before its first push.\<close>

definition before_push :: "'w docker \<Rightarrow> string \<Rightarrow> string \<Rightarrow> 'w \<Rightarrow> (script_error + unit) \<times> 'w" where
  "before_push docker tag commit =
     bind_world (pure_world (validate_identity tag commit)) (\<lambda>_.
     bind_world (each_world (check_absent docker tag) repositories) (\<lambda>_.
     bind_world (each_world (inspect_local docker tag commit) repositories) (\<lambda>_ w. (Inr (), w))))"

definition publish_release :: "'w docker \<Rightarrow> string \<Rightarrow> string \<Rightarrow> 'w \<Rightarrow> (script_error + json) \<times> 'w" where
  "publish_release docker tag commit =
     bind_world (before_push docker tag commit) (\<lambda>_.
     bind_world (each_world (push_role docker tag) repositories) (\<lambda>images.
     let record = release_json tag commit images in
     bind_world (pure_world (validate_record record tag commit)) (\<lambda>validated.
     bind_world (each_world (verify_image docker) validated) (\<lambda>_ w. (Inr record, w)))))"

section \<open>An existing release\<close>

text \<open>
  \<open>discover\<close>: whether the release has to be built. \<open>metadata\<close> is the answer of the GitHub
  command, \<open>download\<close> its download and \<open>present\<close> whether the record's file exists then.
\<close>

fun named_record :: "json \<Rightarrow> exn + bool" where
  "named_record (JObj a) = Inr (map_of a ''name'' = Some (JStr ''release.json''))"
| "named_record _ = Inl AttributeError"

definition stable_release :: "json \<Rightarrow> exn + bool" where
  "stable_release metadata =
     bind_res (py_get metadata ''draft'' JNull) (\<lambda>draft.
     bind_res (py_get metadata ''prerelease'' JNull) (\<lambda>pre.
     if draft \<noteq> JBool False \<or> pre \<noteq> JBool False then Inr False
     else
       bind_res (py_get metadata ''assets'' (JList [])) (\<lambda>assets.
       bind_res (py_list assets) (\<lambda>as.
       bind_res (map_res named_record as) (\<lambda>named. Inr (length (filter id named) = 1))))))"

definition discover_release :: "('w \<Rightarrow> (string + json) \<times> 'w) \<Rightarrow> ('w \<Rightarrow> (string + unit) \<times> 'w) \<Rightarrow> ('w \<Rightarrow> bool) \<Rightarrow> 'w
    \<Rightarrow> (script_error + bool) \<times> 'w" where
  "discover_release metadata download present w =
     (case metadata w of
        (Inl stderr, w1) \<Rightarrow>
          if cut_at ''(HTTP 404)'' stderr = None then (Inl (Script (RuntimeError ''GitHub lookup failed; publication refused'')), w1)
          else (Inr True, w1)
      | (Inr document, w1) \<Rightarrow>
          bind_world (pure_world (stable_release document)) (\<lambda>ok.
            if \<not> ok then pure_world (Inl (ValueError ''Existing release must contain exactly one stable release.json''))
            else
              bind_world (run_command download) (\<lambda>_ w2.
                if present w2 then (Inr False, w2)
                else (Inl (Script (ValueError ''Release record download missing'')), w2))) w1)"

section \<open>Delivery gates\<close>

text \<open>\<open>tuple(map(int, value.split('.')))\<close>; lists of numbers compare as tuples do.\<close>

fun version :: "json \<Rightarrow> exn + nat list" where
  "version (JStr s) =
     (if fullmatch version_rx s then Inr (map read_nat (split_on CHR ''.'' s))
      else Inl (ValueError ''Missing/invalid live release identity; bootstrap or recover before delivery''))"
| "version _ = Inl (ValueError ''Missing/invalid live release identity; bootstrap or recover before delivery'')"

text \<open>\<open>{c['name']: c['image'] for c in containers}\<close>, read at a name: the last one counts.\<close>

definition container_image :: "json \<Rightarrow> exn + (json \<times> json)" where
  "container_image c = bind_res (py_getitem c ''name'') (\<lambda>n. bind_res (py_getitem c ''image'') (\<lambda>i. Inr (n, i)))"

definition container_images :: "json \<Rightarrow> exn + (json \<times> json) list" where
  "container_images doc =
     bind_res (py_getitem doc ''spec'') (\<lambda>spec.
     bind_res (py_getitem spec ''template'') (\<lambda>template.
     bind_res (py_getitem template ''spec'') (\<lambda>pod.
     bind_res (py_getitem pod ''containers'') (\<lambda>containers.
     bind_res (py_list containers) (map_res container_image)))))"

definition live_image :: "(json \<times> json) list \<Rightarrow> string \<Rightarrow> json option" where
  "live_image images role = map_of (rev images) (JStr role)"

definition ANNOTATION :: string where "ANNOTATION = ''delivery.mic3.io/''"

definition as_int :: "json \<Rightarrow> exn + int" where
  "as_int j = (case j of JInt n \<Rightarrow> Inr n | JBool b \<Rightarrow> Inr (if b then 1 else 0) | _ \<Rightarrow> Inl TypeError)"

definition rollout_counts :: "string list" where
  "rollout_counts = [''updatedReplicas'', ''readyReplicas'', ''availableReplicas'', ''replicas'']"

definition check_rollout :: "json \<Rightarrow> string \<Rightarrow> bool \<Rightarrow> exn + unit" where
  "check_rollout doc role current =
     bind_res (py_get doc ''status'' (JObj [])) (\<lambda>status.
     bind_res (py_getitem doc ''spec'') (\<lambda>spec.
     bind_res (py_getitem spec ''replicas'') (\<lambda>replicas.
     if \<not> current then Inl (ValueError (''Incomplete rollout: '' @ role))
     else
       bind_res (bind_res (py_get status ''observedGeneration'' (JInt 0)) as_int) (\<lambda>observed.
       bind_res (bind_res (py_getitem doc ''metadata'') (\<lambda>m. bind_res (py_getitem m ''generation'') as_int)) (\<lambda>generation.
       if observed < generation then Inl (ValueError (''Incomplete rollout: '' @ role))
       else
         bind_res (map_res (\<lambda>k. py_get status k (JInt 0)) rollout_counts) (\<lambda>counts.
         require (list_all (\<lambda>n. py_scalar_eq n replicas) counts) (ValueError (''Incomplete rollout: '' @ role))))))))"

definition check_deployment :: "json \<Rightarrow> string \<Rightarrow> string \<Rightarrow> string \<Rightarrow> string \<Rightarrow> bool \<Rightarrow> exn + unit" where
  "check_deployment doc role target_version target_image target_commit deployed =
     bind_res (py_getitem doc ''metadata'') (\<lambda>metadata.
     bind_res (py_get metadata ''annotations'' (JObj [])) (\<lambda>annotations.
     bind_res (py_get annotations (ANNOTATION @ ''version'') JNull) (\<lambda>current.
     bind_res (version current) (\<lambda>live.
     bind_res (version (JStr target_version)) (\<lambda>target.
     if live > target then Inl (ValueError (''Older releases require manual recovery: '' @ role))
     else
       bind_res (container_images doc) (\<lambda>images.
       bind_res (py_get annotations (ANNOTATION @ ''commit'') JNull) (\<lambda>commit.
       if current = JStr target_version
         \<and> (live_image images role \<noteq> Some (JStr target_image) \<or> commit \<noteq> JStr target_commit)
       then Inl (ValueError (''Same version has different image/source: '' @ role))
       else
         bind_res (py_getitem doc ''spec'') (\<lambda>spec.
         bind_res (py_get spec ''replicas'' JNull) (\<lambda>replicas.
         if role \<noteq> ''api'' \<and> \<not> py_scalar_eq replicas (JInt 1)
         then Inl (ValueError (''Execution service is paused or scaled unexpectedly: '' @ role))
         else if deployed
         then check_rollout doc role (current = JStr target_version \<and> live_image images role = Some (JStr target_image))
         else Inr ())))))))))"

definition check_helm_status :: "json \<Rightarrow> exn + unit" where
  "check_helm_status status =
     bind_res (py_getitem status ''info'') (\<lambda>info.
     bind_res (py_getitem info ''status'') (\<lambda>st.
     if st = JStr ''deployed'' \<or> st = JStr ''failed'' then Inr ()
     else case st of JStr s \<Rightarrow> Inl (ValueError (''Helm release needs operator recovery: '' @ s)) | _ \<Rightarrow> Inl TypeError))"

section \<open>Overrides\<close>

fun merge_value :: "json option \<Rightarrow> json \<Rightarrow> json"
  and merge_fields :: "json_dict \<Rightarrow> json_dict \<Rightarrow> json_dict" where
  "merge_value (Some (JObj base)) (JObj override) = JObj (merge_fields base override)"
| "merge_value b v = v"
| "merge_fields base [] = base"
| "merge_fields base ((k, v) # kvs) = merge_fields (AList.update k (merge_value (map_of base k) v) base) kvs"

section \<open>Annotating an existing installation\<close>

definition planned_annotation :: "json_dict \<Rightarrow> json_dict \<Rightarrow> (string \<times> json) list \<Rightarrow> string
    \<Rightarrow> exn + (string \<times> json_dict \<times> json) option" where
  "planned_annotation record images deployments role =
     (case map_of deployments role of
        None \<Rightarrow> Inl (KeyError role)
      | Some doc \<Rightarrow>
          bind_res (container_images doc) (\<lambda>live.
          bind_res (py_getitem (JObj images) role) (\<lambda>image.
          bind_res (py_getitem image ''image_ref'') (\<lambda>ref.
          if live_image live role \<noteq> Some ref then Inl (ValueError (''Live image differs from release record: '' @ role))
          else
            bind_res (py_getitem (JObj record) ''release_tag'') (\<lambda>tag.
            bind_res (py_getitem (JObj record) ''commit'') (\<lambda>commit.
            let expected = [(ANNOTATION @ ''version'', case tag of JStr t \<Rightarrow> JStr (drop 1 t) | _ \<Rightarrow> JNull),
                  (ANNOTATION @ ''commit'', commit), (ANNOTATION @ ''image'', ref)] in
            bind_res (py_getitem doc ''metadata'') (\<lambda>metadata.
            bind_res (py_get metadata ''annotations'' (JObj [])) (\<lambda>annotations.
            case annotations of
              JObj existing \<Rightarrow>
                if list_ex (\<lambda>(k, v). case map_of existing k of None \<Rightarrow> False | Some x \<Rightarrow> x \<noteq> v) expected
                then Inl (ValueError (''Existing release annotation differs: '' @ role))
                else if role = ''api'' then Inr None
                else bind_res (py_getitem metadata ''resourceVersion'') (\<lambda>rv. Inr (Some (role, expected, rv)))
            | _ \<Rightarrow> Inl TypeError))))))))"

definition planned_annotations :: "json \<Rightarrow> (string \<times> json) list \<Rightarrow> exn + (string \<times> json_dict \<times> json) list" where
  "planned_annotations record deployments =
     (case record of
        JObj d \<Rightarrow>
          bind_res (py_getitem record ''release_tag'') (\<lambda>tag.
          bind_res (py_getitem record ''commit'') (\<lambda>commit.
          case (tag, commit) of
            (JStr t, JStr c) \<Rightarrow>
              bind_res (validate_record record t c) (\<lambda>images.
              if set (map fst images) \<noteq> {''api'', ''publisher'', ''worker''}
              then Inl (ValueError ''Bootstrap requires a complete three-image release record'')
              else bind_res (map_res (planned_annotation d images deployments) [''api'', ''publisher'', ''worker''])
                (\<lambda>plans. Inr (List.map_filter id plans)))
          | _ \<Rightarrow> Inl TypeError))
      | _ \<Rightarrow> Inl TypeError)"

section \<open>Versions\<close>

definition canonical :: "string \<Rightarrow> bool" where
  "canonical s \<longleftrightarrow> s \<noteq> [] \<and> list_all decimal s \<and> (s = ''0'' \<or> hd s \<noteq> CHR ''0'')"

lemma number_rx_canonical: "fullmatch number_rx s \<Longrightarrow> canonical s"
  by (auto simp: number_rx_def canonical_def decimal_def elim!: fullmatch_SeqE)

lemma canonical_no_dot: "canonical s \<Longrightarrow> CHR ''.'' \<notin> set s"
  by (auto simp: canonical_def decimal_def list_all_iff)

lemma version_parts:
  assumes "fullmatch version_rx s"
  obtains a b c where "canonical a" "canonical b" "canonical c" "split_on CHR ''.'' s = [a, b, c]"
proof -
  from assms obtain a b c where s: "s = a @ CHR ''.'' # b @ CHR ''.'' # c"
    and k: "canonical a" "canonical b" "canonical c"
    by (auto simp: version_rx_def elim!: fullmatch_SeqE dest!: number_rx_canonical)
  from k have "split_on CHR ''.'' s = [a, b, c]"
    by (simp add: s split_on_Cons_sep split_on_no_sep canonical_no_dot)
  with k that show ?thesis by blast
qed

lemma digit_char_ord: "decimal c \<Longrightarrow> digit_char (ord c - 48) = c"
  by (auto simp: decimal_def digit_char_def)

lemma read_nat_pos: "list_all decimal s \<Longrightarrow> s \<noteq> [] \<Longrightarrow> hd s \<noteq> CHR ''0'' \<Longrightarrow> 0 < read_nat s"
proof (induction s rule: rev_induct)
  case (snoc c s)
  show ?case
  proof (cases "s = []")
    case True
    with snoc.prems have "ord c \<noteq> 48" "48 \<le> ord c"
      using ord_inject [of c "CHR ''0''"] by (auto simp: decimal_def)
    then show ?thesis by (simp add: True)
  qed (use snoc in auto)
qed simp

text \<open>A canonical number is the text its value prints as.\<close>

lemma show_read_nat: "canonical s \<Longrightarrow> show_nat (read_nat s) = s"
proof (induction s rule: rev_induct)
  case (snoc c s)
  then have c: "decimal c" by (simp add: canonical_def)
  then have d: "ord c - 48 < 10" by (auto simp: decimal_def)
  show ?case
  proof (cases "s = []")
    case True
    with d c show ?thesis by (simp add: show_nat.simps [of "ord c - 48"] digit_char_ord)
  next
    case False
    with snoc.prems have ok: "canonical s" "0 < read_nat s"
      using read_nat_pos [of s] by (auto simp: canonical_def append_eq_Cons_conv)
    then show ?thesis
      using snoc.IH d c by (subst show_nat.simps) (simp add: digit_char_ord)
  qed
qed (simp add: canonical_def)

lemma version_text:
  assumes "version (JStr s) = Inr v" and "version (JStr t) = Inr v" shows "s = t"
proof -
  have shown: "join_with ''.'' (map show_nat v) = u" if "version (JStr u) = Inr v" for u
  proof -
    from that have m: "fullmatch version_rx u" and v: "v = map read_nat (split_on CHR ''.'' u)" by (auto split: if_splits)
    from version_parts [OF m] obtain a b c where "canonical a" "canonical b" "canonical c" "split_on CHR ''.'' u = [a, b, c]" .
    with v have "map show_nat v = split_on CHR ''.'' u" by (simp add: show_read_nat)
    with join_split [of "CHR ''.''" u] show ?thesis by simp
  qed
  from shown [OF assms(1)] shown [OF assms(2)] show ?thesis by simp
qed

lemma version_length: "version j = Inr v \<Longrightarrow> length v = 3"
  by (cases j) (auto split: if_splits elim!: version_parts)

section \<open>A delivery that passes its gates\<close>

lemma check_rollout_current: "check_rollout doc role b = Inr u \<Longrightarrow> b"
  by (auto simp: check_rollout_def split: if_split_asm)

lemma check_deployment_Inr:
  assumes "check_deployment doc role tv ti tc deployed = Inr u"
  obtains metadata annotations s live target images where "py_getitem doc ''metadata'' = Inr metadata"
    and "py_get metadata ''annotations'' (JObj []) = Inr annotations"
    and "py_get annotations (ANNOTATION @ ''version'') JNull = Inr (JStr s)" and "version (JStr s) = Inr live"
    and "version (JStr tv) = Inr target" and "live \<le> target" and "container_images doc = Inr images"
    and "s = tv \<Longrightarrow> live_image images role = Some (JStr ti) \<and> py_get annotations (ANNOTATION @ ''commit'') JNull = Inr (JStr tc)"
    and "deployed \<Longrightarrow> s = tv \<and> check_rollout doc role True = Inr ()"
proof -
  from assms obtain metadata annotations current live target where
    r: "py_getitem doc ''metadata'' = Inr metadata" "py_get metadata ''annotations'' (JObj []) = Inr annotations"
      "py_get annotations (ANNOTATION @ ''version'') JNull = Inr current" "version current = Inr live"
      "version (JStr tv) = Inr target" "live \<le> target"
    and rest: "bind_res (container_images doc) (\<lambda>images.
       bind_res (py_get annotations (ANNOTATION @ ''commit'') JNull) (\<lambda>commit.
       if current = JStr tv \<and> (live_image images role \<noteq> Some (JStr ti) \<or> commit \<noteq> JStr tc)
       then Inl (ValueError (''Same version has different image/source: '' @ role))
       else
         bind_res (py_getitem doc ''spec'') (\<lambda>spec.
         bind_res (py_get spec ''replicas'' JNull) (\<lambda>replicas.
         if role \<noteq> ''api'' \<and> \<not> py_scalar_eq replicas (JInt 1)
         then Inl (ValueError (''Execution service is paused or scaled unexpectedly: '' @ role))
         else if deployed
         then check_rollout doc role (current = JStr tv \<and> live_image images role = Some (JStr ti))
         else Inr ())))) = Inr u"
    unfolding check_deployment_def by (fastforce simp: not_less simp del: version.simps split: if_split_asm)
  from r(4) obtain s where s: "current = JStr s" by (cases current) auto
  from rest obtain images commit where i: "container_images doc = Inr images"
      "py_get annotations (ANNOTATION @ ''commit'') JNull = Inr commit"
    and same: "current = JStr tv \<longrightarrow> live_image images role = Some (JStr ti) \<and> commit = JStr tc"
    and roll: "deployed \<longrightarrow> check_rollout doc role (current = JStr tv \<and> live_image images role = Some (JStr ti)) = Inr ()"
    by (auto split: if_split_asm)
  have dep: "s = tv \<and> check_rollout doc role True = Inr ()" if deployed
    using roll check_rollout_current that s by (metis (full_types) json.inject(4))
  show ?thesis
    by (rule that [OF r(1,2) r(3) [unfolded s] r(4) [unfolded s] r(5,6) i(1)]) (use same s i dep in simp_all)
qed

section \<open>A published record\<close>

lemma bind_world_Inr: "bind_world m f w = (Inr y, w') \<longleftrightarrow> (\<exists>x w1. m w = (Inr x, w1) \<and> f x w1 = (Inr y, w'))"
  by (auto simp: bind_world_def split: prod.splits sum.splits)

lemma pure_world_Inr: "pure_world r w = (Inr x, w') \<longleftrightarrow> r = Inr x \<and> w' = w"
  by (cases r) (auto simp: pure_world_def)

lemma run_command_Inr: "run_command c w = (Inr x, w') \<longleftrightarrow> c w = (Inr x, w')"
  by (cases "c w"; cases "fst (c w)") (auto simp: run_command_def)

lemmas world_Inr = bind_world_Inr pure_world_Inr run_command_Inr

lemma each_world_Inr:
  "each_world f xs w = (Inr ys, w') \<Longrightarrow> list_all2 (\<lambda>x y. \<exists>w1 w2. f x w1 = (Inr y, w2)) xs ys"
  by (induction xs arbitrary: w ys) (auto simp: bind_world_Inr)

definition pinned_image :: "string \<Rightarrow> string \<times> string \<Rightarrow> string \<times> json \<Rightarrow> bool" where
  "pinned_image tag = (\<lambda>(role, repository) (name, image). name = role \<and> (\<exists>digest. fullmatch digest_rx digest
     \<and> image = JObj [(''image_repository'', JStr repository), (''image_ref'', JStr (image_reference repository tag @ ''@'' @ digest))]))"

lemma published_digest_Inr: "published_digest role repository output = Inr d \<Longrightarrow> fullmatch digest_rx d"
  by (auto simp: published_digest_def split: if_split_asm elim!: only_digest.elims)

lemma push_role_pinned: "push_role docker tag rr w = (Inr img, w') \<Longrightarrow> pinned_image tag rr img"
  using published_digest_Inr by (fastforce simp: push_role_def pinned_image_def Let_def world_Inr)

lemma pinned_image_ok:
  assumes "(role, repository) \<in> set repositories" and "pinned_image tag (role, repository) img"
  shows "check_image tag img = Inr ()" and "fst img = role"
proof -
  from assms(1) have "map_of repositories role = Some repository" by (auto simp: repositories_def)
  moreover have "fullmatch (Seq (Lit (image_reference repository tag @ ''@'')) digest_rx) (image_reference repository tag @ ''@'' @ d)"
    if "fullmatch digest_rx d" for d
    using fullmatch_SeqI [OF _ that, of "Lit (image_reference repository tag @ ''@'')" "image_reference repository tag @ ''@''"] by simp
  ultimately show "check_image tag img = Inr ()" "fst img = role"
    using assms(2) by (auto simp: pinned_image_def check_image_def)
qed

lemma pinned_images_validate:
  assumes "validate_identity tag commit = Inr u" and "list_all2 (pinned_image tag) repositories images"
  shows "validate_record (release_json tag commit images) tag commit = Inr images" and "map fst images = map fst repositories"
proof -
  note each = assms(2) [unfolded list_all2_conv_all_nth]
  have "fst (images ! k) = fst (repositories ! k) \<and> check_image tag (images ! k) = Inr ()" if "k < length repositories" for k
    using pinned_image_ok [of "fst (repositories ! k)" "snd (repositories ! k)" tag "images ! k"] each that by simp
  with each show names: "map fst images = map fst repositories" by (intro nth_equalityI) auto
  have "check_image tag img = Inr ()" if "img \<in> set images" for img
    using that \<open>\<And>k. k < length repositories \<Longrightarrow> _\<close> each by (metis in_set_conv_nth)
  then have "for_each (check_image tag) images = Inr ()" by (simp add: for_each_Inr_iff)
  then show "validate_record (release_json tag commit images) tag commit = Inr images"
    using assms(1) names by (simp add: validate_record_def release_json_def record_images_def)
qed

lemma before_push_identity: "before_push docker tag commit w = (Inr u, w') \<Longrightarrow> validate_identity tag commit = Inr ()"
  by (auto simp: before_push_def world_Inr)

lemma publish_release_Inr:
  assumes "publish_release docker tag commit w = (Inr record, w')"
  obtains images where "record = release_json tag commit images" and "list_all2 (pinned_image tag) repositories images"
    and "validate_record record tag commit = Inr images"
proof -
  from assms obtain images w1 w2 where b: "before_push docker tag commit w = (Inr (), w1)"
    and p: "each_world (push_role docker tag) repositories w1 = (Inr images, w2)" and r: "record = release_json tag commit images"
    by (auto simp: publish_release_def Let_def world_Inr)
  from each_world_Inr [OF p] have l: "list_all2 (pinned_image tag) repositories images"
    by (rule list_all2_mono) (auto dest: push_role_pinned)
  from pinned_images_validate(1) [OF before_push_identity [OF b] l] r l that show ?thesis by blast
qed

text \<open>A publication that is refused pushes nothing.\<close>

lemma before_push_refused:
  assumes "before_push docker tag commit w = (Inl e, w')"
  shows "publish_release (docker\<lparr>push_image := f\<rparr>) tag commit w = (Inl e, w')"
proof -
  have "check_absent (docker\<lparr>push_image := f\<rparr>) = check_absent docker"
    "inspect_local (docker\<lparr>push_image := f\<rparr>) = inspect_local docker"
    by (intro ext; simp add: check_absent_def inspect_local_def)+
  then have "before_push (docker\<lparr>push_image := f\<rparr>) tag commit = before_push docker tag commit" by (simp add: before_push_def)
  with assms show ?thesis by (simp add: publish_release_def bind_world_def)
qed

section \<open>Merged values\<close>

text \<open>An override decides every field it names, field by field where both sides are objects.\<close>

lemma merge_fields_lookup:
  "distinct (map fst override) \<Longrightarrow> map_of (merge_fields base override) k
     = (case map_of override k of None \<Rightarrow> map_of base k | Some v \<Rightarrow> Some (merge_value (map_of base k) v))"
proof (induction override arbitrary: base)
  case (Cons kv override)
  obtain k' v where kv: "kv = (k', v)" by (cases kv)
  with Cons.prems have "map_of override k' = None" by (simp add: map_of_eq_None_iff)
  then show ?case using Cons kv by (auto simp: update_conv split: option.splits)
qed simp

end
