(* ===== verification/Delivery.thy ===== *)
theory Delivery
  imports Release
begin

text \<open>
  The delivery scripts as they act: the values and the verification Job of a delivery, the gates
  before and after it (\<open>scripts/execution_delivery.py\<close>) and the annotation of an existing
  installation (\<open>scripts/bootstrap_execution_identity.py\<close>). A command line is run by the
  argument \<open>run\<close>, which answers with its standard output or, when it fails, its standard
  error. Parsed YAML files and the address parser are arguments. What a command changes is known
  from its words: the gates only read.
\<close>

section \<open>Commands\<close>

type_synonym 'w runner = "string list \<Rightarrow> 'w \<Rightarrow> (string + string) \<times> 'w"

type_synonym 'a script = "script_error + 'a"

definition command :: "'w runner \<Rightarrow> string list \<Rightarrow> 'w \<Rightarrow> string script \<times> 'w" where
  "command run args = bind_world (run_command (run args)) (\<lambda>out. pure_world (Inr (py_strip out)))"

definition oc_args :: "string list \<Rightarrow> string list" where
  "oc_args args = ''oc'' # ''--request-timeout=20s'' # args"

definition oc :: "'w runner \<Rightarrow> string list \<Rightarrow> 'w \<Rightarrow> string script \<times> 'w" where
  "oc run args = command run (oc_args args)"

text \<open>\<open>json.loads\<close> of a command's output; the decoder's message is not kept.\<close>

definition json_of_text :: "string \<Rightarrow> exn + json" where
  "json_of_text s = (case loads_text s of None \<Rightarrow> Inl (ValueError []) | Some j \<Rightarrow> Inr j)"

definition oc_json :: "'w runner \<Rightarrow> string list \<Rightarrow> 'w \<Rightarrow> json script \<times> 'w" where
  "oc_json run args = bind_world (oc run args) (\<lambda>out. pure_world (json_of_text out))"

type_synonym environ = "string \<Rightarrow> string option"

definition environ_get :: "environ \<Rightarrow> string \<Rightarrow> exn + string" where
  "environ_get env k = (case env k of None \<Rightarrow> Inl (KeyError k) | Some v \<Rightarrow> Inr v)"

fun path_get :: "json \<Rightarrow> string list \<Rightarrow> exn + json" where
  "path_get j [] = Inr j"
| "path_get j (k # ks) = bind_res (py_getitem j k) (\<lambda>v. path_get v ks)"

section \<open>Values of a delivery\<close>

text \<open>\<open>network\<close> is \<open>str(ipaddress.ip_network(cidr, strict=True))\<close>.\<close>

definition api_peer :: "(json \<Rightarrow> exn + string) \<Rightarrow> json \<Rightarrow> exn + json" where
  "api_peer network cidr = bind_res (network cidr) (\<lambda>block. Inr (JObj [(''ipBlock'', JObj [(''cidr'', JStr block)])]))"

definition delivery_values :: "(json \<Rightarrow> exn + string) \<Rightarrow> json \<Rightarrow> environ \<Rightarrow> exn + json" where
  "delivery_values network okd_values env =
     bind_res (path_get okd_values [''networkPolicy'', ''apiPeers'']) (\<lambda>peers.
     bind_res (bind_res (environ_get env ''EXECUTION_API_CIDRS'') json_of_text) (\<lambda>cidrs.
     case cidrs of
       JList (c # cs) \<Rightarrow>
         bind_res (map_res (api_peer network) (c # cs)) (\<lambda>added.
         bind_res (py_list peers) (\<lambda>ps.
         bind_res (environ_get env ''VERSION'') (\<lambda>version.
         bind_res (environ_get env ''COMMIT'') (\<lambda>commit.
         bind_res (environ_get env ''PUBLISHER_IMAGE_REF'') (\<lambda>publisher.
         bind_res (environ_get env ''WORKER_IMAGE_REF'') (\<lambda>worker.
         Inr (JObj
           [(''delivery'', JObj [(''version'', JStr version), (''commit'', JStr commit)]),
            (''publisher'', JObj [(''image'', JStr publisher)]),
            (''worker'', JObj [(''image'', JStr worker)]),
            (''networkPolicy'', JObj [(''apiPeers'', JList (ps @ added))])])))))))
     | _ \<Rightarrow> Inl (ValueError ''EXECUTION_API_CIDRS must be a nonempty JSON array'')))"

subsection \<open>The verification Job\<close>

text \<open>\<open>repr\<close> and \<open>str\<close> of a value.\<close>

definition repr_char :: "char \<Rightarrow> char \<Rightarrow> string" where
  "repr_char q c =
     (if c = q \<or> c = CHR 0x5C then [CHR 0x5C, c]
      else if c = CHR 0x09 then [CHR 0x5C, CHR ''t'']
      else if c = CHR 0x0A then [CHR 0x5C, CHR ''n'']
      else if c = CHR 0x0D then [CHR 0x5C, CHR ''r'']
      else if ord c < 32 \<or> 127 \<le> ord c \<and> ord c \<le> 160 \<or> ord c = 173 then [CHR 0x5C, CHR ''x''] @ hex_digits 2 (ord c)
      else [c])"

definition repr_str :: "string \<Rightarrow> string" where
  "repr_str s =
     (let q = (if CHR 0x27 \<in> set s \<and> CHR 0x22 \<notin> set s then CHR 0x22 else CHR 0x27)
      in q # concat (map (repr_char q) s) @ [q])"

primrec py_repr :: "json \<Rightarrow> string" where
  "py_repr JNull = ''None''"
| "py_repr (JBool b) = (if b then ''True'' else ''False'')"
| "py_repr (JInt i) = show_int i"
| "py_repr (JFloat r) = r"
| "py_repr (JStr s) = repr_str s"
| "py_repr (JList xs) = ''['' @ join_with '', '' (map py_repr xs) @ '']''"
| "py_repr (JObj kvs) = ''{'' @ join_with '', '' (map (\<lambda>(k, v). repr_str k @ '': '' @ v) (map (map_prod id py_repr) kvs)) @ ''}''"

definition py_str :: "json \<Rightarrow> string" where
  "py_str j = (case j of JStr s \<Rightarrow> s | _ \<Rightarrow> py_repr j)"

definition plain_env :: "string \<Rightarrow> json \<Rightarrow> json" where
  "plain_env name v = JObj [(''name'', JStr name), (''value'', JStr (py_str v))]"

definition secret_env :: "string \<Rightarrow> json \<Rightarrow> string \<Rightarrow> json" where
  "secret_env name secret key =
     JObj [(''name'', JStr name), (''valueFrom'', JObj [(''secretKeyRef'', JObj [(''name'', secret), (''key'', JStr key)])])]"

definition verification_env :: "environ \<Rightarrow> json \<Rightarrow> exn + json list" where
  "verification_env env values =
     bind_res (path_get values [''database'', ''host'']) (\<lambda>host.
     bind_res (path_get values [''database'', ''port'']) (\<lambda>port.
     bind_res (environ_get env ''IMAGE_REF'') (\<lambda>image_ref.
     bind_res (path_get values [''modelValues'', ''storage'', ''endpoint'']) (\<lambda>endpoint.
     bind_res (path_get values [''modelValues'', ''storage'', ''bucket'']) (\<lambda>bucket.
     bind_res (path_get values [''artifactReaderSecret'']) (\<lambda>reader.
     Inr ([plain_env ''HOME'' (JStr ''/tmp''), plain_env ''DB_HOST'' host, plain_env ''DB_PORT'' port,
           plain_env ''CHECK_MODEL_IMAGE'' (JStr image_ref), plain_env ''ARTIFACT_ENDPOINT'' endpoint,
           plain_env ''ARTIFACT_BUCKET'' bucket]
        @ map (\<lambda>(name, key). secret_env name (JStr ''mic3-postgres-credentials'') key)
            [(''DB_NAME'', ''database''), (''DB_USER'', ''username''), (''DB_PASSWORD'', ''password'')]
        @ map (\<lambda>(name, key). secret_env name reader key)
            [(''ARTIFACT_ACCESS_KEY'', ''AWS_ACCESS_KEY_ID''), (''ARTIFACT_SECRET_KEY'', ''AWS_SECRET_ACCESS_KEY'')])))))))"

text \<open>Iterating over a value.\<close>

fun py_iter :: "json \<Rightarrow> exn + json list" where
  "py_iter (JList xs) = Inr xs"
| "py_iter (JStr s) = Inr (map (\<lambda>c. JStr [c]) s)"
| "py_iter (JObj kvs) = Inr (map (JStr \<circ> fst) kvs)"
| "py_iter _ = Inl TypeError"

definition check_label :: json where
  "check_label = JObj [(''app.kubernetes.io/name'', JStr ''mic3-deployment-check'')]"

definition check_container :: "string \<Rightarrow> string \<Rightarrow> json list \<Rightarrow> json" where
  "check_container worker_image source env =
     JObj [(''name'', JStr ''check''), (''image'', JStr worker_image),
       (''command'', JList [JStr ''python'', JStr ''-c'', JStr source]), (''env'', JList env),
       (''securityContext'', JObj [(''allowPrivilegeEscalation'', JBool False), (''readOnlyRootFilesystem'', JBool True),
          (''capabilities'', JObj [(''drop'', JList [JStr ''ALL''])])]),
       (''resources'', JObj [(''requests'', JObj [(''cpu'', JStr ''100m''), (''memory'', JStr ''128Mi'')]),
          (''limits'', JObj [(''cpu'', JStr ''500m''), (''memory'', JStr ''256Mi'')])]),
       (''volumeMounts'', JList [JObj [(''name'', JStr ''temporary''), (''mountPath'', JStr ''/tmp'')]])]"

definition check_security :: "json \<Rightarrow> exn + json" where
  "check_security identity =
     (case identity of
        JObj kvs \<Rightarrow> Inr (JObj (dict_of ([(''runAsNonRoot'', JBool True),
          (''seccompProfile'', JObj [(''type'', JStr ''RuntimeDefault'')])] @ kvs)))
      | _ \<Rightarrow> Inl TypeError)"

definition verification_job :: "string \<Rightarrow> environ \<Rightarrow> json \<Rightarrow> exn + json" where
  "verification_job source environ values =
     bind_res (verification_env environ values) (\<lambda>env.
     bind_res (environ_get environ ''VERSION'') (\<lambda>version.
     bind_res (environ_get environ ''COMMIT'') (\<lambda>commit.
     bind_res (bind_res (path_get values [''imagePullSecrets'']) py_iter) (\<lambda>secrets.
     bind_res (path_get values [''nodeSelector'']) (\<lambda>selector.
     bind_res (bind_res (path_get values [''podIdentity'']) check_security) (\<lambda>security.
     bind_res (environ_get environ ''WORKER_IMAGE_REF'') (\<lambda>worker.
     Inr (JObj [(''apiVersion'', JStr ''batch/v1''), (''kind'', JStr ''Job''),
       (''metadata'', JObj [(''generateName'', JStr ''mic3-deployment-check-''), (''labels'', check_label),
          (''annotations'', JObj [(ANNOTATION @ ''version'', JStr version), (ANNOTATION @ ''commit'', JStr commit)])]),
       (''spec'', JObj [(''backoffLimit'', JInt 0), (''activeDeadlineSeconds'', JInt 960),
          (''template'', JObj [(''metadata'', JObj [(''labels'', check_label)]),
             (''spec'', JObj [(''restartPolicy'', JStr ''Never''), (''automountServiceAccountToken'', JBool False),
                (''serviceAccountName'', JStr ''mic3-api-migration''),
                (''imagePullSecrets'', JList (map (\<lambda>name. JObj [(''name'', name)]) secrets)),
                (''nodeSelector'', selector), (''securityContext'', security),
                (''containers'', JList [check_container worker source env]),
                (''volumes'', JList [JObj [(''name'', JStr ''temporary''),
                   (''emptyDir'', JObj [(''sizeLimit'', JStr ''64Mi'')])]])])])])]))))))))"

subsection \<open>Rendering\<close>

datatype written = JsonFile json | TextFile string

definition joined :: "string \<Rightarrow> string \<Rightarrow> string" where
  "joined directory name = posix_str (directory @ ''/'' @ name)"

fun merge_objects :: "json \<Rightarrow> json \<Rightarrow> exn + json" where
  "merge_objects (JObj base) (JObj override) = Inr (JObj (merge_fields base override))"
| "merge_objects base (JObj []) = Inr base"
| "merge_objects base (JObj ((k, v) # kvs)) = Inl (if as_dict v = None then TypeError else AttributeError)"
| "merge_objects base override = Inl AttributeError"

definition render_delivery :: "'w runner \<Rightarrow> (string \<Rightarrow> written \<Rightarrow> 'w \<Rightarrow> 'w) \<Rightarrow> (json \<Rightarrow> exn + string) \<Rightarrow> string \<Rightarrow> string
    \<Rightarrow> json \<Rightarrow> json \<Rightarrow> environ \<Rightarrow> string \<Rightarrow> 'w \<Rightarrow> unit script \<times> 'w" where
  "render_delivery run write network root source chart_values okd_values environ directory =
     bind_world (pure_world (delivery_values network okd_values environ)) (\<lambda>override.
     bind_world (\<lambda>w. (Inr (), write (joined directory ''execution-overrides.json'') (JsonFile override) w)) (\<lambda>_.
     bind_world (pure_world (bind_res (merge_objects chart_values okd_values) (\<lambda>v. merge_objects v override))) (\<lambda>values.
     bind_world (pure_world (environ_get environ ''OPENSHIFT_NAMESPACE'')) (\<lambda>ns.
     bind_world (command run [''helm'', ''template'', ''mic3-execution'', joined root ''deploy/helm/execution-services'',
         ''--namespace'', ns, ''-f'', joined root ''deploy/okd/execution.values.yaml'',
         ''-f'', joined directory ''execution-overrides.json'']) (\<lambda>rendered.
     bind_world (\<lambda>w. (Inr (), write (joined directory ''execution.yaml'') (TextFile rendered) w)) (\<lambda>_.
     bind_world (pure_world (verification_job source environ values)) (\<lambda>job w.
       (Inr (), write (joined directory ''verification.json'') (JsonFile job) w))))))))"

section \<open>Gates\<close>

definition roles :: "string list" where
  "roles = [''api'', ''publisher'', ''worker'']"

definition image_variable :: "string \<Rightarrow> string" where
  "image_variable role =
     (if role = ''api'' then ''IMAGE_REF''
      else map (\<lambda>c. if 97 \<le> ord c \<and> ord c \<le> 122 then char_of (ord c - 32) else c) role @ ''_IMAGE_REF'')"

definition get_deployment :: "'w runner \<Rightarrow> string \<Rightarrow> 'w \<Rightarrow> json script \<times> 'w" where
  "get_deployment run role = oc_json run [''get'', ''deployment'', ''mic3-'' @ role, ''-o'', ''json'']"

definition gate_role :: "'w runner \<Rightarrow> environ \<Rightarrow> bool \<Rightarrow> string \<Rightarrow> 'w \<Rightarrow> unit script \<times> 'w" where
  "gate_role run environ deployed role =
     bind_world (get_deployment run role) (\<lambda>doc. pure_world (
       bind_res (environ_get environ (image_variable role)) (\<lambda>ref.
       bind_res (environ_get environ ''VERSION'') (\<lambda>version.
       bind_res (environ_get environ ''COMMIT'') (\<lambda>commit.
       check_deployment doc role version ref commit deployed)))))"

definition verify_rollout :: "'w runner \<Rightarrow> environ \<Rightarrow> 'w \<Rightarrow> unit list script \<times> 'w" where
  "verify_rollout run environ = each_world (gate_role run environ True) [''publisher'', ''worker'']"

definition require_permission :: "'w runner \<Rightarrow> string \<times> string \<Rightarrow> 'w \<Rightarrow> unit script \<times> 'w" where
  "require_permission run = (\<lambda>(verb, resource).
     bind_world (oc run [''auth'', ''can-i'', verb, resource]) (\<lambda>out. pure_world (
       require (out = ''yes'') (ValueError (''Deployer permission missing: '' @ verb @ '' '' @ resource)))))"

definition KINDS :: "(string \<times> string) list" where
  "KINDS = [(''Deployment'', ''deployments.apps''), (''ServiceAccount'', ''serviceaccounts''),
     (''ConfigMap'', ''configmaps''), (''Role'', ''roles.rbac.authorization.k8s.io''),
     (''RoleBinding'', ''rolebindings.rbac.authorization.k8s.io''),
     (''NetworkPolicy'', ''networkpolicies.networking.k8s.io'')]"

fun kind_resource :: "json \<Rightarrow> exn + string" where
  "kind_resource (JStr k) = (case map_of KINDS k of None \<Rightarrow> Inl (KeyError k) | Some r \<Rightarrow> Inr r)"
| "kind_resource (JList _) = Inl TypeError"
| "kind_resource (JObj _) = Inl TypeError"
| "kind_resource _ = Inl (KeyError [])"

definition resource_of :: "json \<Rightarrow> exn + string" where
  "resource_of doc =
     bind_res (bind_res (py_getitem doc ''kind'') kind_resource) (\<lambda>kind.
     bind_res (path_get doc [''metadata'', ''name'']) (\<lambda>name.
     case name of JStr n \<Rightarrow> Inr (kind @ ''/'' @ n) | _ \<Rightarrow> Inl TypeError))"

definition gate_resource :: "'w runner \<Rightarrow> json \<Rightarrow> 'w \<Rightarrow> unit list script \<times> 'w" where
  "gate_resource run doc =
     bind_world (pure_world (resource_of doc)) (\<lambda>resource.
     bind_world (oc run [''get'', resource, ''-o'', ''name'']) (\<lambda>_.
     each_world (\<lambda>verb. require_permission run (verb, resource)) [''get'', ''patch'', ''update'']))"

definition fixed_permissions :: "(string \<times> string) list" where
  "fixed_permissions =
     map (\<lambda>verb. (verb, ''secrets'')) [''get'', ''list'', ''create'', ''update'', ''delete'']
     @ map (\<lambda>verb. (verb, ''jobs.batch'')) [''get'', ''list'', ''watch'', ''create'', ''patch'']
     @ [(''get'', ''pods/log'')]
     @ map (\<lambda>verb. (verb, ''pods'')) [''get'', ''list'', ''watch'']
     @ map (\<lambda>verb. (verb, ''replicasets.apps'')) [''get'', ''list'', ''watch'']
     @ map (\<lambda>verb. (verb, ''events'')) [''get'', ''list'']"

text \<open>\<open>docs\<close> are the documents of \<open>execution.yaml\<close>, parsed.\<close>

definition preflight :: "'w runner \<Rightarrow> environ \<Rightarrow> json list \<Rightarrow> string \<Rightarrow> 'w \<Rightarrow> unit script \<times> 'w" where
  "preflight run environ docs directory =
     bind_world (command run [''helm'', ''status'', ''mic3-execution'', ''-o'', ''json'']) (\<lambda>out.
     bind_world (pure_world (bind_res (json_of_text out) check_helm_status)) (\<lambda>_.
     bind_world (each_world (gate_role run environ False) roles) (\<lambda>_.
     bind_world (each_world (gate_resource run) docs) (\<lambda>_.
     bind_world (each_world (require_permission run) fixed_permissions) (\<lambda>_.
     bind_world (oc run [''apply'', ''--server-side'', ''--field-manager=helm'', ''--dry-run=server'',
         ''-f'', joined directory ''execution.yaml'']) (\<lambda>_.
     bind_world (oc run [''create'', ''--dry-run=server'', ''-f'', joined directory ''verification.json'']) (\<lambda>_.
     pure_world (Inr ()))))))))"

section \<open>Bootstrapping an existing installation\<close>

definition annotation_differs :: "json \<Rightarrow> json_dict \<Rightarrow> exn + bool" where
  "annotation_differs existing annotations =
     bind_res (map_res (\<lambda>(k, v). bind_res (py_get existing k JNull) (\<lambda>x. Inr (x \<noteq> v))) annotations)
       (\<lambda>bs. Inr (list_ex id bs))"

definition json_pointer :: "string \<Rightarrow> string" where
  "json_pointer s = concat (map (\<lambda>c. if c = CHR ''~'' then ''~0'' else if c = CHR ''/'' then ''~1'' else [c]) s)"

text \<open>\<open>key in fields\<close>.\<close>

fun py_in :: "string \<Rightarrow> json \<Rightarrow> exn + bool" where
  "py_in k (JObj d) = Inr (k \<in> fst ` set d)"
| "py_in k (JList xs) = Inr (JStr k \<in> set xs)"
| "py_in k (JStr s) = Inr (list_ex (\<lambda>i. starts_with (drop i s) k) [0..<Suc (length s)])"
| "py_in k _ = Inl TypeError"

definition owned_annotations :: "json \<Rightarrow> json_dict \<Rightarrow> exn + string list" where
  "owned_annotations manager annotations =
     bind_res (py_get manager ''fieldsV1'' (JObj [])) (\<lambda>f1.
     bind_res (py_get f1 ''f:metadata'' (JObj [])) (\<lambda>f2.
     bind_res (py_get f2 ''f:annotations'' (JObj [])) (\<lambda>fields.
     bind_res (map_res (\<lambda>k. bind_res (py_in (''f:'' @ k) fields) (\<lambda>b. Inr (k, b))) (map fst annotations)) (\<lambda>ks.
     Inr (map fst (filter snd ks))))))"

definition remove_operation :: "nat \<Rightarrow> string \<Rightarrow> json" where
  "remove_operation index key =
     JObj [(''op'', JStr ''remove''), (''path'', JStr (''/metadata/managedFields/'' @ show_nat index
       @ ''/fieldsV1/f:metadata/f:annotations/'' @ json_pointer (''f:'' @ key)))]"

definition bootstrap_managers :: "string list" where
  "bootstrap_managers = [''kubectl-annotate'', ''mic3-bootstrap'', ''helm'']"

definition manager_removals :: "json_dict \<Rightarrow> nat \<times> json \<Rightarrow> exn + json list" where
  "manager_removals annotations = (\<lambda>(index, manager).
     bind_res (owned_annotations manager annotations) (\<lambda>owned.
     if owned = [] then Inr []
     else
       bind_res (py_getitem manager ''manager'') (\<lambda>name.
       bind_res (if name = JStr ''helm'' then py_getitem manager ''operation'' else Inr JNull) (\<lambda>first.
       if name = JStr ''helm'' \<and> first = JStr ''Apply'' then Inr []
       else
         bind_res (py_getitem manager ''operation'') (\<lambda>operation.
         if operation \<noteq> JStr ''Update'' \<or> name \<notin> JStr ` set bootstrap_managers
         then Inl (ValueError ''Unexpected delivery annotation owner; inspect before retrying'')
         else Inr (map (remove_operation index) owned))))))"

definition ownership_patch :: "json \<Rightarrow> string \<Rightarrow> json_dict \<Rightarrow> exn + json list" where
  "ownership_patch doc role annotations =
     bind_res (py_getitem doc ''metadata'') (\<lambda>metadata.
     bind_res (py_get metadata ''annotations'' (JObj [])) (\<lambda>current.
     bind_res (container_images doc) (\<lambda>images.
     bind_res (annotation_differs current annotations) (\<lambda>differs.
     bind_res (if differs then Inr JNull else py_getitem (JObj annotations) (ANNOTATION @ ''image'')) (\<lambda>expected.
     if differs \<or> (case live_image images role of None \<Rightarrow> JNull | Some i \<Rightarrow> i) \<noteq> expected
     then Inl (ValueError ''Deployment changed during bootstrap; inspect before retrying'')
     else
       bind_res (py_getitem metadata ''resourceVersion'') (\<lambda>rv.
       bind_res (bind_res (py_get metadata ''managedFields'' (JList [])) py_iter) (\<lambda>managers.
       bind_res (map_res (manager_removals annotations) (enumerate 0 managers)) (\<lambda>removals.
       Inr (JObj [(''op'', JStr ''test''), (''path'', JStr ''/metadata/resourceVersion''), (''value'', rv)]
         # concat removals)))))))))"

fun str_value :: "json \<Rightarrow> exn + string" where
  "str_value (JStr s) = Inr s"
| "str_value _ = Inl TypeError"

definition annotate_args :: "string \<Rightarrow> json_dict \<Rightarrow> json \<Rightarrow> exn + string list" where
  "annotate_args resource annotations resource_version =
     bind_res (str_value resource_version) (\<lambda>rv.
     bind_res (map_res (\<lambda>(k, v). bind_res (str_value v) (\<lambda>s. Inr (k @ ''='' @ s))) annotations) (\<lambda>pairs.
     Inr ([''annotate'', resource, ''--overwrite'', ''--field-manager=mic3-bootstrap'', ''--resource-version='' @ rv] @ pairs)))"

text \<open>\<open>patch_text\<close> is \<open>json.dumps\<close> with its default separators.\<close>

definition write_annotations :: "'w runner \<Rightarrow> (json list \<Rightarrow> string) \<Rightarrow> bool \<Rightarrow> json
    \<Rightarrow> string \<times> json_dict \<times> json \<Rightarrow> 'w \<Rightarrow> unit script \<times> 'w" where
  "write_annotations run patch_text repair existing = (\<lambda>(role, annotations, resource_version).
     let resource = ''deployment/mic3-'' @ role in
     bind_world (pure_world (if \<not> repair then Inr True
         else annotation_differs (if py_falsy existing then JObj [] else existing) annotations)) (\<lambda>needed.
     bind_world (if needed then bind_world (pure_world (annotate_args resource annotations resource_version)) (oc run)
         else pure_world (Inr [])) (\<lambda>_.
     bind_world (oc_json run [''get'', resource, ''--show-managed-fields'', ''-o'', ''json'']) (\<lambda>current.
     bind_world (pure_world (ownership_patch current role annotations)) (\<lambda>patch.
     if length patch > 1
     then bind_world (oc run [''patch'', resource, ''--type=json'', ''-p'', patch_text patch]) (\<lambda>_. pure_world (Inr ()))
     else pure_world (Inr ()))))))"

definition apply_change :: "'w runner \<Rightarrow> (json list \<Rightarrow> string) \<Rightarrow> bool \<Rightarrow> bool \<Rightarrow> (string \<times> json) list
    \<Rightarrow> string \<times> json_dict \<times> json \<Rightarrow> 'w \<Rightarrow> unit script \<times> 'w" where
  "apply_change run patch_text applying repair deployments = (\<lambda>(role, annotations, rv).
     if applying
     then bind_world (pure_world (bind_res (py_getitem (JObj deployments) role) (\<lambda>doc.
              bind_res (py_getitem doc ''metadata'') (\<lambda>m. py_get m ''annotations'' (JObj [])))))
            (\<lambda>existing. write_annotations run patch_text repair existing (role, annotations, rv))
     else pure_world (Inr ()))"

definition bootstrap :: "'w runner \<Rightarrow> (json list \<Rightarrow> string) \<Rightarrow> json \<Rightarrow> bool \<Rightarrow> bool \<Rightarrow> 'w \<Rightarrow> unit list script \<times> 'w" where
  "bootstrap run patch_text release_record applying repair =
     bind_world (command run [''helm'', ''status'', ''mic3-execution'', ''-o'', ''json'']) (\<lambda>out.
     bind_world (pure_world (bind_res (json_of_text out) check_helm_status)) (\<lambda>_.
     bind_world (each_world (\<lambda>role. bind_world (get_deployment run role) (\<lambda>doc. pure_world (Inr (role, doc)))) roles)
       (\<lambda>deployments.
     bind_world (pure_world (planned_annotations release_record deployments)) (\<lambda>changes.
     each_world (apply_change run patch_text applying repair deployments) changes))))"

section \<open>What a script may do to the world\<close>

text \<open>
  Commands that change nothing, by their words: the status of a Helm release, reads, questions
  about permissions and server-side dry runs.
\<close>

definition read_only :: "string list \<Rightarrow> bool" where
  "read_only args \<longleftrightarrow> take 2 args = [''helm'', ''status'']
     \<or> take 2 args = oc_args [] \<and> (take 1 (drop 2 args) = [''get''] \<or> take 2 (drop 2 args) = [''auth'', ''can-i'']
         \<or> ''--dry-run=server'' \<in> set args)"

definition keeps :: "('w \<Rightarrow> bool) \<Rightarrow> ('w \<Rightarrow> 'r \<times> 'w) \<Rightarrow> bool" where
  "keeps I m \<longleftrightarrow> (\<forall>w. I w \<longrightarrow> I (snd (m w)))"

definition reading :: "('w \<Rightarrow> bool) \<Rightarrow> 'w runner \<Rightarrow> bool" where
  "reading I run \<longleftrightarrow> (\<forall>args. read_only args \<longrightarrow> keeps I (run args))"

named_theorems keeps \<open>steps that keep a property of the world\<close>

lemma keepsD: "keeps I m \<Longrightarrow> I w \<Longrightarrow> m w = (r, w') \<Longrightarrow> I w'"
  by (metis keeps_def snd_conv)

lemma keeps_pure [keeps]: "keeps I (pure_world r)"
  by (simp add: keeps_def pure_world_def)

lemma keeps_bind [keeps]:
  assumes "keeps I m" and "\<And>x. keeps I (f x)" shows "keeps I (bind_world m f)"
proof -
  have "I (snd (bind_world m f w))" if "I w" for w
  proof (cases "m w")
    case (Pair r w1)
    then have "I w1" using assms(1) that by (auto dest: keepsD)
    then show ?thesis using Pair assms(2) by (cases r) (auto simp: bind_world_def keeps_def)
  qed
  then show ?thesis by (simp add: keeps_def)
qed

lemma keeps_return [keeps]: "keeps I (Pair r)"
  by (simp add: keeps_def)

lemma keeps_each [keeps]: "(\<And>x. keeps I (f x)) \<Longrightarrow> keeps I (each_world f xs)"
proof (induction xs)
  case Nil
  then show ?case by (simp add: keeps_def)
next
  case (Cons x xs)
  then have "keeps I (bind_world (f x) (\<lambda>y. bind_world (each_world f xs) (\<lambda>ys. Pair (Inr (y # ys)))))"
    by (intro keeps) auto
  then show ?case by (simp add: keeps_def)
qed

lemma keeps_command:
  assumes "reading I run" and "read_only args" shows "keeps I (command run args)"
  using assms unfolding command_def
  by (intro keeps) (auto simp: reading_def keeps_def run_command_def)

lemma keeps_oc:
  assumes "reading I run" and "read_only (oc_args args)" shows "keeps I (oc run args)"
  unfolding oc_def using assms by (rule keeps_command)

lemma keeps_get [keeps]: "reading I run \<Longrightarrow> keeps I (oc run (''get'' # args))"
  by (rule keeps_oc) (simp_all add: read_only_def oc_args_def)

lemma keeps_oc_json [keeps]: "reading I run \<Longrightarrow> keeps I (oc_json run (''get'' # args))"
  unfolding oc_json_def by (intro keeps)

lemma keeps_helm_status [keeps]: "reading I run \<Longrightarrow> keeps I (command run (''helm'' # ''status'' # args))"
  by (rule keeps_command) (simp_all add: read_only_def)

lemma keeps_permission [keeps]: "reading I run \<Longrightarrow> keeps I (require_permission run p)"
  unfolding require_permission_def case_prod_beta
  by (intro keeps keeps_oc) (simp_all add: read_only_def oc_args_def)

lemma keeps_gate_role [keeps]: "reading I run \<Longrightarrow> keeps I (gate_role run env deployed role)"
  unfolding gate_role_def get_deployment_def by (intro keeps)

lemma keeps_gate_resource [keeps]: "reading I run \<Longrightarrow> keeps I (gate_resource run doc)"
  unfolding gate_resource_def by (intro keeps)

lemma preflight_reads: "reading I run \<Longrightarrow> keeps I (preflight run env docs directory)"
  unfolding preflight_def
  by (intro keeps keeps_oc) (simp_all add: read_only_def oc_args_def)

lemma verify_reads: "reading I run \<Longrightarrow> keeps I (verify_rollout run env)"
  unfolding verify_rollout_def by (intro keeps)

lemma bootstrap_inspects: "reading I run \<Longrightarrow> keeps I (bootstrap run patch_text record False repair)"
  unfolding bootstrap_def get_deployment_def apply_change_def case_prod_beta if_False by (intro keeps)

text \<open>A step that breaks the property after steps that keep it.\<close>

lemma bind_world_breaks:
  assumes "keeps I m" and "I w" and "bind_world m f w = (r, w')" and "\<not> I w'"
  obtains x w1 where "m w = (Inr x, w1)" "I w1" "f x w1 = (r, w')"
proof (cases "m w")
  case (Pair q w1)
  then have "I w1" using assms(1,2) by (auto dest: keepsD)
  then show ?thesis using Pair assms(3,4) that by (cases q) (auto simp: bind_world_def)
qed

definition read_deployments :: "'w runner \<Rightarrow> 'w \<Rightarrow> (string \<times> json) list script \<times> 'w" where
  "read_deployments run = each_world (\<lambda>role. bind_world (get_deployment run role) (\<lambda>doc. pure_world (Inr (role, doc)))) roles"

lemma bootstrap_changes_verified:
  assumes run: "reading I run" and "I w" and "bootstrap run patch_text rec applying repair w = (r, w')" and broken: "\<not> I w'"
  obtains deployments changes v v' where "applying" "I v'" "read_deployments run v = (Inr deployments, v')"
    "planned_annotations rec deployments = Inr changes"
    "each_world (apply_change run patch_text applying repair deployments) changes v' = (r, w')"
proof -
  have "applying"
    using bootstrap_inspects [OF run] assms(2,3) broken by (cases applying) (auto dest: keepsD)
  obtain x w1 where w1: "I w1" "bind_world (pure_world (bind_res (json_of_text x) check_helm_status)) (\<lambda>_.
     bind_world (read_deployments run) (\<lambda>deployments.
     bind_world (pure_world (planned_annotations rec deployments)) (\<lambda>changes.
     each_world (apply_change run patch_text applying repair deployments) changes))) w1 = (r, w')"
    using assms(3) unfolding bootstrap_def read_deployments_def [symmetric]
    by (rule bind_world_breaks [OF keeps_helm_status [OF run] assms(2) _ broken]) blast
  obtain y w2 where w2: "I w2" "bind_world (read_deployments run) (\<lambda>deployments.
     bind_world (pure_world (planned_annotations rec deployments)) (\<lambda>changes.
     each_world (apply_change run patch_text applying repair deployments) changes)) w2 = (r, w')"
    by (rule bind_world_breaks [OF keeps_pure w1 broken]) blast
  have "keeps I (read_deployments run)" unfolding read_deployments_def get_deployment_def using run by (intro keeps)
  then obtain deployments w3 where w3: "read_deployments run w2 = (Inr deployments, w3)" "I w3"
    "bind_world (pure_world (planned_annotations rec deployments)) (\<lambda>changes.
     each_world (apply_change run patch_text applying repair deployments) changes) w3 = (r, w')"
    by (rule bind_world_breaks [OF _ w2 broken]) blast
  show thesis
    by (rule bind_world_breaks [OF keeps_pure w3(2,3) broken])
      (use \<open>applying\<close> w3(1,2) that in \<open>auto simp: pure_world_Inr\<close>)
qed

text \<open>A plan exists only for a live installation that runs exactly the recorded images.\<close>

lemma planned_annotation_live:
  assumes "planned_annotation d images deployments role = Inr plan"
  shows "\<exists>doc live image ref. map_of deployments role = Some doc \<and> container_images doc = Inr live
    \<and> map_of images role = Some image \<and> py_getitem image ''image_ref'' = Inr ref \<and> live_image live role = Some ref"
  using assms by (auto simp: planned_annotation_def bind_res_Inr_iff split: option.splits if_splits)

lemma planned_annotations_live:
  assumes "planned_annotations rec deployments = Inr changes"
  shows "\<exists>t c images. validate_record rec t c = Inr images \<and> py_getitem rec ''release_tag'' = Inr (JStr t)
    \<and> py_getitem rec ''commit'' = Inr (JStr c)
    \<and> (\<forall>role \<in> set roles. \<exists>doc live image ref. map_of deployments role = Some doc \<and> container_images doc = Inr live
        \<and> map_of images role = Some image \<and> py_getitem image ''image_ref'' = Inr ref \<and> live_image live role = Some ref)"
proof -
  obtain d where rec: "rec = JObj d" using assms by (cases rec) (simp_all add: planned_annotations_def)
  from assms obtain tag commit where tc: "py_getitem rec ''release_tag'' = Inr tag" "py_getitem rec ''commit'' = Inr commit"
    by (auto simp: planned_annotations_def rec bind_res_Inr_iff simp del: py_getitem.simps)
  have strs: "\<exists>t. tag = JStr t" "\<exists>c. commit = JStr c"
    using assms tc by (cases tag; cases commit; simp add: planned_annotations_def rec del: py_getitem.simps)+
  from assms tc strs obtain t c images plans where p: "validate_record rec t c = Inr images"
    "py_getitem rec ''release_tag'' = Inr (JStr t)" "py_getitem rec ''commit'' = Inr (JStr c)"
    "map_res (planned_annotation d images deployments) roles = Inr plans"
    by (auto simp: planned_annotations_def rec roles_def [symmetric] bind_res_Inr_iff simp del: py_getitem.simps split: if_splits)
  moreover have "\<exists>plan. planned_annotation d images deployments role = Inr plan" if "role \<in> set roles" for role
    using p(4) that by (auto simp: roles_def bind_res_Inr_iff)
  ultimately show ?thesis using planned_annotation_live by fastforce
qed

section \<open>What the gates decide\<close>

lemma gate_role_Inr:
  "gate_role run env deployed role w = (Inr u, w') \<Longrightarrow>
     \<exists>out doc ref version commit. run (oc_args [''get'', ''deployment'', ''mic3-'' @ role, ''-o'', ''json'']) w = (Inr out, w')
       \<and> loads_text (py_strip out) = Some doc \<and> env (image_variable role) = Some ref \<and> env ''VERSION'' = Some version
       \<and> env ''COMMIT'' = Some commit \<and> check_deployment doc role version ref commit deployed = Inr ()"
  by (auto simp: gate_role_def get_deployment_def oc_json_def oc_def command_def world_Inr json_of_text_def
      environ_get_def bind_res_Inr_iff split: option.splits)

lemma require_permission_Inr:
  "require_permission run (verb, resource) w = (Inr u, w') \<Longrightarrow>
     \<exists>out. run (oc_args [''auth'', ''can-i'', verb, resource]) w = (Inr out, w') \<and> py_strip out = ''yes''"
  by (auto simp: require_permission_def oc_def command_def world_Inr require_def split: if_splits)

lemma each_world_all:
  "each_world f xs w = (Inr ys, w') \<Longrightarrow> x \<in> set xs \<Longrightarrow> \<exists>w1 y w2. f x w1 = (Inr y, w2)"
  by (induction xs arbitrary: w ys) (auto simp: bind_world_Inr)

lemma preflight_Inr:
  assumes "preflight run env docs directory w = (Inr u, w')"
  shows "role \<in> set roles \<Longrightarrow> \<exists>v v'. gate_role run env False role v = (Inr (), v')"
    and "p \<in> set fixed_permissions \<Longrightarrow> \<exists>v v'. require_permission run p v = (Inr (), v')"
    and "doc \<in> set docs \<Longrightarrow> \<exists>v v' us. gate_resource run doc v = (Inr us, v')"
proof -
  from assms obtain w1 w2 w3 xs ys zs v1 v2 v3 where
    "each_world (gate_role run env False) roles w1 = (Inr xs, v1)"
    "each_world (gate_resource run) docs w2 = (Inr ys, v2)"
    "each_world (require_permission run) fixed_permissions w3 = (Inr zs, v3)"
    unfolding preflight_def world_Inr by blast
  note each_world_all [OF this(1)] each_world_all [OF this(2)] each_world_all [OF this(3)]
  then show "role \<in> set roles \<Longrightarrow> \<exists>v v'. gate_role run env False role v = (Inr (), v')"
    "p \<in> set fixed_permissions \<Longrightarrow> \<exists>v v'. require_permission run p v = (Inr (), v')"
    "doc \<in> set docs \<Longrightarrow> \<exists>v v' us. gate_resource run doc v = (Inr us, v')" by fastforce+
qed

text \<open>A command that prints a JSON object, read back.\<close>

lemma json_of_object:
  assumes "readable (JObj kvs)" shows "json_of_text (py_strip (dumps False ascii (JObj kvs))) = Inr (JObj kvs)"
proof -
  have "py_strip (dumps False ascii (JObj kvs)) = dumps False ascii (JObj kvs)"
    unfolding dumps_obj by (rule strip_by_id) (simp_all add: py_space_def)
  then show ?thesis using loads_with_dumps [OF assms] by (simp add: json_of_text_def loads_text_def)
qed

lemma get_object_read:
  assumes "run (oc_args args) w = (Inr (dumps False ascii j), w')" and "j = JObj kvs" and "readable j"
  shows "oc_json run args w = (Inr j, w')"
  using assms json_of_object [of kvs ascii]
  by (simp add: oc_json_def oc_def command_def bind_world_def run_command_def pure_world_def del: dumps.simps)

section \<open>The ownership patch\<close>

text \<open>
  A patch begins with a test of the resource version, so it applies only to the object that was
  read, and removes nothing but ownership entries of delivery annotations.
\<close>

lemma owned_annotations_subset:
  assumes "owned_annotations m annotations = Inr owned" shows "set owned \<subseteq> fst ` set annotations"
proof -
  from assms obtain f ks where ks: "map_res (\<lambda>k. bind_res (py_in (''f:'' @ k) f) (\<lambda>b. Inr (k, b))) (map fst annotations) = Inr ks"
    "owned = map fst (filter snd ks)" by (auto simp: owned_annotations_def bind_res_Inr_iff)
  have "list_all2 (\<lambda>k kb. fst kb = k) (map fst annotations) ks"
    using ks(1) unfolding map_res_Inr_iff by (rule list_all2_mono) (auto simp: bind_res_Inr_iff)
  then have "map fst ks = map fst annotations" by (auto simp: list_all2_conv_all_nth intro!: nth_equalityI)
  then have "fst ` set ks = fst ` set annotations" by (metis set_map)
  then show ?thesis using ks(2) by auto
qed

lemma manager_removals_only:
  "manager_removals annotations (i, m) = Inr ops \<Longrightarrow> op \<in> set ops \<Longrightarrow>
     \<exists>k \<in> fst ` set annotations. op = remove_operation i k
       \<and> (\<exists>name \<in> set bootstrap_managers. py_getitem m ''manager'' = Inr (JStr name))
       \<and> py_getitem m ''operation'' = Inr (JStr ''Update'')"
  by (auto simp: manager_removals_def bind_res_Inr_iff simp del: py_getitem.simps split: if_splits;
      drule owned_annotations_subset; force)

theorem ownership_patch_only:
  assumes "ownership_patch doc role annotations = Inr patch"
  obtains rv ops where "patch = JObj [(''op'', JStr ''test''), (''path'', JStr ''/metadata/resourceVersion''), (''value'', rv)] # ops"
    "path_get doc [''metadata'', ''resourceVersion''] = Inr rv"
    "\<forall>op \<in> set ops. \<exists>i. \<exists>k \<in> fst ` set annotations. op = remove_operation i k"
proof -
  from assms obtain metadata rv removals managers where m: "py_getitem doc ''metadata'' = Inr metadata"
    "py_getitem metadata ''resourceVersion'' = Inr rv"
    "map_res (manager_removals annotations) (enumerate 0 managers) = Inr removals"
    "patch = JObj [(''op'', JStr ''test''), (''path'', JStr ''/metadata/resourceVersion''), (''value'', rv)] # concat removals"
    by (auto simp: ownership_patch_def bind_res_Inr_iff simp del: py_getitem.simps split: if_splits)
  have only: "\<exists>i. \<exists>k \<in> fst ` set annotations. op = remove_operation i k" if op: "op \<in> set (concat removals)" for op
  proof -
    from op obtain ops where ops: "ops \<in> set removals" "op \<in> set ops" by auto
    then obtain i where "i < length removals" "ops = removals ! i" by (auto simp: in_set_conv_nth)
    then have "manager_removals annotations (enumerate 0 managers ! i) = Inr ops"
      using m(3) by (simp add: map_res_Inr_iff list_all2_conv_all_nth)
    then obtain j v where "manager_removals annotations (j, v) = Inr ops" by (cases "enumerate 0 managers ! i") simp
    from manager_removals_only [OF this ops(2)] show ?thesis by blast
  qed
  show thesis by (rule that [OF m(4) _ ballI [OF only]]) (simp_all add: m(1,2) del: py_getitem.simps)
qed

end
