(* ===== verification/Operators.thy ===== *)
theory Operators
  imports Queries Kubernetes Json_Read
begin

text \<open>
  What operators run: the command line (\<open>cli.py\<close>, \<open>cli_runs.py\<close>) over the same use cases
  as the HTTP API, and the check of a deployment (\<open>scripts/deployment_check.py\<close>), which
  registers a diagnostic release, submits a run and waits for its verified result. Parsing of
  arguments and the text that is printed are left out; a command's result is its value.
\<close>

section \<open>Input files\<close>

text \<open>
  \<open>path.read_text(encoding="utf-8-sig")\<close>, then \<open>json.loads\<close> with a \<open>parse_constant\<close> that
  raises. \<open>None\<close> is a file that cannot be read.
\<close>

definition utf8_sig :: "string \<Rightarrow> string option" where
  "utf8_sig b = map_option (map code_char)
     (utf8_points (if starts_with b [CHR 0xEF, CHR 0xBB, CHR 0xBF] then drop 3 b else b))"

definition read_json :: "string option \<Rightarrow> exn + json" where
  "read_json file =
     (case Option.bind (Option.bind file utf8_sig) (loads_with []) of
        None \<Rightarrow> Inl (ModelError ''Cannot read a valid JSON input file.'')
      | Some j \<Rightarrow> Inr j)"

section \<open>Commands\<close>

datatype cli_command =
    RegisterModelRelease "string option"
  | SubmitRunCommand uuid "string option" "uuid option"
  | ModelJobValues uuid
  | ShowRun uuid

datatype command_result =
    RegisteredRelease uuid string string
  | SubmittedRun queued_run
  | JobValues json
  | ShownRun shown_run

text \<open>\<open>between\<close> is what other processes commit between two transactions of a command.\<close>

definition job_values_of :: "(db \<Rightarrow> db) \<Rightarrow> uuid \<Rightarrow> db \<Rightarrow> exn + json" where
  "job_values_of between run_id d =
     bind_res (show_run run_id d) (\<lambda>run.
     bind_res (get_release (sh_model_release_id run) (between d)) (\<lambda>release.
     if sh_status run \<noteq> QUEUED
     then Inl (ModelError ''Only queued runs can be exported; retry by submitting a new run.'')
     else
       bind_res (matches_fingerprint (mr_definition release) (sh_parameters run) (sh_fingerprint run)) (\<lambda>same.
       if \<not> same
       then Inl (ModelError ''Catalog execution has changed; submit a new run before exporting Job values.'')
       else model_job_values (mr_definition release) (sh_parameters run) run_id)))"

definition execute_run_command :: "(db \<Rightarrow> db) \<Rightarrow> stamp \<Rightarrow> uuid \<Rightarrow> cli_command \<Rightarrow> db \<Rightarrow> (exn + command_result) \<times> db" where
  "execute_run_command between st new_id cmd d =
     (case cmd of
        RegisterModelRelease config \<Rightarrow>
          (case read_json config of
             Inl e \<Rightarrow> (Inl e, d)
           | Inr j \<Rightarrow>
               (case register_release (register st) j d of
                  (Inl e, d') \<Rightarrow> (Inl e, d')
                | (Inr r, d') \<Rightarrow>
                    (Inr (RegisteredRelease (mr_id r) (rd_model_id (mr_definition r)) (rd_image_digest (mr_definition r))), d')))
      | SubmitRunCommand release_id parameters requested_by \<Rightarrow>
          (case read_json parameters of
             Inl e \<Rightarrow> (Inl e, d)
           | Inr j \<Rightarrow>
               (case submit None st new_id release_id j requested_by d of
                  (Inl e, d') \<Rightarrow> (Inl e, d')
                | (Inr q, d') \<Rightarrow> (Inr (SubmittedRun q), d')))
      | ModelJobValues run_id \<Rightarrow> (map_sum id JobValues (job_values_of between run_id d), between d)
      | ShowRun run_id \<Rightarrow> (map_sum id ShownRun (show_run run_id d), d))"

datatype operator_command = GrantAdminCommand uuid | RunCommand cli_command

datatype printed =
    Granted uuid bool
  | Result command_result
  | Complaint string

text \<open>
  \<open>main\<close>: what is printed, the exit code and the database. \<open>None\<close> is an exception that no
  handler names; \<open>configured\<close> is whether the settings could be read.
\<close>

definition cli_main :: "(db \<Rightarrow> db) \<Rightarrow> bool \<Rightarrow> stamp \<Rightarrow> uuid \<Rightarrow> operator_command \<Rightarrow> db \<Rightarrow> (printed \<times> nat) option \<times> db" where
  "cli_main between configured st new_id cmd d =
     (if \<not> configured then (Some (Complaint ''Database configuration or operation failed.'', 1), d)
      else
        (let (res, d') =
           (case cmd of
              GrantAdminCommand u \<Rightarrow> map_prod (map_sum id (Granted u)) id (grant_admin st u d)
            | RunCommand c \<Rightarrow> map_prod (map_sum id Result) id (execute_run_command between st new_id c d))
         in case res of
              Inr p \<Rightarrow> (Some (p, 0), d')
            | Inl e \<Rightarrow>
                if is_application_error e then (Some (Complaint (exn_message e), 1), d')
                else (case e of
                    DBAPIError _ \<Rightarrow> (Some (Complaint ''Database configuration or operation failed.'', 1), d')
                  | _ \<Rightarrow> (None, d'))))"

section \<open>The deployment check\<close>

definition EXPECTED :: string where
  "EXPECTED = ''MIC3 deployment verification'' @ [CHR 0x0A]"

definition MODEL_ID :: string where "MODEL_ID = ''mic3-deployment-check''"

definition check_arguments :: "string list" where
  "check_arguments = [''python'', ''-c'',
     ''from pathlib import Path; Path('' @ [CHR 0x27] @ ''/outputs/result.txt'' @ [CHR 0x27] @ '').write_bytes(b''
       @ [CHR 0x27] @ ''MIC3 deployment verification'' @ [CHR 0x5C, CHR ''n'', CHR 0x27] @ '')'']"

definition check_definition :: "string \<Rightarrow> json" where
  "check_definition model_image =
     JObj [(''model_id'', JStr MODEL_ID), (''display_name'', JStr ''MIC3 deployment check (diagnostic)''),
       (''image_digest'', JStr model_image),
       (''execution_definition'', JObj [(''modes'', JObj [(''check'', JObj
          [(''arguments'', JList (map JStr check_arguments)), (''working_directory'', JStr ''/tmp''),
           (''output_directory'', JStr ''/outputs''), (''required_outputs'', JList [JStr ''result.txt''])])])])]"

definition register_and_submit :: "(db \<Rightarrow> db) \<Rightarrow> stamp \<Rightarrow> stamp \<Rightarrow> uuid \<Rightarrow> string \<Rightarrow> db \<Rightarrow> (exn + uuid) \<times> db" where
  "register_and_submit between st st' new_id model_image d =
     (case register_release (register st) (check_definition model_image) d of
        (Inl e, d1) \<Rightarrow> (Inl e, d1)
      | (Inr release, d1) \<Rightarrow>
          (case submit None st' new_id (mr_id release) (JObj [(''mode'', JStr ''check'')]) None (between d1) of
             (Inl e, d2) \<Rightarrow> (Inl e, d2)
           | (Inr q, d2) \<Rightarrow> (Inr (q_id q), d2)))"

definition ends_with :: "string \<Rightarrow> string \<Rightarrow> bool" where
  "ends_with s p \<longleftrightarrow> starts_with (rev s) (rev p)"

text \<open>\<open>get_object\<close> is the body of the object under a bucket and a key.\<close>

definition published_types :: "shown_run \<Rightarrow> string set" where
  "published_types result = set (map se_event_type (filter (\<lambda>e. se_published_at e \<noteq> None) (sh_events result)))"

definition verify_artifact :: "(string \<Rightarrow> string \<Rightarrow> exn + string) \<Rightarrow> string \<Rightarrow> shown_run \<Rightarrow> artifact \<Rightarrow> exn + bool" where
  "verify_artifact get_object bucket result a =
     (if a_bucket a \<noteq> bucket \<or> a_size_bytes a \<noteq> int (length EXPECTED)
        \<or> \<not> ends_with (a_object_key a) (''/'' @ uuid_str (sh_id result) @ ''/outputs/result.txt'')
      then Inl (RuntimeError ''Unexpected diagnostic artifact metadata'')
      else if \<not> {''run.requested'', ''run.succeeded''} \<subseteq> published_types result then Inr False
      else
        bind_res (get_object bucket (a_object_key a)) (\<lambda>body.
        if take (length EXPECTED + 1) body \<noteq> EXPECTED then Inl (RuntimeError ''Diagnostic artifact bytes differ'')
        else Inr True))"

definition verify_result :: "(string \<Rightarrow> string \<Rightarrow> exn + string) \<Rightarrow> string \<Rightarrow> shown_run \<Rightarrow> exn + bool" where
  "verify_result get_object bucket result =
     (if sh_status result = FAILED
      then Inl (RuntimeError (''Diagnostic run failed: '' @ (case sh_failure_code result of None \<Rightarrow> ''None'' | Some c \<Rightarrow> c)))
      else if sh_status result \<noteq> SUCCEEDED then Inr False
      else if sh_accepted_at result = None \<or> \<not> truthy (sh_job_uid result)
      then Inl (RuntimeError ''Succeeded run has no acceptance or Job identity'')
      else (case sh_artifacts result of
          [a] \<Rightarrow> verify_artifact get_object bucket result a
        | _ \<Rightarrow> Inl (RuntimeError ''Expected exactly one diagnostic artifact'')))"

text \<open>
  One turn of the wait: the clock at its head, what the inspection answers and what the object
  store holds then. \<open>None\<close>: the turns given do not reach an end.
\<close>

record check_turn =
  ct_clock :: int
  ct_shown :: "exn + shown_run"
  ct_object :: "string \<Rightarrow> string \<Rightarrow> exn + string"

datatype check_failure = TimedOut | Aborted exn

fun wait_for_run :: "string \<Rightarrow> int \<Rightarrow> check_turn list \<Rightarrow> (check_failure + shown_run) option" where
  "wait_for_run bucket deadline [] = None"
| "wait_for_run bucket deadline (t # ts) =
     (if ct_clock t \<ge> deadline then Some (Inl TimedOut)
      else (case ct_shown t of
          Inl e \<Rightarrow> Some (Inl (Aborted e))
        | Inr result \<Rightarrow>
            (case verify_result (ct_object t) bucket result of
               Inl e \<Rightarrow> Some (Inl (Aborted e))
             | Inr True \<Rightarrow> Some (Inr result)
             | Inr False \<Rightarrow> wait_for_run bucket deadline ts)))"

section \<open>The command line\<close>

text \<open>Only a queued run of an unchanged release is exported, with the fingerprint it was stored with.\<close>

lemma job_values_of_Inr:
  assumes "job_values_of between i d = Inr j"
  obtains r release where "find_run i d = Some r" "r_status r = QUEUED" "get_release (r_model_release_id r) (between d) = Inr release"
    "matches_fingerprint (mr_definition release) (r_parameters r) (r_fingerprint r) = Inr True"
    "model_job_values (mr_definition release) (r_parameters r) i = Inr j"
  using assms by (auto simp: job_values_of_def bind_res_Inr_iff show_run_def split: option.splits if_splits)

section \<open>The deployment check\<close>

lemma take_Suc_eq_same: "take (Suc (length xs)) ys = xs \<longleftrightarrow> ys = xs"
proof
  assume t: "take (Suc (length xs)) ys = xs"
  then have "length (take (Suc (length xs)) ys) = length xs" by (simp only:)
  then have "length ys = length xs" by simp
  with t show "ys = xs" by simp
qed simp

lemma verify_result_True:
  assumes "verify_result get bucket s = Inr True"
  obtains a where "sh_status s = SUCCEEDED" "sh_accepted_at s \<noteq> None" "truthy (sh_job_uid s)" "sh_artifacts s = [a]"
    "a_bucket a = bucket" "a_size_bytes a = int (length EXPECTED)"
    "ends_with (a_object_key a) (''/'' @ uuid_str (sh_id s) @ ''/outputs/result.txt'')"
    "{''run.requested'', ''run.succeeded''} \<subseteq> published_types s" "get bucket (a_object_key a) = Inr EXPECTED"
  using assms by (auto simp: verify_result_def verify_artifact_def bind_res_Inr_iff take_Suc_eq_same split: if_splits list.splits)

lemma wait_for_run_ends: "t \<in> set ts \<Longrightarrow> deadline \<le> ct_clock t \<Longrightarrow> \<exists>r. wait_for_run bucket deadline ts = Some r"
  by (induction ts) (auto split: sum.splits bool.splits)

lemma wait_for_run_Inr:
  "wait_for_run bucket deadline ts = Some (Inr s) \<Longrightarrow>
     \<exists>t \<in> set ts. ct_clock t < deadline \<and> ct_shown t = Inr s \<and> verify_result (ct_object t) bucket s = Inr True"
  by (induction ts) (auto split: sum.splits bool.splits if_splits)

end
