(* ===== verification/Encounters.thy ===== *)
theory Encounters
  imports Scenario Access Processes Delivery Operators
begin

text \<open>
  Concrete surroundings for the adapters: a cluster that holds the Job of the scenario's run, a
  Helm that renders it, an object store with its output, an identity provider, and turns of the
  loops. They give the properties of the boundary concrete inputs.
\<close>

section \<open>A cluster, a chart and an object store\<close>

definition demo_spec :: json where
  "demo_spec = JObj [(''backoffLimit'', JInt 0)]"

definition demo_manifest :: json where
  "demo_manifest = JObj [(''kind'', JStr ''Job''), (''metadata'', JObj [(''labels'', JObj []), (''annotations'', JObj [])]),
     (''spec'', demo_spec)]"

definition demo_job :: json where
  "demo_job = JObj [(''metadata'', JObj [(''uid'', JStr ''uid-1'')]), (''spec'', JObj [(''backoffLimit'', JInt 0), (''parallelism'', JInt 1)]),
     (''status'', JObj [(''conditions'', JList [JObj [(''type'', JStr ''Complete''), (''status'', JStr ''True'')]])])]"

definition demo_cluster :: "nat cluster_api" where
  "demo_cluster = \<lparr>read_job = (\<lambda>_ _ w. (Inr demo_job, w)), create_job = (\<lambda>_ _ w. (Inl TransportError, w)),
     list_pods = (\<lambda>_ _ w. (Inr (JObj []), w))\<rparr>"

definition demo_helm :: "string list \<Rightarrow> json \<Rightarrow> json list option" where
  "demo_helm args values = Some [demo_manifest]"

definition demo_pages :: "nat \<Rightarrow> string \<Rightarrow> string \<Rightarrow> json list option" where
  "demo_pages w bucket prefix = Some [JObj [(''Contents'', JList [JObj [(''Key'', JStr (prefix @ ''map.tif'')), (''Size'', JInt 5)]])]]"

lemma demo_render: "render_job demo_helm ''helm'' ''chart'' None demo_work = Inr demo_manifest"
proof -
  have "prepare demo_execution (mode_params ''fast'') = Inr (mode_params ''fast'')"
    by (simp add: prepare_mode_params demo_execution_def del: prepare.simps)
  then obtain v where "model_job_values demo_release (mode_params ''fast'') 20 = Inr v"
    using demo_fingerprint demo_resolved
    by (auto simp: model_job_values_def demo_release_def simp del: prepare.simps)
  then show ?thesis by (simp add: render_job_def demo_work_def demo_helm_def demo_manifest_def)
qed

lemma demo_observe:
  "observe_or_create demo_cluster ''models'' (render_job demo_helm ''helm'' ''chart'' None) demo_work w
   = (Inr \<lparr>o_uid = ''uid-1'', o_state = ''succeeded'', o_failure_code = None\<rparr>, w)"
proof -
  have found: "find_or_create demo_cluster ''models'' demo_work demo_manifest w = (Inr demo_job, w)"
    by (simp add: find_or_create_def get_job_def demo_cluster_def)
  have "verify_contract demo_work (JStr ''uid-1'') demo_job demo_manifest = Inr ()"
    by (simp add: verify_contract_def demo_work_def truthy_def demo_job_def demo_manifest_def demo_spec_def py_scalar_eq_def)
  moreover have "true_conditions demo_job = Inr [''Complete'']"
    by (simp add: true_conditions_def demo_job_def condition_of_def List.map_filter_def)
  ultimately have "observe_found demo_cluster ''models'' demo_work demo_manifest demo_job w
      = (Inr \<lparr>o_uid = ''uid-1'', o_state = ''succeeded'', o_failure_code = None\<rparr>, w)"
    by (simp add: observe_found_def) (simp add: demo_job_def)
  moreover have "w_namespace demo_work = Some ''models''" by (simp add: demo_work_def)
  ultimately show ?thesis by (simp add: observe_or_create_def demo_render found)
qed

lemma demo_inventory: "s3_list (demo_pages w) ''outputs'' demo_prefix = Inr [demo_output]"
  by (simp add: s3_list_def demo_pages_def artifact_of_object_def demo_prefix_def demo_output_def)

lemma demo_adapters:
  "reconcile True (\<lambda>d. d) (at 500 31) (observe_or_create demo_cluster ''models'' (render_job demo_helm ''helm'' ''chart'' None))
     (\<lambda>p w. s3_list (demo_pages w) ''outputs'' p) 20 demo_running 0 = (Inr (), demo_succeeded, 0)"
  using demo_reconcile_any [where w = 0 and w' = 0 and inventory = "\<lambda>p w. s3_list (demo_pages w) ''outputs'' p"
      and observe = "observe_or_create demo_cluster ''models'' (render_job demo_helm ''helm'' ''chart'' None)"]
    demo_observe demo_inventory by simp

section \<open>An identity provider\<close>

definition demo_settings :: oidc_settings where
  "demo_settings = \<lparr>os_issuer_url = ''https://id'', os_audience = ''mic3'', os_allowed_algorithms = [''RS256''],
     os_clock_skew_seconds = 30, os_jwks_cache_seconds = 300\<rparr>"

lemma demo_settings_ok: "make_oidc_settings ''https://id'' '' mic3'' [''RS256''] 30 300 = Inr demo_settings"
  by code_simp

text \<open>A provider with one key; its tokens name the scenario's user.\<close>

definition demo_oidc :: "unit oidc_env" where
  "demo_oidc = \<lparr>unverified_header = (\<lambda>_. Inr [(''alg'', JStr ''RS256''), (''kid'', JStr ''k'')]),
     fetch_document = (\<lambda>_. Fetched 80 (Parsed (JObj [(''issuer'', JStr ''https://id''), (''jwks_uri'', JStr ''https://id/keys'')]))),
     signing_key = (\<lambda>_ _. Inr ()),
     jwt_decode = (\<lambda>_ _ _ _ iss _ _. Inr [(''iss'', JStr iss), (''sub'', JStr ''u-1''), (''exp'', JInt 1000), (''email'', JStr ''a@b'')])\<rparr>"

lemma demo_oidc_issuer:
  "jwt_decode demo_oidc token key algs aud iss leeway req = Inr claims \<Longrightarrow> map_of claims ''iss'' = Some (JStr iss)"
  by (auto simp: demo_oidc_def)

lemma demo_discover: "discover_jwks_uri demo_oidc demo_settings = Inr ''https://id/keys''"
proof -
  have "is_absolute_http_url ''https://id/keys'' = Inr True" by code_simp
  then show ?thesis
    by (simp add: discover_jwks_uri_def demo_oidc_def demo_settings_def MAX_DISCOVERY_DOCUMENT_BYTES_def)
qed

lemma demo_validate:
  "validate_token demo_oidc demo_settings ''token'' None = (Inr (demo_identity\<lparr>vi_expires_at := Some 1000\<rparr>), Some ''https://id/keys'')"
proof -
  have "py_strip ''a@b'' \<noteq> []" by code_simp
  then have "identity_of_claims [(''iss'', JStr ''https://id''), (''sub'', JStr ''u-1''), (''exp'', JInt 1000), (''email'', JStr ''a@b'')]
      = Inr (demo_identity\<lparr>vi_expires_at := Some 1000\<rparr>)"
    by (simp add: identity_of_claims_def optional_profile_claim_def demo_identity_def)
  moreover have "get_jwks_client demo_oidc demo_settings None = (Inr ''https://id/keys'', Some ''https://id/keys'')"
    by (simp add: get_jwks_client_def demo_discover)
  moreover have "unverified_header demo_oidc ''token'' = Inr [(''alg'', JStr ''RS256''), (''kid'', JStr ''k'')]"
    "signing_key demo_oidc uri ''token'' = Inr ()" "os_issuer_url demo_settings = ''https://id''" "os_allowed_algorithms demo_settings = [''RS256'']"
    "jwt_decode demo_oidc ''token'' () algs aud iss leeway req
      = Inr [(''iss'', JStr iss), (''sub'', JStr ''u-1''), (''exp'', JInt 1000), (''email'', JStr ''a@b'')]" for uri algs aud iss leeway req
    by (simp_all add: demo_oidc_def demo_settings_def)
  ultimately show ?thesis by (simp add: validate_token_def)
qed

definition demo_meeting :: meeting where
  "demo_meeting = \<lparr>mt_stamp1 = at 150 40, mt_stamp2 = at 150 41, mt_during1 = (\<lambda>d. d), mt_during2 = (\<lambda>d. d)\<rparr>"

definition demo_post :: "current_user \<Rightarrow> db \<Rightarrow> (exn + submitted_run_response) \<times> db" where
  "demo_post = post_run \<lparr>per_user = 2, global_total = 3\<rparr> (at 200 30) 20
     \<lparr>sq_model_release_id = 10, sq_parameters = mode_params ''fast''\<rparr>"

lemma demo_current_user:
  "get_current_user demo_oidc demo_settings demo_meeting (Some (''Bearer'', ''token'')) (None, owned_registered)
   = (Inr \<lparr>cu_id = 5, cu_email = Some ''a@b'', cu_display_name = None, cu_roles = [''member'']\<rparr>, Some ''https://id/keys'', owned_registered)"
proof -
  have "find_by_identity ''https://id'' ''u-1'' owned_registered
      = Some \<lparr>ua_id = 5, ua_email = Some ''a@b'', ua_display_name = None, ua_is_active = True, ua_roles = {''member''}\<rparr>"
    by (simp add: find_by_identity_def identity_key_def account_of_row_def roles_of_def owned_registered_def demo_users_def)
  then have "resolve_request_user demo_meeting (demo_identity\<lparr>vi_expires_at := Some 1000\<rparr>) owned_registered
      = (Inr \<lparr>cu_id = 5, cu_email = Some ''a@b'', cu_display_name = None, cu_roles = [''member'']\<rparr>, owned_registered)"
    by (simp add: resolve_request_user_def current_user_of_def resolve_current_user_def transaction.simps resolve_once_def
        and_current_def synchronize_profile_def profile_updates_def has_changes_def as_current_user_def demo_meeting_def
        demo_identity_def Let_def)
  moreover have "map ascii_lower ''Bearer'' = ''bearer''" by code_simp
  ultimately show ?thesis by (simp add: get_current_user_def get_validated_identity_def demo_validate)
qed

lemma demo_post_run:
  "\<exists>resp. with_user demo_oidc demo_settings demo_meeting (Some (''Bearer'', ''token'')) demo_post (None, owned_registered)
    = (Inr resp, Some ''https://id/keys'', owned_submitted)"
proof -
  have "admit (Some \<lparr>per_user = 2, global_total = 3\<rparr>) q owned_registered = Inr ()" if "q_requested_by q = Some 5" for q
    using that by (simp add: admit_def check_limits_def owned_active_count_def active_count_def owned_registered_def demo_users_def empty_db_def)
  from owned_submit_any [OF this] show ?thesis by (simp add: with_user_def demo_current_user demo_post_def post_run_def)
qed

section \<open>Turns of the loops\<close>

definition demo_check :: access_check where
  "demo_check = \<lparr>ck_before = 1, ck_active = Inr True, ck_after = 2\<rparr>"

definition demo_turn :: "int \<Rightarrow> turn" where
  "demo_turn t = \<lparr>tn_error = None, tn_updates = [demo_detail], tn_monotonic = 5, tn_check = demo_check, tn_time = t,
     tn_monotonic_after = 6\<rparr>"

definition demo_event :: run_event where
  "demo_event = \<lparr>ev_id = 30, ev_run_id = 20, ev_event_type = ''run.requested'', ev_created_at = 200\<rparr>"

definition demo_record :: kafka_record where
  "demo_record = \<lparr>kr_location = demo_location, kr_key = Some (uuid_str 20), kr_value = Some (event_payload demo_event)\<rparr>"

text \<open>A reader of the timestamps the publisher writes.\<close>

definition demo_time :: "string \<Rightarrow> bool option" where
  "demo_time s = (if drop (length s - 6) s = ''+00:00'' then Some True else None)"

lemma demo_time_isoformat [simp]: "demo_time (isoformat t) = Some True"
proof -
  have "\<exists>x. isoformat t = x @ ''+00:00''"
    unfolding isoformat_def Let_def case_prod_beta append_assoc [symmetric] by (rule exI, rule refl)
  then show ?thesis by (auto simp: demo_time_def)
qed

definition demo_decode :: decoder where
  "demo_decode = decode_request demo_time 100"

lemma demo_decoded: "demo_decode (kr_key demo_record) (kr_value demo_record) = Inl 20"
  by (simp add: demo_decode_def demo_record_def decode_payload) (simp add: demo_event_def)

definition demo_worker_turn :: worker_turn where
  "demo_worker_turn = \<lparr>wt_factory = Inr 60, wt_polls = [\<lparr>pl_message = Inr (Some (BrokerRecord demo_record)), pl_clock = 1,
     pl_others = (\<lambda>d. d), pl_stamp = at 300 31, pl_reply = Offsets [None]\<rparr>]\<rparr>"

lemma demo_worker_run:
  "worker_run demo_decode True [demo_worker_turn] demo_submitted
   = (0, [[(committed_offset demo_record, demo_record, demo_accepted)]], demo_accepted)"
  using demo_decoded by (simp add: worker_attempt_def demo_worker_turn_def handle_record_def demo_record_def demo_consume)

definition demo_round :: publish_round where
  "demo_round = \<lparr>pr_others = (\<lambda>d. d), pr_locked = (\<lambda>_. False), pr_clock = (\<lambda>_. 250), pr_commit = (\<lambda>_. None)\<rparr>"

definition demo_broker :: broker where
  "demo_broker = \<lparr>acknowledged = [], responses = [Polls [(3, Some Acknowledged)]]\<rparr>"

section \<open>A release\<close>

definition demo_commit :: string where
  "demo_commit = replicate 40 CHR ''a''"

definition demo_image_digest :: string where
  "demo_image_digest = ''sha256:'' @ replicate 64 CHR ''b''"

definition demo_local :: json where
  "demo_local = JList [JObj [(''Os'', JStr ''linux''), (''Architecture'', JStr ''amd64''),
     (''Config'', JObj [(''Labels'', JObj [(''org.opencontainers.image.revision'', JStr demo_commit),
        (''org.opencontainers.image.version'', JStr ''1.10.0'')])]),
     (''RepoDigests'', JList (map (\<lambda>(_, r). JStr (r @ ''@'' @ demo_image_digest)) repositories))]]"

text \<open>A registry that knows as many images as were pushed.\<close>

definition demo_docker :: "nat docker" where
  "demo_docker = \<lparr>manifest_inspect = (\<lambda>_ n. (if n = 0 then Inl ''manifest unknown'' else Inr (), n)),
     image_inspect = (\<lambda>_ n. (Inr demo_local, n)), push_image = (\<lambda>_ n. (Inr (), Suc n))\<rparr>"

definition demo_images :: json_dict where
  "demo_images = map (\<lambda>(role, r). (role, JObj [(''image_repository'', JStr r),
     (''image_ref'', JStr (r @ '':1.10.0@'' @ demo_image_digest))])) repositories"

lemma demo_publish_release:
  "publish_release demo_docker ''v1.10.0'' demo_commit 0 = (Inr (release_json ''v1.10.0'' demo_commit demo_images), 3)"
  by code_simp

definition demo_deployment :: json where
  "demo_deployment = JObj [(''metadata'', JObj [(''annotations'', JObj [(''delivery.mic3.io/version'', JStr ''1.9.0'')])]),
     (''spec'', JObj [(''replicas'', JInt 1), (''template'', JObj [(''spec'', JObj [(''containers'',
       JList [JObj [(''name'', JStr ''worker''), (''image'', JStr ''old'')]])])])])]"

lemma demo_check_deployment: "check_deployment demo_deployment ''worker'' ''1.10.0'' ''new'' demo_commit False = Inr ()"
  by code_simp

section \<open>A delivery\<close>

text \<open>A cluster that counts the commands that may change it.\<close>

definition demo_answer :: "string list \<Rightarrow> string" where
  "demo_answer args =
     (if take 2 args = [''helm'', ''status''] then dumps False True (JObj [(''info'', JObj [(''status'', JStr ''deployed'')])])
      else if drop 2 (take 4 args) = [''get'', ''deployment''] then dumps False True demo_deployment
      else ''yes'' @ [CHR 0x0A])"

definition demo_run_command :: "nat runner" where
  "demo_run_command args n = (Inr (demo_answer args), if read_only args then n else Suc n)"

lemma demo_reading: "reading (\<lambda>n. n = k) demo_run_command"
  by (simp add: reading_def keeps_def demo_run_command_def)

definition demo_environ :: environ where
  "demo_environ = map_of [(''VERSION'', ''1.10.0''), (''COMMIT'', demo_commit), (''IMAGE_REF'', ''new''),
     (''PUBLISHER_IMAGE_REF'', ''new''), (''WORKER_IMAGE_REF'', ''new'')]"

lemma demo_preflight: "preflight demo_run_command demo_environ [] ''out'' 0 = (Inr (), 0)"
  by code_simp

text \<open>An installation that runs the recorded images, for an operator who annotates it.\<close>

definition demo_live :: "string \<Rightarrow> json" where
  "demo_live role =
     (let ref = JStr (''ghcr.io/transience-mic3/mic3-'' @ role @ '':1.10.0@'' @ demo_image_digest) in
      JObj [(''metadata'', JObj [(''annotations'', JObj [(ANNOTATION @ ''version'', JStr ''1.10.0''),
          (ANNOTATION @ ''commit'', JStr demo_commit), (ANNOTATION @ ''image'', ref)]), (''resourceVersion'', JStr ''7'')]),
        (''spec'', JObj [(''template'', JObj [(''spec'', JObj [(''containers'',
          JList [JObj [(''name'', JStr role), (''image'', ref)]])])])])])"

definition demo_operator :: "nat runner" where
  "demo_operator args n =
     (Inr (if take 2 args = [''helm'', ''status''] then demo_answer args
       else if args ! 3 = ''deployment'' then dumps False True (demo_live (drop 5 (args ! 4)))
       else dumps False True (demo_live (drop 16 (args ! 3)))), if read_only args then n else Suc n)"

lemma demo_live_read:
  "get_deployment demo_operator role n = (Inr (demo_live role), n)"
  "oc_json demo_operator [''get'', ''deployment/mic3-'' @ role, ''--show-managed-fields'', ''-o'', ''json''] n = (Inr (demo_live role), n)"
proof -
  have obj: "\<exists>kvs. demo_live role = JObj kvs" "readable (demo_live role)"
    by (simp_all add: demo_live_def Let_def ANNOTATION_def)
  then show "get_deployment demo_operator role n = (Inr (demo_live role), n)"
    unfolding get_deployment_def
    by (elim exE, intro get_object_read) (simp_all add: demo_operator_def oc_args_def read_only_def)
  from obj show "oc_json demo_operator [''get'', ''deployment/mic3-'' @ role, ''--show-managed-fields'', ''-o'', ''json''] n
      = (Inr (demo_live role), n)"
    by (elim exE, intro get_object_read) (simp_all add: demo_operator_def oc_args_def read_only_def)
qed

definition demo_change :: "string \<Rightarrow> string \<times> json_dict \<times> json" where
  "demo_change role = (role, [(ANNOTATION @ ''version'', JStr ''1.10.0''), (ANNOTATION @ ''commit'', JStr demo_commit),
     (ANNOTATION @ ''image'', JStr (''ghcr.io/transience-mic3/mic3-'' @ role @ '':1.10.0@'' @ demo_image_digest))], JStr ''7'')"

lemma demo_plan:
  "planned_annotations (release_json ''v1.10.0'' demo_commit demo_images) (map (\<lambda>role. (role, demo_live role)) roles)
   = Inr (map demo_change [''publisher'', ''worker''])"
  by code_simp

lemma demo_patch:
  "ownership_patch (demo_live ''publisher'') ''publisher'' (fst (snd (demo_change ''publisher''))) =
     Inr [JObj [(''op'', JStr ''test''), (''path'', JStr ''/metadata/resourceVersion''), (''value'', JStr ''7'')]]"
  "ownership_patch (demo_live ''worker'') ''worker'' (fst (snd (demo_change ''worker''))) =
     Inr [JObj [(''op'', JStr ''test''), (''path'', JStr ''/metadata/resourceVersion''), (''value'', JStr ''7'')]]"
  by code_simp+

lemma demo_annotate:
  "oc demo_operator (''annotate'' # (''deployment/mic3-'' @ role) # args) n = (Inr (py_strip (dumps False True (demo_live role))), Suc n)"
  if "''--dry-run=server'' \<notin> set args"
  using that
  by (simp add: oc_def command_def oc_args_def bind_world_def run_command_def pure_world_def demo_operator_def read_only_def
      del: dumps.simps)

lemma demo_write:
  assumes "role = ''publisher'' \<or> role = ''worker''"
  shows "write_annotations demo_operator pt False existing (demo_change role) n = (Inr (), Suc n)"
proof -
  define ann where "ann = fst (snd (demo_change role))"
  have change: "demo_change role = (role, ann, JStr ''7'')" by (simp add: ann_def demo_change_def)
  define resource where "resource = ''deployment/mic3-'' @ role"
  define args where "args = ''--overwrite'' # ''--field-manager=mic3-bootstrap'' # ''--resource-version=7''
      # map (\<lambda>(k, v). k @ ''='' @ (case v of JStr s \<Rightarrow> s)) ann"
  have "annotate_args resource ann (JStr ''7'') = Inr (''annotate'' # resource # args)"
    by (simp add: annotate_args_def ann_def args_def demo_change_def)
  moreover have "''--dry-run=server'' \<notin> set args"
    by (simp add: args_def ann_def demo_change_def ANNOTATION_def)
  then obtain out where "oc demo_operator (''annotate'' # resource # args) n = (Inr out, Suc n)"
    using demo_annotate unfolding resource_def by blast
  moreover have "oc_json demo_operator [''get'', resource, ''--show-managed-fields'', ''-o'', ''json''] (Suc n) = (Inr (demo_live role), Suc n)"
    unfolding resource_def by (rule demo_live_read)
  moreover have "ownership_patch (demo_live role) role ann =
     Inr [JObj [(''op'', JStr ''test''), (''path'', JStr ''/metadata/resourceVersion''), (''value'', JStr ''7'')]]"
    using assms demo_patch by (auto simp: ann_def)
  ultimately show ?thesis
    unfolding write_annotations_def change case_prod_conv resource_def [symmetric] Let_def
    by (simp add: bind_world_def pure_world_def)
qed

lemma demo_bootstrap:
  "bootstrap demo_operator pt (release_json ''v1.10.0'' demo_commit demo_images) True False 0 = (Inr [(), ()], 2)"
proof -
  have status: "command demo_operator [''helm'', ''status'', ''mic3-execution'', ''-o'', ''json''] 0
      = (Inr (demo_answer [''helm'', ''status'']), 0)" "bind_res (json_of_text (demo_answer [''helm'', ''status''])) check_helm_status = Inr ()"
    by code_simp+
  have read: "each_world (\<lambda>role. bind_world (get_deployment demo_operator role) (\<lambda>doc. pure_world (Inr (role, doc)))) roles 0
      = (Inr (map (\<lambda>role. (role, demo_live role)) roles), 0)"
    by (simp add: roles_def bind_world_def pure_world_def demo_live_read)
  have change: "apply_change demo_operator pt True False (map (\<lambda>role. (role, demo_live role)) roles) (demo_change role) n = (Inr (), Suc n)"
    if "role = ''publisher'' \<or> role = ''worker''" for role n
  proof -
    have "\<exists>existing. bind_res (py_getitem (JObj (map (\<lambda>role. (role, demo_live role)) roles)) role) (\<lambda>doc.
        bind_res (py_getitem doc ''metadata'') (\<lambda>m. py_get m ''annotations'' (JObj []))) = Inr existing"
      using that by (auto simp: roles_def demo_live_def Let_def)
    then show ?thesis
      using demo_write [OF that] by (auto simp: apply_change_def bind_world_def pure_world_def demo_change_def)
  qed
  show ?thesis
    unfolding bootstrap_def
    by (simp add: bind_world_def [of "command _ _"] bind_world_def [of "pure_world _"] bind_world_def [of "each_world _ _"]
        pure_world_def status read demo_plan change) (simp add: bind_world_def change)
qed

section \<open>A deployment check\<close>

definition demo_shown :: shown_run where
  "demo_shown = \<lparr>sh_id = 20, sh_model_release_id = 10, sh_requested_by = None, sh_parameters = mode_params ''check'',
     sh_fingerprint = [], sh_status = SUCCEEDED, sh_created_at = 1, sh_accepted_at = Some 2, sh_failure_code = None,
     sh_dispatch_started_at = Some 3, sh_job_name = [], sh_job_namespace = Some ''mic3'', sh_job_uid = Some ''u'',
     sh_finished_at = Some 4,
     sh_artifacts = [\<lparr>a_bucket = ''b'', a_object_key = ''runs/'' @ uuid_str 20 @ ''/outputs/result.txt'', a_size_bytes = 29\<rparr>],
     sh_events = [\<lparr>se_id = 30, se_event_type = ''run.requested'', se_created_at = 1, se_published_at = Some 5\<rparr>,
       \<lparr>se_id = 31, se_event_type = ''run.succeeded'', se_created_at = 4, se_published_at = Some 6\<rparr>]\<rparr>"

definition demo_check_turn :: "int \<Rightarrow> run_status \<Rightarrow> check_turn" where
  "demo_check_turn t st = \<lparr>ct_clock = t, ct_shown = Inr (demo_shown\<lparr>sh_status := st\<rparr>), ct_object = (\<lambda>_ _. Inr EXPECTED)\<rparr>"

lemma demo_wait: "wait_for_run ''b'' 900 [demo_check_turn 1 RUNNING, demo_check_turn 6 SUCCEEDED] = Some (Inr demo_shown)"
proof -
  have "uuid_str 20 = ''00000000-0000-0000-0000-000000000014''" by code_simp
  then have "verify_result (\<lambda>_ _. Inr EXPECTED) ''b'' demo_shown = Inr True"
    by (simp add: verify_result_def verify_artifact_def demo_shown_def truthy_def ends_with_def starts_with_def
        published_types_def EXPECTED_def)
  then show ?thesis by (simp add: demo_check_turn_def verify_result_def demo_shown_def)
qed

end
