(* ===== verification/Configuration.thy ===== *)
theory Configuration
  imports Oidc Submission Feed Processes
begin

text \<open>
  The settings of the processes (\<open>core/config.py\<close>, \<open>kafka_config.py\<close>, \<open>worker_config.py\<close>,
  \<open>publisher_config.py\<close>, \<open>execution_config.py\<close>) as validated records, the engine and client options
  built from them, and what the rest of the development needs of them.
\<close>

section \<open>Reading a field\<close>

text \<open>
  The environment gives texts by field name. How a text becomes a number or a list, and which files
  exist, is an argument. A number of seconds is a fraction with a positive denominator; a number that
  is not finite is read as nothing.
\<close>

type_synonym seconds = "int \<times> int"

fun positive_up_to :: "int \<Rightarrow> seconds \<Rightarrow> bool" where
  "positive_up_to b (n, d) \<longleftrightarrow> 0 < d \<and> 0 < n \<and> n \<le> b * d"

record env_reader =
  er_text :: "string \<Rightarrow> string option"
  er_int :: "string \<Rightarrow> int option"
  er_number :: "string \<Rightarrow> seconds option"
  er_list :: "string \<Rightarrow> string list option"
  er_file_exists :: "string \<Rightarrow> bool"

definition read_field :: "(string \<Rightarrow> 'a option) \<Rightarrow> env_reader \<Rightarrow> string \<Rightarrow> 'a option \<Rightarrow> ('a \<Rightarrow> bool) \<Rightarrow> exn + 'a" where
  "read_field parse env name fallback ok =
     (case er_text env name of
        None \<Rightarrow> (case fallback of None \<Rightarrow> Inl (ValueError name) | Some v \<Rightarrow> Inr v)
      | Some s \<Rightarrow> (case parse s of None \<Rightarrow> Inl (ValueError name)
          | Some v \<Rightarrow> if ok v then Inr v else Inl (ValueError name)))"

abbreviation text_field :: "env_reader \<Rightarrow> string \<Rightarrow> string option \<Rightarrow> (string \<Rightarrow> bool) \<Rightarrow> exn + string" where
  "text_field env \<equiv> read_field Some env"

abbreviation int_field :: "env_reader \<Rightarrow> string \<Rightarrow> int option \<Rightarrow> (int \<Rightarrow> bool) \<Rightarrow> exn + int" where
  "int_field env \<equiv> read_field (er_int env) env"

abbreviation number_field :: "env_reader \<Rightarrow> string \<Rightarrow> int \<Rightarrow> int \<Rightarrow> exn + seconds" where
  "number_field env name d b \<equiv> read_field (er_number env) env name (Some (d, 1)) (positive_up_to b)"

text \<open>A field that may be absent, and one whose value must name an existing file.\<close>

definition optional_field :: "env_reader \<Rightarrow> string \<Rightarrow> (string \<Rightarrow> bool) \<Rightarrow> exn + string option" where
  "optional_field env name ok = read_field (\<lambda>s. Some (Some s)) env name (Some None) (\<lambda>v. case v of None \<Rightarrow> True | Some s \<Rightarrow> ok s)"

lemma read_field_Inr:
  assumes "read_field parse env name fallback ok = Inr v" and "\<And>w. fallback = Some w \<Longrightarrow> ok w"
  shows "ok v"
  using assms by (auto simp: read_field_def split: option.splits if_splits)

text \<open>The pattern \<open>^[a-z0-9]+(?:\.[a-z0-9]+)+$\<close> of topics and groups, of at most 249 characters.\<close>

definition topic_ok :: "string \<Rightarrow> bool" where
  "topic_ok s \<longleftrightarrow> (let parts = split_on (CHR ''.'') s in
     2 \<le> length parts \<and> list_all (\<lambda>p. p \<noteq> [] \<and> list_all lower_alnum p) parts) \<and> length s \<le> 249"

definition namespace_rx :: rx where
  "namespace_rx = Seq (Cls lower_alnum) (Rep (\<lambda>c. lower_alnum c \<or> c = CHR ''-'') 0 None)"

definition endpoint_ok :: "string \<Rightarrow> bool" where
  "endpoint_ok s \<longleftrightarrow> starts_with s ''http://'' \<or> starts_with s ''https://''"

section \<open>The database\<close>

record database_settings =
  ds_host :: string
  ds_port :: int
  ds_name :: string
  ds_user :: string
  ds_password :: string

definition read_database_settings :: "env_reader \<Rightarrow> exn + database_settings" where
  "read_database_settings env =
     bind_res (text_field env ''db_host'' None (\<lambda>_. True)) (\<lambda>host.
     bind_res (int_field env ''db_port'' (Some 5432) (\<lambda>_. True)) (\<lambda>port.
     bind_res (text_field env ''db_name'' None (\<lambda>_. True)) (\<lambda>name.
     bind_res (text_field env ''db_user'' None (\<lambda>_. True)) (\<lambda>user.
     bind_res (text_field env ''db_password'' None (\<lambda>_. True)) (\<lambda>password.
     Inr \<lparr>ds_host = host, ds_port = port, ds_name = name, ds_user = user, ds_password = password\<rparr>)))))"

record database_url =
  db_drivername :: string
  db_username :: string
  db_secret :: string
  db_host :: string
  db_port :: int
  db_database :: string

definition database_url_of :: "database_settings \<Rightarrow> database_url" where
  "database_url_of s = \<lparr>db_drivername = ''postgresql+psycopg'', db_username = ds_user s, db_secret = ds_password s,
     db_host = ds_host s, db_port = ds_port s, db_database = ds_name s\<rparr>"

text \<open>\<open>Database.__init__\<close>: the options of a connection; a given timeout must be positive.\<close>

definition timeout_option :: "string \<Rightarrow> int option \<Rightarrow> exn + string list" where
  "timeout_option name given =
     (case given of
        None \<Rightarrow> Inr []
      | Some v \<Rightarrow> if v \<le> 0 then Inl (ValueError ''Database timeouts must be positive integers.'')
          else Inr [''-c '' @ name @ ''='' @ show_int v])"

definition connect_args :: "int option \<Rightarrow> int option \<Rightarrow> exn + json_dict" where
  "connect_args statement_timeout_ms lock_timeout_ms =
     bind_res (timeout_option ''statement_timeout'' statement_timeout_ms) (\<lambda>a.
     bind_res (timeout_option ''lock_timeout'' lock_timeout_ms) (\<lambda>b.
     Inr ([(''connect_timeout'', JInt 3)] @ (if a @ b = [] then [] else [(''options'', JStr (join_with '' '' (a @ b)))]))))"

section \<open>The API\<close>

record api_settings =
  as_database :: database_settings
  as_app_env :: string
  as_app_name :: string
  as_run_max_active_per_user :: int
  as_run_max_active_global :: int
  as_sse_max_streams_per_user :: int
  as_sse_max_streams :: int
  as_sse_pending_runs :: int
  as_oidc :: oidc_settings
  as_oidc_http_timeout_seconds :: seconds

abbreviation positive_field :: "env_reader \<Rightarrow> string \<Rightarrow> int \<Rightarrow> exn + int" where
  "positive_field env name d \<equiv> int_field env name (Some d) (\<lambda>v. 0 < v)"

definition read_oidc_settings :: "env_reader \<Rightarrow> exn + oidc_settings" where
  "read_oidc_settings env =
     bind_res (text_field env ''oidc_issuer_url'' None (\<lambda>_. True)) (\<lambda>issuer.
     bind_res (text_field env ''oidc_audience'' None (\<lambda>_. True)) (\<lambda>audience.
     bind_res (read_field (er_list env) env ''oidc_allowed_algorithms'' (Some [''RS256'']) (\<lambda>_. True)) (\<lambda>algorithms.
     bind_res (int_field env ''oidc_clock_skew_seconds'' (Some 30) (\<lambda>v. 0 \<le> v \<and> v \<le> 300)) (\<lambda>skew.
     bind_res (int_field env ''oidc_jwks_cache_seconds'' (Some 300) (\<lambda>v. 0 < v \<and> v \<le> 3600)) (\<lambda>cache.
     make_oidc_settings issuer audience algorithms skew cache)))))"

definition read_settings :: "env_reader \<Rightarrow> exn + api_settings" where
  "read_settings env =
     bind_res (read_database_settings env) (\<lambda>database.
     bind_res (text_field env ''app_env'' (Some ''development'') (\<lambda>_. True)) (\<lambda>app_env.
     bind_res (text_field env ''app_name'' (Some ''mic3-api'') (\<lambda>_. True)) (\<lambda>app_name.
     bind_res (positive_field env ''run_max_active_per_user'' 5) (\<lambda>runs_user.
     bind_res (positive_field env ''run_max_active_global'' 20) (\<lambda>runs_all.
     bind_res (positive_field env ''sse_max_streams_per_user'' 5) (\<lambda>streams_user.
     bind_res (positive_field env ''sse_max_streams'' 100) (\<lambda>streams_all.
     bind_res (positive_field env ''sse_pending_runs'' 100) (\<lambda>pending_runs.
     bind_res (read_oidc_settings env) (\<lambda>oidc.
     bind_res (number_field env ''oidc_http_timeout_seconds'' 5 30) (\<lambda>http_timeout.
     Inr \<lparr>as_database = database, as_app_env = app_env, as_app_name = app_name,
       as_run_max_active_per_user = runs_user, as_run_max_active_global = runs_all,
       as_sse_max_streams_per_user = streams_user, as_sse_max_streams = streams_all, as_sse_pending_runs = pending_runs,
       as_oidc = oidc, as_oidc_http_timeout_seconds = http_timeout\<rparr>))))))))))"

section \<open>The Kafka processes\<close>

record kafka_process_settings =
  kp_database :: database_settings
  kp_bootstrap_servers :: string
  kp_requests_topic :: string
  kp_security :: kafka_settings

definition read_tls :: "env_reader \<Rightarrow> exn + kafka_settings" where
  "read_tls env =
     bind_res (text_field env ''kafka_security_protocol'' (Some ''PLAINTEXT'') (\<lambda>v. v \<in> {''PLAINTEXT'', ''SSL''})) (\<lambda>protocol.
     bind_res (optional_field env ''kafka_ssl_ca_file'' (er_file_exists env)) (\<lambda>ca.
     bind_res (optional_field env ''kafka_ssl_certificate_file'' (er_file_exists env)) (\<lambda>certificate.
     bind_res (optional_field env ''kafka_ssl_key_file'' (er_file_exists env)) (\<lambda>key.
     validate_tls_identity \<lparr>ks_security_protocol = protocol, ks_ssl_ca_file = ca, ks_ssl_certificate_file = certificate,
       ks_ssl_key_file = key\<rparr>))))"

definition read_kafka_settings :: "env_reader \<Rightarrow> exn + kafka_process_settings" where
  "read_kafka_settings env =
     bind_res (read_database_settings env) (\<lambda>database.
     bind_res (text_field env ''kafka_bootstrap_servers'' (Some ''127.0.0.1:9092'') (\<lambda>s. s \<noteq> [])) (\<lambda>servers.
     bind_res (text_field env ''kafka_requests_topic'' (Some ''mic3.run.requests.v1'') topic_ok) (\<lambda>topic.
     bind_res (read_tls env) (\<lambda>security.
     Inr \<lparr>kp_database = database, kp_bootstrap_servers = servers, kp_requests_topic = topic, kp_security = security\<rparr>))))"

record publisher_settings =
  ps_kafka :: kafka_process_settings
  ps_delivery_timeout_seconds :: int
  ps_batch_size :: int
  ps_events_topic :: string
  ps_poll_seconds :: seconds

abbreviation minute_field :: "env_reader \<Rightarrow> string \<Rightarrow> int \<Rightarrow> exn + seconds" where
  "minute_field env name d \<equiv> number_field env name d 60"

definition read_publisher_settings :: "env_reader \<Rightarrow> exn + publisher_settings" where
  "read_publisher_settings env =
     bind_res (read_kafka_settings env) (\<lambda>kafka.
     bind_res (int_field env ''kafka_delivery_timeout_seconds'' (Some 10) (\<lambda>v. 1 \<le> v \<and> v \<le> 60)) (\<lambda>timeout.
     bind_res (int_field env ''publisher_batch_size'' (Some 10) (\<lambda>v. 1 \<le> v \<and> v \<le> 100)) (\<lambda>batch.
     bind_res (text_field env ''kafka_events_topic'' (Some ''mic3.run.events.v1'') topic_ok) (\<lambda>topic.
     bind_res (minute_field env ''publisher_poll_seconds'' 2) (\<lambda>poll.
     Inr \<lparr>ps_kafka = kafka, ps_delivery_timeout_seconds = timeout, ps_batch_size = batch, ps_events_topic = topic,
       ps_poll_seconds = poll\<rparr>)))))"

record worker_settings =
  ws_kafka :: kafka_process_settings
  ws_consumer_group :: string
  ws_retry_seconds :: seconds
  ws_idle_timeout_seconds :: seconds
  ws_statement_timeout_ms :: int
  ws_lock_timeout_ms :: int

definition timeout_ms_ok :: "int \<Rightarrow> bool" where
  "timeout_ms_ok v \<longleftrightarrow> 100 \<le> v \<and> v \<le> 20000"

definition read_worker_settings :: "env_reader \<Rightarrow> exn + worker_settings" where
  "read_worker_settings env =
     bind_res (read_kafka_settings env) (\<lambda>kafka.
     bind_res (text_field env ''kafka_consumer_group'' (Some ''mic3.execution.worker.v1'') topic_ok) (\<lambda>group.
     bind_res (minute_field env ''worker_retry_seconds'' 2) (\<lambda>retry.
     bind_res (minute_field env ''worker_idle_timeout_seconds'' 10) (\<lambda>idle.
     bind_res (int_field env ''worker_statement_timeout_ms'' (Some 10000) timeout_ms_ok) (\<lambda>statement.
     bind_res (int_field env ''worker_lock_timeout_ms'' (Some 5000) timeout_ms_ok) (\<lambda>lock.
     Inr \<lparr>ws_kafka = kafka, ws_consumer_group = group, ws_retry_seconds = retry, ws_idle_timeout_seconds = idle,
       ws_statement_timeout_ms = statement, ws_lock_timeout_ms = lock\<rparr>))))))"

record execution_settings =
  xs_worker :: worker_settings
  xs_kubeconfig :: "string option"
  xs_context :: "string option"
  xs_namespace :: string
  xs_chart :: string
  xs_values_file :: "string option"
  xs_capacity :: int
  xs_poll_seconds :: seconds
  xs_artifact_endpoint :: string
  xs_artifact_bucket :: string
  xs_artifact_access_key :: string
  xs_artifact_secret_key :: string

definition read_execution_settings :: "env_reader \<Rightarrow> exn + execution_settings" where
  "read_execution_settings env =
     bind_res (read_worker_settings env) (\<lambda>worker.
     bind_res (optional_field env ''execution_kubeconfig'' (\<lambda>_. True)) (\<lambda>kubeconfig.
     bind_res (optional_field env ''execution_context'' (\<lambda>s. s \<noteq> [])) (\<lambda>kube_context.
     bind_res (text_field env ''execution_namespace'' None (fullmatch namespace_rx)) (\<lambda>namespace.
     bind_res (text_field env ''execution_chart'' (Some ''deploy/helm/model-run'') (\<lambda>_. True)) (\<lambda>chart.
     bind_res (optional_field env ''execution_values_file'' (\<lambda>_. True)) (\<lambda>values_file.
     bind_res (int_field env ''execution_capacity'' (Some 1) (\<lambda>v. 1 \<le> v \<and> v \<le> 100)) (\<lambda>capacity.
     bind_res (minute_field env ''execution_poll_seconds'' 2) (\<lambda>poll.
     bind_res (text_field env ''artifact_endpoint'' None endpoint_ok) (\<lambda>endpoint.
     bind_res (text_field env ''artifact_bucket'' None (\<lambda>s. s \<noteq> [])) (\<lambda>bucket.
     bind_res (text_field env ''artifact_access_key'' None (\<lambda>_. True)) (\<lambda>access_key.
     bind_res (text_field env ''artifact_secret_key'' None (\<lambda>_. True)) (\<lambda>secret_key.
     bind_res (validate_kubernetes_auth kubeconfig kube_context) (\<lambda>_.
     Inr \<lparr>xs_worker = worker, xs_kubeconfig = kubeconfig, xs_context = kube_context, xs_namespace = namespace,
       xs_chart = chart, xs_values_file = values_file, xs_capacity = capacity, xs_poll_seconds = poll,
       xs_artifact_endpoint = endpoint, xs_artifact_bucket = bucket, xs_artifact_access_key = access_key,
       xs_artifact_secret_key = secret_key\<rparr>)))))))))))))"

section \<open>Client options\<close>

text \<open>The Kafka clients: an idempotent producer, and a consumer that never commits by itself.\<close>

definition producer_config :: "string \<Rightarrow> int \<Rightarrow> kafka_settings option \<Rightarrow> json_dict" where
  "producer_config servers delivery_timeout_seconds security =
     [(''bootstrap.servers'', JStr servers), (''client.id'', JStr ''mic3.outbox.publisher'')] @ security_config security
     @ [(''enable.idempotence'', JBool True), (''acks'', JStr ''all''),
        (''message.timeout.ms'', JInt (delivery_timeout_seconds * 1000)),
        (''socket.timeout.ms'', JInt (delivery_timeout_seconds * 1000)),
        (''allow.auto.create.topics'', JBool False), (''log_level'', JInt 0)]"

definition consumer_config :: "string \<Rightarrow> string \<Rightarrow> kafka_settings option \<Rightarrow> json_dict" where
  "consumer_config servers consumer_group security =
     [(''bootstrap.servers'', JStr servers), (''group.id'', JStr consumer_group), (''client.id'', JStr ''mic3.execution.worker'')]
     @ security_config security
     @ [(''enable.auto.commit'', JBool False), (''enable.auto.offset.store'', JBool False),
        (''auto.offset.reset'', JStr ''earliest''), (''allow.auto.create.topics'', JBool False),
        (''max.poll.interval.ms'', JInt 300000), (''session.timeout.ms'', JInt 10000),
        (''heartbeat.interval.ms'', JInt 3000), (''socket.timeout.ms'', JInt 10000), (''log_level'', JInt 0)]"

section \<open>What valid settings give\<close>

lemma topic_defaults: "topic_ok ''mic3.run.requests.v1''" "topic_ok ''mic3.run.events.v1''" "topic_ok ''mic3.execution.worker.v1''"
  by code_simp+

lemma read_tls_Inr:
  assumes "read_tls env = Inr k"
  shows "ks_security_protocol k = ''SSL'' \<and> None \<notin> set (tls_files k)
    \<or> ks_security_protocol k = ''PLAINTEXT'' \<and> set (tls_files k) = {None}"
proof -
  from assms obtain p where "read_field Some env ''kafka_security_protocol'' (Some ''PLAINTEXT'') (\<lambda>v. v \<in> {''PLAINTEXT'', ''SSL''}) = Inr p"
    and k: "validate_tls_identity k = Inr k" "ks_security_protocol k = p"
    by (auto simp: read_tls_def validate_tls_identity_def split: if_splits)
  from read_field_Inr [OF this(1)] have "p = ''PLAINTEXT'' \<or> p = ''SSL''" by auto
  with k show ?thesis
    by (auto simp: validate_tls_identity_def tls_files_def list_all_iff list_ex_iff split: if_splits)
qed

lemma int_range:
  "int_field env name (Some d) (\<lambda>v. a \<le> v \<and> v \<le> b) = Inr v \<Longrightarrow> a \<le> d \<Longrightarrow> d \<le> b \<Longrightarrow> a \<le> v \<and> v \<le> b"
  by (drule read_field_Inr) auto

lemma number_range: "number_field env name d b = Inr v \<Longrightarrow> 0 < d \<Longrightarrow> d \<le> b \<Longrightarrow> positive_up_to b v"
  by (drule read_field_Inr) auto

lemma positive_range: "positive_field env name d = Inr v \<Longrightarrow> 0 < d \<Longrightarrow> 0 < v"
  by (drule read_field_Inr) auto

lemma timeout_range: "int_field env name (Some d) timeout_ms_ok = Inr v \<Longrightarrow> timeout_ms_ok d \<Longrightarrow> timeout_ms_ok v"
  by (drule read_field_Inr) auto

lemma topic_field: "text_field env name (Some d) topic_ok = Inr v \<Longrightarrow> topic_ok d \<Longrightarrow> topic_ok v"
  by (drule read_field_Inr) auto

lemma read_kafka_Inr:
  assumes "read_kafka_settings env = Inr k"
  shows "topic_ok (kp_requests_topic k) \<and> kp_bootstrap_servers k \<noteq> [] \<and> read_tls env = Inr (kp_security k)"
proof -
  from assms obtain servers topic security where
    "text_field env ''kafka_bootstrap_servers'' (Some ''127.0.0.1:9092'') (\<lambda>s. s \<noteq> []) = Inr servers"
    "text_field env ''kafka_requests_topic'' (Some ''mic3.run.requests.v1'') topic_ok = Inr topic"
    and k: "read_tls env = Inr security" "kp_bootstrap_servers k = servers" "kp_requests_topic k = topic" "kp_security k = security"
    by (auto simp: read_kafka_settings_def)
  from read_field_Inr [OF this(1)] topic_field [OF this(2) topic_defaults(1)] k show ?thesis by auto
qed

lemma read_publisher_Inr:
  assumes "read_publisher_settings env = Inr s"
  shows "1 \<le> ps_delivery_timeout_seconds s \<and> ps_delivery_timeout_seconds s \<le> 60 \<and> 1 \<le> ps_batch_size s \<and> ps_batch_size s \<le> 100
    \<and> topic_ok (ps_events_topic s) \<and> positive_up_to 60 (ps_poll_seconds s) \<and> read_kafka_settings env = Inr (ps_kafka s)"
proof -
  from assms obtain timeout batch topic poll where
    f: "int_field env ''kafka_delivery_timeout_seconds'' (Some 10) (\<lambda>v. 1 \<le> v \<and> v \<le> 60) = Inr timeout"
      "int_field env ''publisher_batch_size'' (Some 10) (\<lambda>v. 1 \<le> v \<and> v \<le> 100) = Inr batch"
      "text_field env ''kafka_events_topic'' (Some ''mic3.run.events.v1'') topic_ok = Inr topic"
      "minute_field env ''publisher_poll_seconds'' 2 = Inr poll"
    and s: "read_kafka_settings env = Inr (ps_kafka s)" "ps_delivery_timeout_seconds s = timeout" "ps_batch_size s = batch"
      "ps_events_topic s = topic" "ps_poll_seconds s = poll"
    by (auto simp: read_publisher_settings_def)
  from int_range [OF f(1)] int_range [OF f(2)] topic_field [OF f(3) topic_defaults(2)] number_range [OF f(4)] s
  show ?thesis by simp
qed

lemma read_worker_Inr:
  assumes "read_worker_settings env = Inr s"
  shows "timeout_ms_ok (ws_statement_timeout_ms s) \<and> timeout_ms_ok (ws_lock_timeout_ms s) \<and> topic_ok (ws_consumer_group s)
    \<and> positive_up_to 60 (ws_retry_seconds s) \<and> positive_up_to 60 (ws_idle_timeout_seconds s)
    \<and> read_kafka_settings env = Inr (ws_kafka s)"
proof -
  from assms obtain g retry idle statement lock where
    f: "text_field env ''kafka_consumer_group'' (Some ''mic3.execution.worker.v1'') topic_ok = Inr g"
      "minute_field env ''worker_retry_seconds'' 2 = Inr retry" "minute_field env ''worker_idle_timeout_seconds'' 10 = Inr idle"
      "int_field env ''worker_statement_timeout_ms'' (Some 10000) timeout_ms_ok = Inr statement"
      "int_field env ''worker_lock_timeout_ms'' (Some 5000) timeout_ms_ok = Inr lock"
    and s: "read_kafka_settings env = Inr (ws_kafka s)" "ws_consumer_group s = g" "ws_retry_seconds s = retry"
      "ws_idle_timeout_seconds s = idle" "ws_statement_timeout_ms s = statement" "ws_lock_timeout_ms s = lock"
    by (auto simp: read_worker_settings_def)
  from topic_field [OF f(1) topic_defaults(3)] number_range [OF f(2)] number_range [OF f(3)] timeout_range [OF f(4)]
    timeout_range [OF f(5)] s
  show ?thesis by (simp add: timeout_ms_ok_def)
qed

lemma connect_args_ok:
  "timeout_ms_ok a \<Longrightarrow> timeout_ms_ok b \<Longrightarrow> connect_args (Some a) (Some b) = Inr [(''connect_timeout'', JInt 3),
     (''options'', JStr (''-c statement_timeout='' @ show_int a @ '' -c lock_timeout='' @ show_int b))]"
  by (simp add: connect_args_def timeout_option_def timeout_ms_ok_def)

lemma read_execution_Inr:
  assumes "read_execution_settings env = Inr s"
  shows "1 \<le> xs_capacity s" and "xs_capacity s \<le> 100" and "fullmatch namespace_rx (xs_namespace s)"
    and "endpoint_ok (xs_artifact_endpoint s)" and "xs_artifact_bucket s \<noteq> []" and "positive_up_to 60 (xs_poll_seconds s)"
    and "\<exists>k. connect_config (xs_kubeconfig s) (xs_context s) = Inr k"
    and "read_worker_settings env = Inr (xs_worker s)"
proof -
  from assms obtain ns cap poll endpoint bucket where
    f: "text_field env ''execution_namespace'' None (fullmatch namespace_rx) = Inr ns"
      "int_field env ''execution_capacity'' (Some 1) (\<lambda>v. 1 \<le> v \<and> v \<le> 100) = Inr cap"
      "minute_field env ''execution_poll_seconds'' 2 = Inr poll"
      "text_field env ''artifact_endpoint'' None endpoint_ok = Inr endpoint"
      "text_field env ''artifact_bucket'' None (\<lambda>s. s \<noteq> []) = Inr bucket"
      "validate_kubernetes_auth (xs_kubeconfig s) (xs_context s) = Inr ()"
    and s: "read_worker_settings env = Inr (xs_worker s)" "xs_namespace s = ns" "xs_capacity s = cap" "xs_poll_seconds s = poll"
      "xs_artifact_endpoint s = endpoint" "xs_artifact_bucket s = bucket"
    by (auto simp: read_execution_settings_def)
  show "read_worker_settings env = Inr (xs_worker s)" by (rule s(1))
  from int_range [OF f(2)] s show "1 \<le> xs_capacity s" and "xs_capacity s \<le> 100" by simp_all
  from number_range [OF f(3)] s show "positive_up_to 60 (xs_poll_seconds s)" by simp
  from read_field_Inr [OF f(1)] read_field_Inr [OF f(4)] read_field_Inr [OF f(5)] s
  show "fullmatch namespace_rx (xs_namespace s)" and "endpoint_ok (xs_artifact_endpoint s)" and "xs_artifact_bucket s \<noteq> []"
    by auto
  from f(6) show "\<exists>k. connect_config (xs_kubeconfig s) (xs_context s) = Inr k"
    by (cases "xs_kubeconfig s"; cases "xs_context s") (simp_all add: validate_kubernetes_auth_def require_def connect_config_def)
qed

lemma read_oidc_Inr:
  "read_oidc_settings env = Inr c \<Longrightarrow>
    os_allowed_algorithms c \<noteq> [] \<and> set (os_allowed_algorithms c) \<subseteq> set asymmetric_algorithms"
  by (auto simp: read_oidc_settings_def make_oidc_settings_def validate_oidc_algorithms_def list_ex_iff split: if_splits)

lemma read_settings_Inr:
  assumes "read_settings env = Inr s"
  shows "\<exists>l. make_limits (as_run_max_active_per_user s) (as_run_max_active_global s) = Inr l"
    and "0 < as_sse_max_streams_per_user s" and "0 < as_sse_max_streams s" and "0 < as_sse_pending_runs s"
    and "os_allowed_algorithms (as_oidc s) \<noteq> [] \<and> set (os_allowed_algorithms (as_oidc s)) \<subseteq> set asymmetric_algorithms"
    and "positive_up_to 30 (as_oidc_http_timeout_seconds s)"
proof -
  from assms obtain a b c d e http where
    f: "positive_field env ''run_max_active_per_user'' 5 = Inr a" "positive_field env ''run_max_active_global'' 20 = Inr b"
      "positive_field env ''sse_max_streams_per_user'' 5 = Inr c" "positive_field env ''sse_max_streams'' 100 = Inr d"
      "positive_field env ''sse_pending_runs'' 100 = Inr e"
      "number_field env ''oidc_http_timeout_seconds'' 5 30 = Inr http"
    and oidc: "read_oidc_settings env = Inr (as_oidc s)"
    and s: "as_run_max_active_per_user s = a" "as_run_max_active_global s = b" "as_sse_max_streams_per_user s = c"
      "as_sse_max_streams s = d" "as_sse_pending_runs s = e" "as_oidc_http_timeout_seconds s = http"
    by (auto simp: read_settings_def)
  from positive_range [OF f(1)] positive_range [OF f(2)] s
  show "\<exists>l. make_limits (as_run_max_active_per_user s) (as_run_max_active_global s) = Inr l" by (simp add: make_limits_def)
  from positive_range [OF f(3)] positive_range [OF f(4)] positive_range [OF f(5)] s
  show "0 < as_sse_max_streams_per_user s" and "0 < as_sse_max_streams s" and "0 < as_sse_pending_runs s" by simp_all
  show "os_allowed_algorithms (as_oidc s) \<noteq> [] \<and> set (os_allowed_algorithms (as_oidc s)) \<subseteq> set asymmetric_algorithms"
    by (rule read_oidc_Inr [OF oidc])
  from number_range [OF f(6)] s show "positive_up_to 30 (as_oidc_http_timeout_seconds s)" by simp
qed

end
