(* ===== verification/Schema.thy ===== *)
theory Schema
  imports Submission Users "HOL-Library.Multiset"
begin

text \<open>
  The schema of the database as data: the migrations under \<open>alembic/versions\<close> as lists of
  operations, the mapped classes of \<open>infrastructure/persistence\<close> as tables built from the same
  column and constraint items, and the naming convention of \<open>base.py\<close>. An operation is
  interpreted on a schema the way PostgreSQL does: it fails on a name that is taken or missing and
  on an object something else still depends on.
\<close>

section \<open>Values, types and conditions\<close>

datatype sql_type = TUuid | TText | TString nat | TBoolean | TTimestamp | TJsonb | TInteger | TBigInteger

datatype sql_value = SNull | SUuid uuid | SText string | SBool bool | STime timestamp | SJson json | SInt int

fun has_type :: "sql_type \<Rightarrow> sql_value \<Rightarrow> bool" where
  "has_type TUuid (SUuid _) \<longleftrightarrow> True"
| "has_type TText (SText _) \<longleftrightarrow> True"
| "has_type (TString n) (SText s) \<longleftrightarrow> length s \<le> n"
| "has_type TBoolean (SBool _) \<longleftrightarrow> True"
| "has_type TTimestamp (STime _) \<longleftrightarrow> True"
| "has_type TJsonb (SJson _) \<longleftrightarrow> True"
| "has_type TInteger (SInt i) \<longleftrightarrow> - (2 ^ 31) \<le> i \<and> i < 2 ^ 31"
| "has_type TBigInteger (SInt i) \<longleftrightarrow> - (2 ^ 63) \<le> i \<and> i < 2 ^ 63"
| "has_type _ _ \<longleftrightarrow> False"

text \<open>
  The conditions of the check constraints and of the partial indexes, with their SQL text and
  their value on a row. \<open>NULL\<close> makes a comparison unknown (\<open>None\<close>).
\<close>

datatype sql_cond =
    IsNull string
  | IsNotNull string
  | InStrings string "string list"
  | JsonObject string
  | LowerHex string nat
  | AtLeastZero string
  | BothHold sql_cond sql_cond

definition sql_quote :: "string \<Rightarrow> string" where
  "sql_quote s = CHR 0x27 # s @ [CHR 0x27]"

fun comma_list :: "string list \<Rightarrow> string" where
  "comma_list [] = []"
| "comma_list [s] = s"
| "comma_list (s # ss) = s @ '', '' @ comma_list ss"

fun cond_text :: "sql_cond \<Rightarrow> string" where
  "cond_text (IsNull c) = c @ '' IS NULL''"
| "cond_text (IsNotNull c) = c @ '' IS NOT NULL''"
| "cond_text (InStrings c ss) = c @ '' IN ('' @ comma_list (map sql_quote ss) @ '')''"
| "cond_text (JsonObject c) = ''jsonb_typeof('' @ c @ '') = '' @ sql_quote ''object''"
| "cond_text (LowerHex c n) = c @ '' ~ '' @ sql_quote (''^[0-9a-f]{'' @ show_nat n @ ''}$'')"
| "cond_text (AtLeastZero c) = c @ '' >= 0''"
| "cond_text (BothHold a b) = cond_text a @ '' AND '' @ cond_text b"

fun and3 :: "bool option \<Rightarrow> bool option \<Rightarrow> bool option" where
  "and3 (Some False) _ = Some False"
| "and3 _ (Some False) = Some False"
| "and3 (Some True) b = b"
| "and3 a (Some True) = a"
| "and3 None None = None"

fun cond_value :: "(string \<Rightarrow> sql_value) \<Rightarrow> sql_cond \<Rightarrow> bool option" where
  "cond_value v (IsNull c) = Some (v c = SNull)"
| "cond_value v (IsNotNull c) = Some (v c \<noteq> SNull)"
| "cond_value v (InStrings c ss) = (case v c of SText s \<Rightarrow> Some (s \<in> set ss) | _ \<Rightarrow> None)"
| "cond_value v (JsonObject c) = (case v c of SJson j \<Rightarrow> Some (is_object j) | _ \<Rightarrow> None)"
| "cond_value v (LowerHex c n) = (case v c of SText s \<Rightarrow> Some (length s = n \<and> list_all lower_hex s) | _ \<Rightarrow> None)"
| "cond_value v (AtLeastZero c) = (case v c of SInt i \<Rightarrow> Some (0 \<le> i) | _ \<Rightarrow> None)"
| "cond_value v (BothHold a b) = and3 (cond_value v a) (cond_value v b)"

section \<open>Tables\<close>

record column_def =
  col_name :: string
  col_type :: sql_type
  col_nullable :: bool
  col_default :: "string option"

record foreign_key =
  fk_name :: string
  fk_column :: string
  fk_table :: string
  fk_target :: string
  fk_ondelete :: "string option"

record table_def =
  tb_name :: string
  tb_columns :: "column_def list"
  tb_primary :: "string \<times> string list"
  tb_foreign :: "foreign_key list"
  tb_checks :: "(string \<times> sql_cond) list"

record index_def =
  ix_name :: string
  ix_table :: string
  ix_columns :: "string list"
  ix_unique :: bool
  ix_where :: "sql_cond option"

record trigger_def =
  tg_name :: string
  tg_table :: string
  tg_events :: "string list"
  tg_function :: string

text \<open>The two role tables also carry data that migrations write.\<close>

record schema =
  sc_tables :: "table_def list"
  sc_indexes :: "index_def list"
  sc_functions :: "string list"
  sc_triggers :: "trigger_def list"
  sc_roles :: "(string \<times> string) list"
  sc_user_roles :: "(uuid \<times> string) list"

definition empty_schema :: schema where
  "empty_schema = \<lparr>sc_tables = [], sc_indexes = [], sc_functions = [], sc_triggers = [], sc_roles = [],
     sc_user_roles = []\<rparr>"

text \<open>The naming convention for the constraints nobody names in full.\<close>

definition pk_name :: "string \<Rightarrow> string" where "pk_name t = ''pk_'' @ t"
definition fk_name_of :: "string \<Rightarrow> string \<Rightarrow> string \<Rightarrow> string" where
  "fk_name_of t c referred = ''fk_'' @ t @ ''_'' @ c @ ''_'' @ referred"
definition ck_name :: "string \<Rightarrow> string \<Rightarrow> string" where "ck_name t c = ''ck_'' @ t @ ''_'' @ c"

text \<open>
  The arguments of \<open>create_table\<close>. A column may carry the primary key flag and a reference; the
  separate constraints name themselves.
\<close>

datatype table_item =
    Column string sql_type bool "string option" bool "(string \<times> string \<times> string option) option"
  | PrimaryKeyConstraint "string list" string
  | ForeignKeyConstraint string "string \<times> string" string
  | CheckConstraint sql_cond string

definition not_null :: "string \<Rightarrow> sql_type \<Rightarrow> table_item" where
  "not_null c t = Column c t False None False None"
definition nullable :: "string \<Rightarrow> sql_type \<Rightarrow> table_item" where
  "nullable c t = Column c t True None False None"
definition with_default :: "string \<Rightarrow> sql_type \<Rightarrow> string \<Rightarrow> table_item" where
  "with_default c t d = Column c t False (Some d) False None"
definition primary :: "string \<Rightarrow> sql_type \<Rightarrow> table_item" where
  "primary c t = Column c t False None True None"
definition restricted :: "string \<Rightarrow> sql_type \<Rightarrow> bool \<Rightarrow> string \<Rightarrow> string \<Rightarrow> table_item" where
  "restricted c t opt referred target = Column c t opt None False (Some (referred, target, Some ''RESTRICT''))"
definition created_at :: table_item where
  "created_at = with_default ''created_at'' TTimestamp ''now()''"

fun column_of :: "table_item \<Rightarrow> column_def list" where
  "column_of (Column c t opt d pk r) = [\<lparr>col_name = c, col_type = t, col_nullable = opt \<and> \<not> pk, col_default = d\<rparr>]"
| "column_of _ = []"

fun primary_of :: "table_item \<Rightarrow> string list" where
  "primary_of (Column c t opt d True r) = [c]"
| "primary_of (PrimaryKeyConstraint cs _) = cs"
| "primary_of _ = []"

fun primary_name :: "string \<Rightarrow> table_item list \<Rightarrow> string" where
  "primary_name t (PrimaryKeyConstraint _ n # items) = n"
| "primary_name t (_ # items) = primary_name t items"
| "primary_name t [] = pk_name t"

fun foreign_of :: "string \<Rightarrow> table_item \<Rightarrow> foreign_key list" where
  "foreign_of t (Column c ty opt d pk (Some (referred, target, ondelete))) =
     [\<lparr>fk_name = fk_name_of t c referred, fk_column = c, fk_table = referred, fk_target = target, fk_ondelete = ondelete\<rparr>]"
| "foreign_of t (ForeignKeyConstraint c (referred, target) n) =
     [\<lparr>fk_name = n, fk_column = c, fk_table = referred, fk_target = target, fk_ondelete = None\<rparr>]"
| "foreign_of t _ = []"

fun check_of :: "string \<Rightarrow> table_item \<Rightarrow> (string \<times> sql_cond) list" where
  "check_of t (CheckConstraint c n) = [(ck_name t n, c)]"
| "check_of t _ = []"

definition build_table :: "string \<Rightarrow> table_item list \<Rightarrow> table_def" where
  "build_table t items = \<lparr>tb_name = t, tb_columns = concat (map column_of items),
     tb_primary = (primary_name t items, concat (map primary_of items)),
     tb_foreign = concat (map (foreign_of t) items), tb_checks = concat (map (check_of t) items)\<rparr>"

section \<open>Operations\<close>

datatype ddl =
    CreateTable string "table_item list"
  | DropTable string
  | AddColumn string table_item
  | DropColumn string string
  | CreateIndex string string "string list" "sql_cond option"
  | DropIndex string
  | CreateFunction string
  | DropFunction string
  | CreateTrigger string string "string list" string
  | DropTrigger string string
  | InsertRole string string
  | DeleteAssignments string
  | DeleteRole string

text \<open>Tables, indexes and the indexes behind primary keys share one name space.\<close>

definition relation_names :: "schema \<Rightarrow> string set" where
  "relation_names s = tb_name ` set (sc_tables s) \<union> (fst \<circ> tb_primary) ` set (sc_tables s) \<union> ix_name ` set (sc_indexes s)"

abbreviation find_table :: "string \<Rightarrow> schema \<Rightarrow> table_def option" where
  "find_table t s \<equiv> find_by tb_name t (sc_tables s)"

definition column_names :: "table_def \<Rightarrow> string list" where
  "column_names t = map col_name (tb_columns t)"

fun cond_columns :: "sql_cond \<Rightarrow> string set" where
  "cond_columns (IsNull c) = {c}"
| "cond_columns (IsNotNull c) = {c}"
| "cond_columns (InStrings c _) = {c}"
| "cond_columns (JsonObject c) = {c}"
| "cond_columns (LowerHex c _) = {c}"
| "cond_columns (AtLeastZero c) = {c}"
| "cond_columns (BothHold a b) = cond_columns a \<union> cond_columns b"

text \<open>A reference needs a unique target: the single column of the referred table's primary key.\<close>

definition reference_ok :: "schema \<Rightarrow> table_def \<Rightarrow> foreign_key \<Rightarrow> bool" where
  "reference_ok s t k \<longleftrightarrow> fk_column k \<in> set (column_names t)
     \<and> (case find_table (fk_table k) s of None \<Rightarrow> False | Some r \<Rightarrow> snd (tb_primary r) = [fk_target k])"

definition table_ok :: "schema \<Rightarrow> table_def \<Rightarrow> bool" where
  "table_ok s t \<longleftrightarrow> distinct (column_names t) \<and> snd (tb_primary t) \<noteq> [] \<and> set (snd (tb_primary t)) \<subseteq> set (column_names t)
     \<and> list_all (reference_ok s t) (tb_foreign t)
     \<and> list_all (\<lambda>(n, c). cond_columns c \<subseteq> set (column_names t)) (tb_checks t)
     \<and> distinct (fst (tb_primary t) # map fk_name (tb_foreign t) @ map fst (tb_checks t))"

definition replace_table :: "table_def \<Rightarrow> schema \<Rightarrow> schema" where
  "replace_table t s = s\<lparr>sc_tables := update_by tb_name (tb_name t) (\<lambda>_. t) (sc_tables s)\<rparr>"

definition index_columns :: "index_def \<Rightarrow> string set" where
  "index_columns i = set (ix_columns i) \<union> (case ix_where i of None \<Rightarrow> {} | Some c \<Rightarrow> cond_columns c)"

definition drop_table :: "string \<Rightarrow> schema \<Rightarrow> schema option" where
  "drop_table t s =
     (if t \<notin> tb_name ` set (sc_tables s) \<or> (\<exists>x \<in> set (sc_tables s). tb_name x \<noteq> t \<and> t \<in> fk_table ` set (tb_foreign x))
      then None
      else Some (s\<lparr>sc_tables := filter (\<lambda>x. tb_name x \<noteq> t) (sc_tables s),
        sc_indexes := filter (\<lambda>i. ix_table i \<noteq> t) (sc_indexes s),
        sc_triggers := filter (\<lambda>g. tg_table g \<noteq> t) (sc_triggers s),
        sc_roles := (if t = ''roles'' then [] else sc_roles s),
        sc_user_roles := (if t = ''user_roles'' then [] else sc_user_roles s)\<rparr>))"

text \<open>
  Dropping a column drops the constraints and indexes of its table that mention it; a key that
  another table refers to stops it. A column added to rows that exist must allow nulls or have a
  default.
\<close>

definition drop_column :: "string \<Rightarrow> string \<Rightarrow> schema \<Rightarrow> schema option" where
  "drop_column t c s =
     (case find_table t s of
        None \<Rightarrow> None
      | Some x \<Rightarrow>
          if c \<notin> set (column_names x) \<or> c \<in> set (snd (tb_primary x)) then None
          else Some ((replace_table (x\<lparr>tb_columns := filter (\<lambda>k. col_name k \<noteq> c) (tb_columns x),
                 tb_foreign := filter (\<lambda>k. fk_column k \<noteq> c) (tb_foreign x),
                 tb_checks := filter (\<lambda>k. c \<notin> cond_columns (snd k)) (tb_checks x)\<rparr>) s)
               \<lparr>sc_indexes := filter (\<lambda>i. \<not> (ix_table i = t \<and> c \<in> index_columns i)) (sc_indexes s)\<rparr>))"

definition add_column :: "string \<Rightarrow> table_item \<Rightarrow> schema \<Rightarrow> schema option" where
  "add_column t item s =
     (case (find_table t s, column_of item) of
        (Some x, [k]) \<Rightarrow>
          if col_name k \<in> set (column_names x) \<or> primary_of item \<noteq> [] \<or> foreign_of t item \<noteq> []
             \<or> \<not> (col_nullable k \<or> col_default k \<noteq> None) then None
          else Some (replace_table (x\<lparr>tb_columns := tb_columns x @ [k]\<rparr>) s)
      | _ \<Rightarrow> None)"

definition create_index :: "index_def \<Rightarrow> schema \<Rightarrow> schema option" where
  "create_index i s =
     (case find_table (ix_table i) s of
        None \<Rightarrow> None
      | Some x \<Rightarrow>
          if ix_name i \<in> relation_names s \<or> ix_columns i = [] \<or> \<not> index_columns i \<subseteq> set (column_names x) then None
          else Some (s\<lparr>sc_indexes := sc_indexes s @ [i]\<rparr>))"

fun apply_ddl :: "ddl \<Rightarrow> schema \<Rightarrow> schema option" where
  "apply_ddl (CreateTable t items) s =
     (let x = build_table t items in
      if t \<in> relation_names s \<or> fst (tb_primary x) \<in> relation_names s \<or> \<not> table_ok s x then None
      else Some (s\<lparr>sc_tables := sc_tables s @ [x]\<rparr>))"
| "apply_ddl (DropTable t) s = drop_table t s"
| "apply_ddl (AddColumn t item) s = add_column t item s"
| "apply_ddl (DropColumn t c) s = drop_column t c s"
| "apply_ddl (CreateIndex n t cs w) s =
     create_index \<lparr>ix_name = n, ix_table = t, ix_columns = cs, ix_unique = False, ix_where = w\<rparr> s"
| "apply_ddl (DropIndex n) s =
     (if n \<in> ix_name ` set (sc_indexes s) then Some (s\<lparr>sc_indexes := filter (\<lambda>i. ix_name i \<noteq> n) (sc_indexes s)\<rparr>)
      else None)"
| "apply_ddl (CreateFunction f) s =
     (if f \<in> set (sc_functions s) then None else Some (s\<lparr>sc_functions := sc_functions s @ [f]\<rparr>))"
| "apply_ddl (DropFunction f) s =
     (if f \<notin> set (sc_functions s) \<or> f \<in> tg_function ` set (sc_triggers s) then None
      else Some (s\<lparr>sc_functions := filter (\<lambda>g. g \<noteq> f) (sc_functions s)\<rparr>))"
| "apply_ddl (CreateTrigger g t events f) s =
     (if f \<notin> set (sc_functions s) \<or> t \<notin> tb_name ` set (sc_tables s)
         \<or> (g, t) \<in> (\<lambda>x. (tg_name x, tg_table x)) ` set (sc_triggers s) then None
      else Some (s\<lparr>sc_triggers := sc_triggers s @ [\<lparr>tg_name = g, tg_table = t, tg_events = events, tg_function = f\<rparr>]\<rparr>))"
| "apply_ddl (DropTrigger g t) s =
     (if (g, t) \<notin> (\<lambda>x. (tg_name x, tg_table x)) ` set (sc_triggers s) then None
      else Some (s\<lparr>sc_triggers := filter (\<lambda>x. (tg_name x, tg_table x) \<noteq> (g, t)) (sc_triggers s)\<rparr>))"
| "apply_ddl (InsertRole r d) s =
     (if ''roles'' \<notin> tb_name ` set (sc_tables s) \<or> r \<in> fst ` set (sc_roles s) \<or> 50 < length r then None
      else Some (s\<lparr>sc_roles := sc_roles s @ [(r, d)]\<rparr>))"
| "apply_ddl (DeleteAssignments r) s =
     (if ''user_roles'' \<notin> tb_name ` set (sc_tables s) then None
      else Some (s\<lparr>sc_user_roles := filter (\<lambda>(u, x). x \<noteq> r) (sc_user_roles s)\<rparr>))"
| "apply_ddl (DeleteRole r) s =
     (if ''roles'' \<notin> tb_name ` set (sc_tables s) \<or> r \<in> snd ` set (sc_user_roles s) then None
      else Some (s\<lparr>sc_roles := filter (\<lambda>(x, d). x \<noteq> r) (sc_roles s)\<rparr>))"

fun migrate :: "ddl list \<Rightarrow> schema \<Rightarrow> schema option" where
  "migrate [] s = Some s"
| "migrate (op # ops) s = (case apply_ddl op s of None \<Rightarrow> None | Some s' \<Rightarrow> migrate ops s')"

section \<open>The migrations\<close>

definition upgrade_0001 :: "ddl list" where
  "upgrade_0001 =
    [CreateTable ''users''
      [not_null ''id'' TUuid, nullable ''email'' TText, nullable ''display_name'' TText,
       with_default ''is_active'' TBoolean ''true'', created_at,
       with_default ''updated_at'' TTimestamp ''now()'',
       PrimaryKeyConstraint [''id''] ''pk_users''],
     CreateTable ''roles''
      [not_null ''name'' (TString 50), not_null ''description'' TText, created_at,
       PrimaryKeyConstraint [''name''] ''pk_roles''],
     CreateTable ''user_identities''
      [not_null ''issuer'' TText, not_null ''subject'' (TString 255), not_null ''user_id'' TUuid, created_at,
       ForeignKeyConstraint ''user_id'' (''users'', ''id'') ''fk_user_identities_user_id_users'',
       PrimaryKeyConstraint [''issuer'', ''subject''] ''pk_user_identities''],
     CreateIndex ''ix_user_identities_user_id'' ''user_identities'' [''user_id''] None,
     CreateTable ''user_roles''
      [not_null ''user_id'' TUuid, not_null ''role_name'' (TString 50),
       with_default ''assigned_at'' TTimestamp ''now()'',
       ForeignKeyConstraint ''role_name'' (''roles'', ''name'') ''fk_user_roles_role_name_roles'',
       ForeignKeyConstraint ''user_id'' (''users'', ''id'') ''fk_user_roles_user_id_users'',
       PrimaryKeyConstraint [''user_id'', ''role_name''] ''pk_user_roles''],
     InsertRole ''member'' ''Default non-elevated MIC3 member role.'']"

definition downgrade_0001 :: "ddl list" where
  "downgrade_0001 = [DropTable ''user_roles'', DropTable ''user_identities'', DropTable ''roles'', DropTable ''users'']"

definition upgrade_0002 :: "ddl list" where
  "upgrade_0002 = [InsertRole ''admin'' ''Explicitly granted MIC3 administrator role.'']"

definition downgrade_0002 :: "ddl list" where
  "downgrade_0002 = [DeleteAssignments ''admin'', DeleteRole ''admin'']"

definition upgrade_0003 :: "ddl list" where
  "upgrade_0003 =
    [CreateTable ''models'' [primary ''id'' TText, not_null ''display_name'' TText],
     CreateTable ''model_releases''
      [primary ''id'' TUuid, restricted ''model_id'' TText False ''models'' ''id'',
       not_null ''image_digest'' TText, not_null ''execution_definition'' TJsonb, created_at,
       CheckConstraint (JsonObject ''execution_definition'') ''execution_object''],
     CreateIndex ''ix_model_releases_model_id'' ''model_releases'' [''model_id''] None,
     CreateTable ''runs''
      [primary ''id'' TUuid, restricted ''model_release_id'' TUuid False ''model_releases'' ''id'',
       restricted ''requested_by'' TUuid True ''users'' ''id'', not_null ''parameters'' TJsonb,
       not_null ''fingerprint'' TText, not_null ''status'' TText, created_at,
       CheckConstraint (JsonObject ''parameters'') ''parameters_object'',
       CheckConstraint (LowerHex ''fingerprint'' 64) ''fingerprint_sha256'',
       CheckConstraint (InStrings ''status'' [''queued'', ''running'', ''succeeded'', ''failed'']) ''status''],
     CreateIndex ''ix_runs_fingerprint'' ''runs'' [''fingerprint''] None,
     CreateIndex ''ix_runs_requested_by_created_at'' ''runs'' [''requested_by'', ''created_at''] None,
     CreateTable ''outbox_events''
      [primary ''id'' TUuid, restricted ''run_id'' TUuid False ''runs'' ''id'', not_null ''event_type'' TText,
       created_at, nullable ''published_at'' TTimestamp],
     CreateIndex ''ix_outbox_events_unpublished'' ''outbox_events'' [''created_at'', ''id''] (Some (IsNull ''published_at''))]"

definition downgrade_0003 :: "ddl list" where
  "downgrade_0003 = [DropTable ''outbox_events'', DropTable ''runs'', DropTable ''model_releases'', DropTable ''models'']"

definition upgrade_0004 :: "ddl list" where
  "upgrade_0004 =
    [AddColumn ''runs'' (nullable ''accepted_at'' TTimestamp),
     AddColumn ''runs'' (nullable ''failure_code'' TText),
     CreateTable ''rejected_messages''
      [primary ''topic'' TText, primary ''partition'' TInteger, primary ''offset'' TBigInteger,
       not_null ''reason_code'' (TString 64), not_null ''diagnostic'' (TString 256),
       with_default ''recorded_at'' TTimestamp ''now()'']]"

definition downgrade_0004 :: "ddl list" where
  "downgrade_0004 = [DropTable ''rejected_messages'', DropColumn ''runs'' ''failure_code'', DropColumn ''runs'' ''accepted_at'']"

definition dispatchable :: sql_cond where
  "dispatchable = BothHold (IsNotNull ''accepted_at'') (InStrings ''status'' [''queued'', ''running''])"

definition upgrade_0005 :: "ddl list" where
  "upgrade_0005 =
    map (\<lambda>name. AddColumn ''runs'' (nullable name TTimestamp)) [''dispatch_started_at'', ''finished_at'']
    @ map (\<lambda>name. AddColumn ''runs'' (nullable name TText)) [''job_namespace'', ''job_uid'']
    @ [CreateTable ''run_artifacts''
        [Column ''run_id'' TUuid False None True (Some (''runs'', ''id'', Some ''RESTRICT'')),
         primary ''object_key'' TText, not_null ''bucket'' TText, not_null ''size_bytes'' TBigInteger,
         CheckConstraint (AtLeastZero ''size_bytes'') ''artifact_size_nonnegative''],
       CreateIndex ''ix_runs_dispatch'' ''runs'' [''created_at'', ''id''] (Some dispatchable)]"

definition downgrade_0005 :: "ddl list" where
  "downgrade_0005 = [DropIndex ''ix_runs_dispatch'', DropTable ''run_artifacts'']
    @ map (DropColumn ''runs'') [''job_uid'', ''job_namespace'', ''finished_at'', ''dispatch_started_at'']"

definition upgrade_0006 :: "ddl list" where
  "upgrade_0006 =
    [CreateFunction ''mic3_notify_run_change'',
     CreateTrigger ''mic3_runs_notify'' ''runs'' [''INSERT'', ''UPDATE''] ''mic3_notify_run_change'',
     CreateTrigger ''mic3_run_artifacts_notify'' ''run_artifacts'' [''INSERT'', ''UPDATE'', ''DELETE''] ''mic3_notify_run_change'']"

definition downgrade_0006 :: "ddl list" where
  "downgrade_0006 = [DropTrigger ''mic3_run_artifacts_notify'' ''run_artifacts'', DropTrigger ''mic3_runs_notify'' ''runs'',
     DropFunction ''mic3_notify_run_change'']"

record revision =
  rev_id :: string
  rev_down :: "string option"
  rev_upgrade :: "ddl list"
  rev_downgrade :: "ddl list"

definition revision_0001 :: revision where
  "revision_0001 = \<lparr>rev_id = ''0001_user_member_schema'', rev_down = None, rev_upgrade = upgrade_0001, rev_downgrade = downgrade_0001\<rparr>"
definition revision_0002 :: revision where
  "revision_0002 = \<lparr>rev_id = ''0002_admin_role'', rev_down = Some ''0001_user_member_schema'', rev_upgrade = upgrade_0002,
     rev_downgrade = downgrade_0002\<rparr>"
definition revision_0003 :: revision where
  "revision_0003 = \<lparr>rev_id = ''0003_model_runs'', rev_down = Some ''0002_admin_role'', rev_upgrade = upgrade_0003,
     rev_downgrade = downgrade_0003\<rparr>"
definition revision_0004 :: revision where
  "revision_0004 = \<lparr>rev_id = ''0004_run_acceptance'', rev_down = Some ''0003_model_runs'', rev_upgrade = upgrade_0004,
     rev_downgrade = downgrade_0004\<rparr>"
definition revision_0005 :: revision where
  "revision_0005 = \<lparr>rev_id = ''0005_run_execution'', rev_down = Some ''0004_run_acceptance'', rev_upgrade = upgrade_0005,
     rev_downgrade = downgrade_0005\<rparr>"
definition revision_0006 :: revision where
  "revision_0006 = \<lparr>rev_id = ''0006_run_notifications'', rev_down = Some ''0005_run_execution'', rev_upgrade = upgrade_0006,
     rev_downgrade = downgrade_0006\<rparr>"

definition revisions :: "revision list" where
  "revisions = [revision_0001, revision_0002, revision_0003, revision_0004, revision_0005, revision_0006]"

text \<open>
  The order in which the revisions of a directory are applied: each names the one it follows.
\<close>

fun upgrade_plan :: "nat \<Rightarrow> string option \<Rightarrow> revision list \<Rightarrow> revision list" where
  "upgrade_plan 0 current rs = []"
| "upgrade_plan (Suc n) current rs =
     (case find_by rev_down current rs of None \<Rightarrow> [] | Some r \<Rightarrow> r # upgrade_plan n (Some (rev_id r)) rs)"

definition upgrade_all :: "revision list \<Rightarrow> schema \<Rightarrow> schema option" where
  "upgrade_all rs s = migrate (concat (map rev_upgrade (upgrade_plan (length rs) None rs))) s"

section \<open>The mapped classes\<close>

definition users_table :: table_def where
  "users_table = build_table ''users''
      [primary ''id'' TUuid, nullable ''email'' TText, nullable ''display_name'' TText,
       with_default ''is_active'' TBoolean ''true'', created_at, with_default ''updated_at'' TTimestamp ''now()'']"

definition user_identities_table :: table_def where
  "user_identities_table = build_table ''user_identities''
      [primary ''issuer'' TText, primary ''subject'' (TString 255),
       Column ''user_id'' TUuid False None False (Some (''users'', ''id'', None)), created_at]"

definition roles_table :: table_def where
  "roles_table = build_table ''roles'' [primary ''name'' (TString 50), not_null ''description'' TText, created_at]"

definition user_roles_table :: table_def where
  "user_roles_table = build_table ''user_roles''
      [Column ''user_id'' TUuid False None True (Some (''users'', ''id'', None)),
       Column ''role_name'' (TString 50) False None True (Some (''roles'', ''name'', None)),
       with_default ''assigned_at'' TTimestamp ''now()'']"

definition models_table :: table_def where
  "models_table = build_table ''models'' [primary ''id'' TText, not_null ''display_name'' TText]"

definition model_releases_table :: table_def where
  "model_releases_table = build_table ''model_releases''
      [CheckConstraint (JsonObject ''execution_definition'') ''execution_object'',
       primary ''id'' TUuid, restricted ''model_id'' TText False ''models'' ''id'', not_null ''image_digest'' TText,
       not_null ''execution_definition'' TJsonb, created_at]"

definition runs_table :: table_def where
  "runs_table = build_table ''runs''
      [CheckConstraint (JsonObject ''parameters'') ''parameters_object'',
       CheckConstraint (LowerHex ''fingerprint'' 64) ''fingerprint_sha256'',
       CheckConstraint (InStrings ''status'' [''queued'', ''running'', ''succeeded'', ''failed'']) ''status'',
       primary ''id'' TUuid, restricted ''model_release_id'' TUuid False ''model_releases'' ''id'',
       restricted ''requested_by'' TUuid True ''users'' ''id'', not_null ''parameters'' TJsonb, not_null ''fingerprint'' TText,
       not_null ''status'' TText, nullable ''accepted_at'' TTimestamp, nullable ''failure_code'' TText,
       nullable ''dispatch_started_at'' TTimestamp, nullable ''finished_at'' TTimestamp, nullable ''job_namespace'' TText,
       nullable ''job_uid'' TText, created_at]"

definition run_artifacts_table :: table_def where
  "run_artifacts_table = build_table ''run_artifacts''
      [CheckConstraint (AtLeastZero ''size_bytes'') ''artifact_size_nonnegative'',
       Column ''run_id'' TUuid False None True (Some (''runs'', ''id'', Some ''RESTRICT'')), primary ''object_key'' TText,
       not_null ''bucket'' TText, not_null ''size_bytes'' TBigInteger]"

definition outbox_events_table :: table_def where
  "outbox_events_table = build_table ''outbox_events''
      [primary ''id'' TUuid, restricted ''run_id'' TUuid False ''runs'' ''id'', not_null ''event_type'' TText, created_at,
       nullable ''published_at'' TTimestamp]"

definition rejected_messages_table :: table_def where
  "rejected_messages_table = build_table ''rejected_messages''
      [primary ''topic'' TText, primary ''partition'' TInteger, primary ''offset'' TBigInteger,
       not_null ''reason_code'' (TString 64), not_null ''diagnostic'' (TString 256),
       with_default ''recorded_at'' TTimestamp ''now()'']"

definition orm_tables :: "table_def list" where
  "orm_tables = [users_table, user_identities_table, roles_table, user_roles_table, models_table,
     model_releases_table, runs_table, run_artifacts_table, outbox_events_table, rejected_messages_table]"

definition plain_index :: "string \<Rightarrow> string \<Rightarrow> string list \<Rightarrow> index_def" where
  "plain_index n t cs = \<lparr>ix_name = n, ix_table = t, ix_columns = cs, ix_unique = False, ix_where = None\<rparr>"

definition orm_indexes :: "index_def list" where
  "orm_indexes =
    [plain_index ''ix_user_identities_user_id'' ''user_identities'' [''user_id''],
     plain_index ''ix_model_releases_model_id'' ''model_releases'' [''model_id''],
     plain_index ''ix_runs_fingerprint'' ''runs'' [''fingerprint''],
     (plain_index ''ix_runs_dispatch'' ''runs'' [''created_at'', ''id''])\<lparr>ix_where := Some dispatchable\<rparr>,
     plain_index ''ix_runs_requested_by_created_at'' ''runs'' [''requested_by'', ''created_at''],
     (plain_index ''ix_outbox_events_unpublished'' ''outbox_events'' [''created_at'', ''id''])
       \<lparr>ix_where := Some (IsNull ''published_at'')\<rparr>]"

text \<open>Two tables agree up to the order of their columns and constraints.\<close>

definition same_table :: "table_def \<Rightarrow> table_def \<Rightarrow> bool" where
  "same_table a b \<longleftrightarrow> tb_name a = tb_name b \<and> set (tb_columns a) = set (tb_columns b) \<and> tb_primary a = tb_primary b
     \<and> set (tb_foreign a) = set (tb_foreign b) \<and> set (tb_checks a) = set (tb_checks b)"


section \<open>Upgrading and downgrading\<close>

definition stage :: "nat \<Rightarrow> schema" where
  "stage k = (case migrate (concat (map rev_upgrade (take k revisions))) empty_schema of None \<Rightarrow> empty_schema | Some s \<Rightarrow> s)"

definition assign :: "(uuid \<times> string) list \<Rightarrow> schema \<Rightarrow> schema" where
  "assign asg s = s\<lparr>sc_user_roles := asg\<rparr>"

text \<open>Only three operations look at the assignments of roles.\<close>

fun ignores_assignments :: "ddl \<Rightarrow> bool" where
  "ignores_assignments (DropTable t) \<longleftrightarrow> t \<noteq> ''user_roles''"
| "ignores_assignments (DeleteAssignments _) \<longleftrightarrow> False"
| "ignores_assignments (DeleteRole _) \<longleftrightarrow> False"
| "ignores_assignments _ \<longleftrightarrow> True"

lemma assign_fields [simp]:
  "sc_tables (assign a s) = sc_tables s" "sc_indexes (assign a s) = sc_indexes s" "sc_functions (assign a s) = sc_functions s"
  "sc_triggers (assign a s) = sc_triggers s" "sc_roles (assign a s) = sc_roles s" "sc_user_roles (assign a s) = a"
  by (simp_all add: assign_def)

lemma assign_updates [simp]:
  "sc_tables_update f (assign a s) = assign a (sc_tables_update f s)"
  "sc_indexes_update g (assign a s) = assign a (sc_indexes_update g s)"
  "sc_functions_update h (assign a s) = assign a (sc_functions_update h s)"
  "sc_triggers_update i (assign a s) = assign a (sc_triggers_update i s)"
  "sc_roles_update j (assign a s) = assign a (sc_roles_update j s)"
  "sc_user_roles_update k (assign a s) = assign (k a) s"
  "assign a (sc_user_roles_update k s) = assign a s"
  by (simp_all add: assign_def)

lemma assign_reads [simp]:
  "relation_names (assign a s) = relation_names s" "table_ok (assign a s) t = table_ok s t"
  "replace_table t (assign a s) = assign a (replace_table t s)"
proof -
  have "reference_ok (assign a s) t = reference_ok s t" by (simp add: fun_eq_iff reference_ok_def)
  then show "table_ok (assign a s) t = table_ok s t" by (simp add: table_ok_def)
qed (simp_all add: relation_names_def replace_table_def)

lemma apply_ddl_assign:
  "ignores_assignments op \<Longrightarrow> apply_ddl op (assign a s) = map_option (assign a) (apply_ddl op s)"
  by (cases op) (auto simp: drop_table_def drop_column_def add_column_def create_index_def Let_def
      split: option.splits list.splits)

lemma migrate_assign:
  "list_all ignores_assignments ops \<Longrightarrow> migrate ops (assign a s) = map_option (assign a) (migrate ops s)"
  by (induction ops arbitrary: s) (auto simp: apply_ddl_assign split: option.splits)

lemma migrate_append: "migrate (as @ bs) s = (case migrate as s of None \<Rightarrow> None | Some s' \<Rightarrow> migrate bs s')"
  by (induction as arbitrary: s) (auto split: option.splits)

text \<open>Each step of the chain is checked once, on the schema it starts from.\<close>

fun undone :: "revision list \<Rightarrow> schema \<Rightarrow> bool" where
  "undone [] s \<longleftrightarrow> True"
| "undone (r # rs) s \<longleftrightarrow> (case migrate (rev_upgrade r) s of None \<Rightarrow> False
     | Some s' \<Rightarrow> migrate (rev_downgrade r) s' = Some s \<and> undone rs s')"

lemma revisions_undone: "undone revisions empty_schema"
  by code_simp

lemma undone_upgrade: "undone rs s \<Longrightarrow> migrate (concat (map rev_upgrade rs)) s \<noteq> None"
  by (induction rs arbitrary: s) (auto simp: migrate_append split: option.splits)

lemma stage_Some: "migrate (concat (map rev_upgrade (take k revisions))) empty_schema = Some (stage k)"
proof -
  have "concat (map rev_upgrade revisions)
      = concat (map rev_upgrade (take k revisions)) @ concat (map rev_upgrade (drop k revisions))"
    by (metis append_take_drop_id concat_append map_append)
  with undone_upgrade [OF revisions_undone] show ?thesis by (auto simp: migrate_append stage_def split: option.splits)
qed

lemma stage_0: "stage 0 = empty_schema"
  by (simp add: stage_def)

lemma stage_Suc:
  assumes "k < length revisions"
  shows "migrate (rev_upgrade (revisions ! k)) (stage k) = Some (stage (Suc k))"
  using stage_Some [of "Suc k"] stage_Some [of k] assms by (simp add: take_Suc_conv_app_nth migrate_append)

lemma undone_nth:
  assumes "undone rs s" and "k < length rs" and "migrate (concat (map rev_upgrade (take k rs))) s = Some t"
    and "migrate (concat (map rev_upgrade (take (Suc k) rs))) s = Some t'"
  shows "migrate (rev_downgrade (rs ! k)) t' = Some t"
  using assms by (induction rs arbitrary: s k) (auto simp: migrate_append take_Cons' nth_Cons' split: option.splits if_splits)

lemma downgrade_nth: "k < length revisions \<Longrightarrow> migrate (rev_downgrade (revisions ! k)) (stage (Suc k)) = Some (stage k)"
  by (rule undone_nth [OF revisions_undone _ stage_Some stage_Some])

definition remaining_assignments :: "nat \<Rightarrow> (uuid \<times> string) list \<Rightarrow> (uuid \<times> string) list" where
  "remaining_assignments k asg = (if k = 0 then [] else if k = 1 then filter (\<lambda>(u, r). r \<noteq> ADMIN_ROLE) asg else asg)"

text \<open>
  The first two revisions look at assignments: the one drops their table, the other deletes the
  administrator role after its assignments.
\<close>

lemma first_downgrade: "migrate downgrade_0001 (assign a s) = migrate downgrade_0001 s"
proof -
  have "apply_ddl (DropTable ''user_roles'') (assign a s) = apply_ddl (DropTable ''user_roles'') s"
    by (simp add: drop_table_def assign_def)
  then show ?thesis by (simp add: downgrade_0001_def del: apply_ddl.simps)
qed

lemma second_downgrade:
  assumes "migrate downgrade_0002 s = Some s'"
  shows "migrate downgrade_0002 (assign a s) = Some (assign (filter (\<lambda>(u, r). r \<noteq> ''admin'') a) s')"
proof -
  let ?b = "filter (\<lambda>(u, r). r \<noteq> ''admin'') a"
  from assms have s': "s' = (s\<lparr>sc_user_roles := filter (\<lambda>(u, x). x \<noteq> ''admin'') (sc_user_roles s)\<rparr>)
      \<lparr>sc_roles := filter (\<lambda>(x, d). x \<noteq> ''admin'') (sc_roles s)\<rparr>"
    and tables: "''roles'' \<in> tb_name ` set (sc_tables s)" "''user_roles'' \<in> tb_name ` set (sc_tables s)"
    by (simp_all add: downgrade_0002_def split: if_splits)
  moreover have "''admin'' \<notin> snd ` set ?b" by auto
  ultimately show ?thesis by (simp add: downgrade_0002_def assign_def)
qed

lemma later_downgrade:
  "list_all ignores_assignments ops \<Longrightarrow> migrate ops s = Some s' \<Longrightarrow> migrate ops (assign a s) = Some (assign a s')"
  by (simp add: migrate_assign)

lemma later_downgrades_ignore: "list_all (\<lambda>r. list_all ignores_assignments (rev_downgrade r)) (drop 2 revisions)"
  by code_simp

lemma downgrade_stage:
  assumes "k < length revisions"
  shows "migrate (rev_downgrade (revisions ! k)) (assign a (stage (Suc k))) = Some (assign (remaining_assignments k a) (stage k))"
proof -
  consider "k = 0" | "k = 1" | "2 \<le> k" by linarith
  then show ?thesis
  proof cases
    case 1
    have "assign [] (stage 0) = stage 0" by (simp add: stage_0 assign_def empty_schema_def)
    with downgrade_nth [OF assms] 1 show ?thesis
      by (simp add: remaining_assignments_def revisions_def revision_0001_def first_downgrade)
  next
    case 2
    with downgrade_nth [OF assms] show ?thesis
      by (simp add: remaining_assignments_def revisions_def revision_0002_def second_downgrade ADMIN_ROLE_def)
  next
    case 3
    then obtain j where j: "k = 2 + j" using le_Suc_ex by blast
    with assms have "revisions ! k = drop 2 revisions ! j" and "j < length (drop 2 revisions)" by (simp_all add: nth_drop)
    moreover note later_downgrades_ignore
    ultimately have "list_all ignores_assignments (rev_downgrade (revisions ! k))" by (metis list_all_iff nth_mem)
    from later_downgrade [OF this downgrade_nth [OF assms]] 3 show ?thesis by (simp add: remaining_assignments_def)
  qed
qed

text \<open>The order of the files does not matter: each revision has one successor.\<close>

lemma find_by_mset:
  assumes "mset xs = mset ys" and "distinct (map key ys)"
  shows "find_by key k xs = find_by key k ys"
proof (cases "find_by key k ys")
  case None
  with assms(1) show ?thesis by (metis find_by_None mset_eq_setD)
next
  case (Some r)
  from find_by_Some [OF this] have "r \<in> set xs" "key r = k" using mset_eq_setD [OF assms(1)] by auto
  moreover have "distinct (map key xs)" using assms mset_eq_imp_distinct_iff [of "map key xs" "map key ys"] by simp
  ultimately show ?thesis using Some find_by_distinct by metis
qed

lemma upgrade_plan_mset:
  assumes "mset rs = mset revisions"
  shows "upgrade_plan n current rs = upgrade_plan n current revisions"
proof -
  have "distinct (map rev_down revisions)" by code_simp
  from find_by_mset [OF assms this] show ?thesis by (induction n arbitrary: current) (simp_all split: option.splits)
qed

lemma upgrade_plan_revisions: "upgrade_plan (length revisions) None revisions = revisions"
  by code_simp

lemma upgrade_all_mset:
  assumes "mset rs = mset revisions"
  shows "upgrade_all rs empty_schema = Some (stage (length revisions))"
  using stage_Some [of "length revisions"] upgrade_plan_revisions
  by (simp add: upgrade_all_def upgrade_plan_mset [OF assms] mset_eq_length [OF assms])

section \<open>The migrated schema is the mapped one\<close>

definition mapped_schema :: "schema \<Rightarrow> bool" where
  "mapped_schema s \<longleftrightarrow> length (sc_tables s) = length orm_tables
     \<and> list_all (\<lambda>t. case find_table (tb_name t) s of None \<Rightarrow> False | Some x \<Rightarrow> same_table t x) orm_tables
     \<and> distinct (map tb_name (sc_tables s)) \<and> distinct (sc_indexes s) \<and> set (sc_indexes s) = set orm_indexes"

definition seeded :: "schema \<Rightarrow> bool" where
  "seeded s \<longleftrightarrow> sc_user_roles s = [] \<and> sc_roles s = map (\<lambda>r. (ro_name r, ro_description r)) (seeded_roles 0 0)
     \<and> map (\<lambda>g. (tg_table g, tg_function g)) (sc_triggers s)
         = [(''runs'', ''mic3_notify_run_change''), (''run_artifacts'', ''mic3_notify_run_change'')]"

definition head_ok :: "schema \<Rightarrow> bool" where
  "head_ok s \<longleftrightarrow> mapped_schema s \<and> seeded s"

lemma head_ok_stage: "head_ok (stage 6)"
  by code_simp

lemma orm_names: "distinct (map tb_name orm_tables)"
  by code_simp

end
