(* ===== verification/Lifecycle.thy ===== *)
theory Lifecycle
  imports Configuration Schema
begin

text \<open>
  Acquiring and releasing: the main functions of the worker and the publisher, the two loops of
  \<open>run_with_execution\<close>, the signal handlers of \<open>process.py\<close>, the Kafka consumer of one attempt and
  the migration runner. What a function opens and closes is a log beside its result, and a log is
  settled when everything opened is closed again, last opened first.
\<close>

section \<open>Logs\<close>

datatype resource = DatabaseEngine | DatabaseSession | KafkaConsumer | KafkaProducer | KubernetesClient | ObjectStore
  | SignalHandlers | LoopPool | Listener | SnapshotPool | MigrationConnection

datatype life = Opened resource | Closed resource

type_synonym 'a act = "(exn + 'a) \<times> life list"

fun settle :: "resource list \<Rightarrow> life list \<Rightarrow> resource list option" where
  "settle stack [] = Some stack"
| "settle stack (Opened r # log) = settle (r # stack) log"
| "settle (r # stack) (Closed x # log) = (if x = r then settle stack log else None)"
| "settle [] (Closed x # log) = None"

definition settled_log :: "life list \<Rightarrow> bool" where
  "settled_log log \<longleftrightarrow> settle [] log = Some []"

text \<open>A block between opening and closing a resource; closing happens on every path.\<close>

definition holding :: "resource \<Rightarrow> 'a act \<Rightarrow> 'a act" where
  "holding r body = (fst body, Opened r # snd body @ [Closed r])"

lemma settle_append: "settle stack (xs @ ys) = (case settle stack xs of None \<Rightarrow> None | Some s \<Rightarrow> settle s ys)"
  by (induction stack xs rule: settle.induct) simp_all

lemma settle_under: "settle [] log = Some [] \<Longrightarrow> settle stack log = Some stack"
proof -
  have "settle s log = Some t \<Longrightarrow> settle (s @ stack) log = Some (t @ stack)" for s t
    by (induction s log rule: settle.induct) (auto split: if_splits)
  from this [of "[]" "[]"] show "settle [] log = Some [] \<Longrightarrow> settle stack log = Some stack" by simp
qed

lemma settled_nil [simp]: "settled_log []"
  by (simp add: settled_log_def)

lemma settled_append [simp]: "settled_log xs \<Longrightarrow> settled_log ys \<Longrightarrow> settled_log (xs @ ys)"
  by (simp add: settled_log_def settle_append)

lemma settled_concat: "(\<And>log. log \<in> set logs \<Longrightarrow> settled_log log) \<Longrightarrow> settled_log (concat logs)"
  by (induction logs) simp_all

lemma settled_around [simp]: "settled_log log \<Longrightarrow> settled_log (Opened r # log @ [Closed r])"
  using settle_under [of log "[r]"] by (simp add: settled_log_def settle_append)

lemma settled_holding [simp]: "settled_log (snd body) \<Longrightarrow> settled_log (snd (holding r body))"
  by (simp add: holding_def)

lemma fst_holding [simp]: "fst (holding r body) = fst body"
  by (simp add: holding_def)

text \<open>A settled log closes every resource as often as it opened it.\<close>

lemma settled_counts:
  assumes "settled_log log"
  shows "count_list log (Opened r) = count_list log (Closed r)"
proof -
  have "settle s log = Some t \<Longrightarrow> count_list s r + count_list log (Opened r) = count_list t r + count_list log (Closed r)" for s t
    by (induction s log rule: settle.induct) (auto split: if_splits)
  from this [of "[]" "[]"] assms show ?thesis by (simp add: settled_log_def)
qed

section \<open>Signals\<close>

datatype signal = SIGINT | SIGTERM | OtherSignal nat

text \<open>The handlers of the process; \<open>stopper\<close> is the handler that sets the stop event.\<close>

definition stop_on_signals :: "'h \<Rightarrow> ((signal \<Rightarrow> 'h) \<Rightarrow> 'r \<times> (signal \<Rightarrow> 'h)) \<Rightarrow> (signal \<Rightarrow> 'h) \<Rightarrow> 'r \<times> (signal \<Rightarrow> 'h)" where
  "stop_on_signals stopper body handlers =
     (case body (handlers(SIGINT := stopper, SIGTERM := stopper)) of
        (res, after) \<Rightarrow> (res, after(SIGINT := handlers SIGINT, SIGTERM := handlers SIGTERM)))"

lemma stop_on_signals_restores:
  assumes "stop_on_signals stopper body handlers = (res, after)"
    and "\<And>h n. snd (body h) (OtherSignal n) = h (OtherSignal n)"
  shows "after = handlers"
proof
  fix s
  show "after s = handlers s"
    using assms(1) assms(2) [of "handlers(SIGINT := stopper, SIGTERM := stopper)"]
    by (cases s) (auto simp: stop_on_signals_def split: prod.splits)
qed

section \<open>The Kafka consumer\<close>

text \<open>
  Creating the consumer, asking for its topic (an error of the request, or of the topic) and
  subscribing. A failure after the consumer exists closes it before it is raised.
\<close>

record consumer_start =
  cs_create :: "exn + unit"
  cs_topic :: "exn + bool option"
  cs_subscribe :: "exn + unit"

definition check_topic :: "exn + bool option \<Rightarrow> exn + unit" where
  "check_topic listed = bind_res listed (\<lambda>err. case err of None \<Rightarrow> Inr () | Some fatal \<Rightarrow> Inl (KafkaException fatal))"

definition open_consumer :: "consumer_start \<Rightarrow> unit act" where
  "open_consumer k =
     (case cs_create k of
        Inl e \<Rightarrow> (Inl e, [])
      | Inr _ \<Rightarrow>
          (case bind_res (check_topic (cs_topic k)) (\<lambda>_. cs_subscribe k) of
             Inl e \<Rightarrow> (Inl e, [Opened KafkaConsumer, Closed KafkaConsumer])
           | Inr _ \<Rightarrow> (Inr (), [Opened KafkaConsumer])))"

text \<open>
  The consumers of the worker's attempts: the loop's \<open>finally\<close> closes the one it was given.
  \<open>worker_run\<close> uses as many attempts as it has lists of commits.
\<close>

definition attempt_log :: "consumer_start \<Rightarrow> life list" where
  "attempt_log k = (case open_consumer k of (Inl e, log) \<Rightarrow> log | (Inr _, log) \<Rightarrow> log @ [Closed KafkaConsumer])"

definition factory_of :: "consumer_start \<Rightarrow> int \<Rightarrow> exn + int" where
  "factory_of k deadline = map_sum id (\<lambda>_. deadline) (fst (open_consumer k))"

definition accept_loop :: "decoder \<Rightarrow> bool \<Rightarrow> (consumer_start \<times> int \<times> polled list) list \<Rightarrow> db \<Rightarrow> nat act \<times> db" where
  "accept_loop decode once turns d =
     (case worker_run decode once (map (\<lambda>(k, deadline, ps). \<lparr>wt_factory = factory_of k deadline, wt_polls = ps\<rparr>) turns) d of
        (code, css, d') \<Rightarrow> ((Inr code, concat (map (\<lambda>(k, _). attempt_log k) (take (length css) turns))), d'))"

lemma attempt_log_settled: "settled_log (attempt_log k)"
  by (auto simp: attempt_log_def open_consumer_def settled_log_def split: sum.splits)

lemma accept_loop_ok:
  assumes "accept_loop decode once turns d = ((res, log), d')"
  shows "settled_log log" and "res = Inr 0 \<or> res = Inr 1"
proof -
  obtain code css where w: "worker_run decode once
      (map (\<lambda>(k, deadline, ps). \<lparr>wt_factory = factory_of k deadline, wt_polls = ps\<rparr>) turns) d = (code, css, d')"
    and log: "log = concat (map (\<lambda>(k, _). attempt_log k) (take (length css) turns))" and res: "res = Inr code"
    using assms by (auto simp: accept_loop_def split: prod.splits)
  show "settled_log log" unfolding log by (rule settled_concat) (auto intro: attempt_log_settled)
  from worker_run_commits [OF w] res show "res = Inr 0 \<or> res = Inr 1" by (auto simp: le_Suc_eq)
qed

section \<open>The two loops of an executing worker\<close>

text \<open>
  Connecting the cluster and the object store may fail; the clients that exist are closed, the
  later one first. Each loop sets the stop event when it ends, whichever way; the results are read
  in order, and an exception of the first hides the second.
\<close>

fun max_result :: "(exn + nat) list \<Rightarrow> exn + nat" where
  "max_result [] = Inl (ValueError ''max() iterable argument is empty'')"
| "max_result [r] = r"
| "max_result (r # rs) = bind_res r (\<lambda>a. bind_res (max_result rs) (\<lambda>b. Inr (max a b)))"

definition supervised :: "'s act \<Rightarrow> 's act \<times> bool" where
  "supervised task = (task, True)"

definition run_with_execution :: "exn + unit \<Rightarrow> exn + unit \<Rightarrow> nat act \<Rightarrow> exn + nat \<Rightarrow> nat act" where
  "run_with_execution connect_jobs connect_store accepting executing =
     (case connect_jobs of
        Inl e \<Rightarrow> (Inl e, [])
      | Inr _ \<Rightarrow>
          holding KubernetesClient
            (case connect_store of
               Inl e \<Rightarrow> (Inl e, [])
             | Inr _ \<Rightarrow> holding ObjectStore (holding LoopPool (max_result [fst accepting, executing], snd accepting))))"

lemma run_with_execution_ok:
  assumes "settled_log (snd accepting)"
  shows "settled_log (snd (run_with_execution cj cs accepting executing))"
  using assms by (auto simp: run_with_execution_def split: sum.splits)

lemma max_result_codes:
  assumes "fst accepting = Inr 0 \<or> fst accepting = Inr 1" and "executing = Inr 0 \<or> executing = Inr (1 :: nat)"
  shows "max_result [fst accepting, executing] = Inr 0 \<or> max_result [fst accepting, executing] = Inr 1"
  using assms by auto

section \<open>The main functions\<close>

text \<open>
  \<open>worker.main\<close>: reading the settings, creating the engine and the loop itself may raise, which is
  answered with 1; the engine is disposed on every path that created it.
\<close>

record worker_start =
  wm_environment :: env_reader
  wm_engine :: "json_dict \<Rightarrow> exn + unit"
  wm_jobs :: "exn + unit"
  wm_store :: "exn + unit"
  wm_execution :: "exn + nat"

definition worker_settings_of :: "bool \<Rightarrow> env_reader \<Rightarrow> exn + worker_settings" where
  "worker_settings_of execute env =
     (if execute then map_sum id xs_worker (read_execution_settings env) else read_worker_settings env)"

definition exit_code :: "exn + nat \<Rightarrow> nat" where
  "exit_code r = (case r of Inl _ \<Rightarrow> 1 | Inr c \<Rightarrow> c)"

definition worker_main :: "bool \<Rightarrow> worker_start \<Rightarrow> nat act \<Rightarrow> nat \<times> life list" where
  "worker_main execute w accepting =
     (case worker_settings_of execute (wm_environment w) of
        Inl e \<Rightarrow> (1, [])
      | Inr s \<Rightarrow>
          (case bind_res (connect_args (Some (ws_statement_timeout_ms s)) (Some (ws_lock_timeout_ms s))) (wm_engine w) of
             Inl e \<Rightarrow> (1, [])
           | Inr _ \<Rightarrow>
               (case holding DatabaseEngine (holding SignalHandlers
                   (if execute then run_with_execution (wm_jobs w) (wm_store w) accepting (wm_execution w) else accepting))
                of (r, log) \<Rightarrow> (exit_code r, log))))"

lemma worker_main_ok:
  assumes "worker_main execute w accepting = (code, log)" and "settled_log (snd accepting)"
    and "fst accepting = Inr 0 \<or> fst accepting = Inr 1" and "wm_execution w = Inr 0 \<or> wm_execution w = Inr 1"
  shows "settled_log log \<and> code \<le> 1"
proof -
  let ?body = "if execute then run_with_execution (wm_jobs w) (wm_store w) accepting (wm_execution w) else accepting"
  have "settled_log (snd ?body)" using assms(2) run_with_execution_ok by simp
  then have log: "settled_log (snd (holding DatabaseEngine (holding SignalHandlers ?body)))" by simp
  have code: "exit_code (fst ?body) \<le> 1"
    using assms(3) max_result_codes [OF assms(3,4)]
    by (auto simp: exit_code_def run_with_execution_def split: sum.splits)
  show ?thesis using assms(1) log code
    by (auto simp: worker_main_def holding_def split: sum.splits)
qed

text \<open>
  \<open>publisher.main\<close>: the exceptions of configuration, Kafka and the database are answered with 1,
  anything else is raised after both resources are closed.
\<close>

fun expected_at_start :: "exn \<Rightarrow> bool" where
  "expected_at_start (ValueError _) \<longleftrightarrow> True"
| "expected_at_start (KafkaException _) \<longleftrightarrow> True"
| "expected_at_start (DBAPIError _) \<longleftrightarrow> True"
| "expected_at_start _ \<longleftrightarrow> False"

definition publisher_body :: "env_reader \<Rightarrow> (json_dict \<Rightarrow> exn + unit) \<Rightarrow> (json_dict \<Rightarrow> exn + unit) \<Rightarrow> (int \<Rightarrow> nat act) \<Rightarrow> nat act" where
  "publisher_body env engine producer loop =
     (case read_publisher_settings env of
        Inl e \<Rightarrow> (Inl e, [])
      | Inr s \<Rightarrow>
          (case bind_res (connect_args None None) engine of
             Inl e \<Rightarrow> (Inl e, [])
           | Inr _ \<Rightarrow>
               holding DatabaseEngine
                 (case producer (producer_config (kp_bootstrap_servers (ps_kafka s)) (ps_delivery_timeout_seconds s)
                      (Some (kp_security (ps_kafka s)))) of
                    Inl e \<Rightarrow> (Inl e, [])
                  | Inr _ \<Rightarrow> holding KafkaProducer (holding SignalHandlers (loop (ps_batch_size s))))))"

definition publisher_main :: "env_reader \<Rightarrow> (json_dict \<Rightarrow> exn + unit) \<Rightarrow> (json_dict \<Rightarrow> exn + unit) \<Rightarrow> (int \<Rightarrow> nat act) \<Rightarrow> nat act" where
  "publisher_main env engine producer loop =
     (case publisher_body env engine producer loop of
        (Inl e, log) \<Rightarrow> ((if expected_at_start e then Inr 1 else Inl e), log)
      | (Inr c, log) \<Rightarrow> (Inr c, log))"

lemma publisher_body_settled:
  assumes "\<And>n. settled_log (snd (loop n))"
  shows "settled_log (snd (publisher_body env engine producer loop))"
  unfolding publisher_body_def using assms
  by (auto intro!: settled_holding split: sum.split)

lemma publisher_main_ok:
  assumes "publisher_main env engine producer loop = (res, log)" and "\<And>n. settled_log (snd (loop n))"
  shows "settled_log log" and "\<And>e. res = Inl e \<Longrightarrow> \<not> expected_at_start e"
proof -
  obtain r l where b: "publisher_body env engine producer loop = (r, l)" by fastforce
  from publisher_body_settled [of loop env engine producer] assms(2) b have "settled_log l" by simp
  with assms(1) b show "settled_log log" by (auto simp: publisher_main_def split: sum.splits)
  show "\<not> expected_at_start e" if "res = Inl e" for e
    using assms(1) that b by (auto simp: publisher_main_def split: sum.splits if_splits)
qed

section \<open>Running migrations\<close>

text \<open>
  \<open>run_migrations_online\<close>: one engine for the run, one connection, and one transaction around all
  operations; the operations are those of the plan.
\<close>

text \<open>A statement the database refuses.\<close>

definition undefined_error :: exn where
  "undefined_error = DBAPIError \<lparr>e_kind = OtherDBAPIError, e_sqlstate = None, e_constraint = None, e_invalidated = False\<rparr>"

definition run_migrations_online :: "exn + unit \<Rightarrow> ddl list \<Rightarrow> schema \<Rightarrow> unit act \<times> schema" where
  "run_migrations_online connect ops s =
     (case connect of
        Inl e \<Rightarrow> (holding DatabaseEngine (Inl e, []), s)
      | Inr _ \<Rightarrow>
          (case migrate ops s of
             None \<Rightarrow> (holding DatabaseEngine (holding MigrationConnection (Inl (undefined_error), [])), s)
           | Some s' \<Rightarrow> (holding DatabaseEngine (holding MigrationConnection (Inr (), [])), s')))"

lemma run_migrations_online_ok:
  assumes "run_migrations_online connect ops s = ((res, log), s')"
  shows "settled_log log" and "\<And>e. res = Inl e \<Longrightarrow> s' = s" and "res = Inr () \<Longrightarrow> migrate ops s = Some s'"
  using assms by (auto simp: run_migrations_online_def holding_def settled_log_def split: sum.splits option.splits)

end
