(* ===== verification/Application.thy ===== *)
theory Application
  imports Lifecycle Access Notifications
begin

text \<open>
  The API process as it is put together (\<open>main.py\<close>, \<open>api/router.py\<close>, \<open>api/dependencies/\<close>,
  \<open>api/schemas/runs.py\<close>): the application built from its settings, which endpoint a request
  reaches, the session of a request, the shape in which a run is sent, the response that ends a
  stream, the notification listener with its reconnects, and the lifespan around them.
\<close>

section \<open>Routes\<close>

datatype segment = Fixed string | Param string

record route =
  rt_method :: string
  rt_path :: "segment list"
  rt_endpoint :: string

definition route_of :: "string \<Rightarrow> segment list \<Rightarrow> string \<Rightarrow> route" where
  "route_of verb path endpoint = \<lparr>rt_method = verb, rt_path = path, rt_endpoint = endpoint\<rparr>"

definition users_router :: "route list" where
  "users_router = [route_of ''GET'' [Fixed ''users''] ''list_users'', route_of ''GET'' [Fixed ''users'', Fixed ''me''] ''read_current_user'']"

definition run_events_router :: "route list" where
  "run_events_router = [route_of ''GET'' [Fixed ''runs'', Fixed ''events''] ''run_events'']"

definition runs_router :: "route list" where
  "runs_router = [route_of ''POST'' [Fixed ''runs''] ''submit_run'', route_of ''GET'' [Fixed ''runs''] ''list_runs'',
     route_of ''GET'' [Fixed ''runs'', Param ''run_id''] ''get_run'']"

definition api_router :: "route list" where
  "api_router = [route_of ''GET'' [Fixed ''health''] ''health''] @ [route_of ''GET'' [Fixed ''ready''] ''readiness''] @ users_router
     @ [route_of ''GET'' [Fixed ''models''] ''models''] @ run_events_router @ runs_router"

text \<open>
  A parameter takes one segment that is not empty. The first route that fits path and method
  answers; a path that fits only under another method is a 405.
\<close>

fun match_path :: "segment list \<Rightarrow> string list \<Rightarrow> (string \<times> string) list option" where
  "match_path [] [] = Some []"
| "match_path (Fixed f # ps) (s # ss) = (if s = f then match_path ps ss else None)"
| "match_path (Param p # ps) (s # ss) =
     (if s = [] then None else case match_path ps ss of None \<Rightarrow> None | Some args \<Rightarrow> Some ((p, s) # args))"
| "match_path _ _ = None"

datatype dispatched = Endpoint string "(string \<times> string) list" | MethodNotAllowed | NoSuchPath

fun dispatch :: "route list \<Rightarrow> string \<Rightarrow> string list \<Rightarrow> dispatched" where
  "dispatch [] verb path = NoSuchPath"
| "dispatch (r # rs) verb path =
     (case match_path (rt_path r) path of
        None \<Rightarrow> dispatch rs verb path
      | Some args \<Rightarrow>
          if rt_method r = verb then Endpoint (rt_endpoint r) args
          else (case dispatch rs verb path of NoSuchPath \<Rightarrow> MethodNotAllowed | found \<Rightarrow> found))"

text \<open>The stream is not taken for a run called \<open>events\<close>, and no route hides another.\<close>

lemma dispatch_events: "dispatch api_router ''GET'' [''runs'', ''events''] = Endpoint ''run_events'' []"
  by code_simp

lemma dispatch_run: "x \<noteq> [] \<Longrightarrow> x \<noteq> ''events'' \<Longrightarrow>
    dispatch api_router ''GET'' [''runs'', x] = Endpoint ''get_run'' [(''run_id'', x)]"
  by (simp add: api_router_def users_router_def run_events_router_def runs_router_def route_of_def)

definition example_path :: "segment list \<Rightarrow> string list" where
  "example_path path = map (\<lambda>s. case s of Fixed f \<Rightarrow> f | Param _ \<Rightarrow> ''x'') path"

lemma routes_reached: "list_all (\<lambda>r. case dispatch api_router (rt_method r) (example_path (rt_path r)) of
    Endpoint e _ \<Rightarrow> e = rt_endpoint r | _ \<Rightarrow> False) api_router"
  by code_simp

section \<open>The application\<close>

record 'v app_state =
  ap_settings :: api_settings
  ap_title :: string
  ap_feed :: run_feed
  ap_validator :: "oidc_settings + 'v"
  ap_routes :: "route list"

text \<open>Settings and the token validator may be given; otherwise they come from the environment.\<close>

definition create_app :: "env_reader \<Rightarrow> api_settings option \<Rightarrow> 'v option \<Rightarrow> exn + 'v app_state" where
  "create_app env given validator =
     bind_res (case given of Some s \<Rightarrow> Inr s | None \<Rightarrow> read_settings env) (\<lambda>s.
     Inr \<lparr>ap_settings = s, ap_title = as_app_name s,
       ap_feed = make_feed (as_sse_max_streams_per_user s) (as_sse_max_streams s) (as_sse_pending_runs s),
       ap_validator = (case validator of None \<Rightarrow> Inl (as_oidc s) | Some v \<Rightarrow> Inr v), ap_routes = api_router\<rparr>)"

text \<open>\<open>get_submit_run\<close> builds the use case of a request, with the limits of the settings.\<close>

definition get_submit_run :: "'v app_state \<Rightarrow> exn + run_admission_limits" where
  "get_submit_run app = make_limits (as_run_max_active_per_user (ap_settings app)) (as_run_max_active_global (ap_settings app))"

definition submit_endpoint :: "'v app_state \<Rightarrow> stamp \<Rightarrow> uuid \<Rightarrow> submit_run_request \<Rightarrow> current_user \<Rightarrow> db
    \<Rightarrow> (exn + submitted_run_response) \<times> db" where
  "submit_endpoint app st i body user d =
     (case get_submit_run app of Inl e \<Rightarrow> (Inl e, d) | Inr l \<Rightarrow> post_run l st i body user d)"

lemma create_app_Inr:
  assumes "create_app env None validator = Inr app"
  shows "feed_ok (ap_feed app)" and "\<exists>l. get_submit_run app = Inr l" and "0 < fd_per_user (ap_feed app)"
    and "0 < fd_total (ap_feed app)" and "0 < fd_pending_limit (ap_feed app)" and "ap_routes app = api_router"
    and "read_settings env = Inr (ap_settings app)"
proof -
  from assms obtain s where s: "read_settings env = Inr s" "ap_settings app = s" "ap_routes app = api_router"
    "ap_feed app = make_feed (as_sse_max_streams_per_user s) (as_sse_max_streams s) (as_sse_pending_runs s)"
    by (auto simp: create_app_def)
  with read_settings_Inr(1-4) [OF s(1)]
  show "\<exists>l. get_submit_run app = Inr l" and "0 < fd_per_user (ap_feed app)"
    and "0 < fd_total (ap_feed app)" and "0 < fd_pending_limit (ap_feed app)" and "ap_routes app = api_router"
    and "read_settings env = Inr (ap_settings app)"
    by (simp_all add: get_submit_run_def make_feed_def)
  show "feed_ok (ap_feed app)" unfolding s(4) by (rule feed_ok_make)
qed

lemma submit_endpoint_bounded:
  assumes "create_app env None validator = Inr app" and "submit_endpoint app st i body user d = (Inr r, d')"
  shows "int (owned_active_count (Some (cu_id user)) d') \<le> as_run_max_active_per_user (ap_settings app)"
    and "int (active_count d') \<le> as_run_max_active_global (ap_settings app)"
proof -
  from create_app_Inr(2) [OF assms(1)] obtain l where l: "get_submit_run app = Inr l" ..
  with assms(2) obtain q where "submit (Some l) st i (sq_model_release_id body) (sq_parameters body) (Some (cu_id user)) d = (Inr q, d')"
    by (auto simp: submit_endpoint_def post_run_def split: prod.splits sum.splits)
  from submit_within_limits [OF this] l show
    "int (owned_active_count (Some (cu_id user)) d') \<le> as_run_max_active_per_user (ap_settings app)"
    "int (active_count d') \<le> as_run_max_active_global (ap_settings app)"
    by (auto simp: get_submit_run_def make_limits_def split: if_splits)
qed

section \<open>Sessions\<close>

definition no_database :: exn where
  "no_database = HTTPException 503 ''Database access is unavailable.''"

fun database_answer :: "exn \<Rightarrow> exn" where
  "database_answer (DBAPIError _) = no_database"
| "database_answer e = e"

text \<open>A session that cannot be opened is a 503; an opened one is closed after the request.\<close>

definition get_session :: "exn + unit \<Rightarrow> 'a act \<Rightarrow> 'a act" where
  "get_session opened body =
     (case opened of Inl e \<Rightarrow> (Inl (database_answer e), []) | Inr _ \<Rightarrow> holding DatabaseSession body)"

text \<open>The user of a stream is resolved in a session of its own, closed before the stream starts.\<close>

definition resolve_in_new_session :: "exn + unit \<Rightarrow> meeting \<Rightarrow> validated_identity \<Rightarrow> db \<Rightarrow> current_user act \<times> db" where
  "resolve_in_new_session opened mt i d =
     (case opened of
        Inl e \<Rightarrow> ((Inl (database_answer e), []), d)
      | Inr _ \<Rightarrow>
          (case resolve_request_user mt i d of
             (res, d') \<Rightarrow> (holding DatabaseSession (map_sum database_answer id res, []), d')))"

lemma get_session_ok:
  assumes "get_session opened body = (res, log)" and "settled_log (snd body)"
  shows "settled_log log" and "opened = Inl (DBAPIError x) \<Longrightarrow> res = Inl no_database"
  using assms by (auto simp: get_session_def holding_def split: sum.splits)

lemma resolve_in_new_session_ok:
  assumes "resolve_in_new_session opened mt i d = ((res, log), d')"
  shows "settled_log log" and "res \<noteq> Inl (DBAPIError x)"
proof -
  have "database_answer e \<noteq> DBAPIError x" for e by (cases e) (simp_all add: no_database_def)
  with assms show "settled_log log" and "res \<noteq> Inl (DBAPIError x)"
    by (auto simp: resolve_in_new_session_def holding_def settled_log_def split: sum.splits prod.splits)
      (metis Inl_inject old.sum.exhaust map_sum.simps(1) map_sum.simps(2) sum.distinct(1))
qed

section \<open>The shape of a run\<close>

text \<open>
  \<open>RunDetailResponse\<close> as it is dumped, a run with its files; \<open>time\<close> is the text pydantic gives an
  instant.
\<close>

definition optional_json :: "('a \<Rightarrow> json) \<Rightarrow> 'a option \<Rightarrow> json" where
  "optional_json f x = (case x of None \<Rightarrow> JNull | Some v \<Rightarrow> f v)"

definition file_json :: "run_file \<Rightarrow> json" where
  "file_json f = JObj [(''name'', JStr (rf_name f)), (''size_bytes'', JInt (rf_size_bytes f))]"

definition summary_fields :: "(timestamp \<Rightarrow> string) \<Rightarrow> 'a run_summary_scheme \<Rightarrow> json_dict" where
  "summary_fields time r =
     [(''id'', JStr (uuid_str (rn_id r))), (''model_release_id'', JStr (uuid_str (rn_model_release_id r))),
      (''requested_by'', optional_json (JStr \<circ> uuid_str) (rn_requested_by r)), (''parameters'', rn_parameters r),
      (''status'', JStr (status_str (rn_status r))), (''created_at'', JStr (time (rn_created_at r))),
      (''accepted_at'', optional_json (JStr \<circ> time) (rn_accepted_at r)),
      (''dispatch_started_at'', optional_json (JStr \<circ> time) (rn_dispatch_started_at r)),
      (''finished_at'', optional_json (JStr \<circ> time) (rn_finished_at r)),
      (''failure_code'', optional_json JStr (rn_failure_code r))]"

definition summary_json :: "(timestamp \<Rightarrow> string) \<Rightarrow> run_summary \<Rightarrow> json" where
  "summary_json time r = JObj (summary_fields time r)"

definition detail_json :: "(timestamp \<Rightarrow> string) \<Rightarrow> run_detail \<Rightarrow> json" where
  "detail_json time r = JObj (summary_fields time r @ [(''artifacts'', JList (map file_json (rn_artifacts r)))])"

definition list_json :: "(timestamp \<Rightarrow> string) \<Rightarrow> run_summary list \<times> int \<times> int \<Rightarrow> json" where
  "list_json time page = (case page of (runs, limit, offset) \<Rightarrow>
     JObj [(''items'', JList (map (summary_json time) runs)), (''limit'', JInt limit), (''offset'', JInt offset)])"

lemma optional_json_eq:
  assumes "\<And>v w. f v = f w \<Longrightarrow> v = w" and "\<And>v. f v \<noteq> JNull"
  shows "optional_json f x = optional_json f y \<longleftrightarrow> x = y"
  using assms by (cases x; cases y) (auto simp: optional_json_def dest: assms(2) [THEN notE, OF sym])

lemma status_str_eq [simp]: "status_str a = status_str b \<longleftrightarrow> a = b"
  by (cases a; cases b) simp_all

lemma file_json_eq: "file_json f = file_json g \<longleftrightarrow> f = g"
  by (cases f; cases g) (simp add: file_json_def)

text \<open>What is sent determines the run it was made from.\<close>

lemma detail_json_eq:
  assumes "inj time"
  shows "detail_json time a = detail_json time b \<longleftrightarrow> a = b"
proof
  assume eq: "detail_json time a = detail_json time b"
  have time: "time v = time w \<longleftrightarrow> v = w" for v w using assms by (auto simp: inj_def)
  have opts: "optional_json (JStr \<circ> uuid_str) u = optional_json (JStr \<circ> uuid_str) u' \<longleftrightarrow> u = u'"
    "optional_json (JStr \<circ> time) t = optional_json (JStr \<circ> time) t' \<longleftrightarrow> t = t'"
    "optional_json JStr s = optional_json JStr s' \<longleftrightarrow> s = s'" for u u' t t' s s'
    by (rule optional_json_eq; simp add: time)+
  have files: "map file_json xs = map file_json ys \<longleftrightarrow> xs = ys" for xs ys
    by (rule inj_map_eq_map) (simp add: inj_def file_json_eq)
  from eq show "a = b" by (cases a; cases b) (simp add: detail_json_def summary_fields_def time opts files)
qed simp

section \<open>The end of a stream\<close>

text \<open>
  \<open>RunEventResponse\<close> sends until the client is gone, the sending fails or the stream ends; the
  subscription is given up in every case.
\<close>

datatype sending = Sent | ClientGone | SendFails exn

definition send_stream :: "nat \<Rightarrow> sending \<Rightarrow> run_feed \<Rightarrow> (exn + unit) \<times> run_feed" where
  "send_stream t outcome f = ((case outcome of SendFails e \<Rightarrow> Inl e | _ \<Rightarrow> Inr ()), unsubscribe t f)"

text \<open>Opening and sending together; \<open>meanwhile\<close> is what happens to the feed while it sends.\<close>

definition serve_stream ::
  "int \<Rightarrow> validated_identity \<Rightarrow> meeting \<Rightarrow> nat \<Rightarrow> (uuid \<Rightarrow> db \<Rightarrow> exn + run_detail list) \<Rightarrow> (run_feed \<Rightarrow> run_feed)
   \<Rightarrow> (run_feed \<Rightarrow> run_feed) \<Rightarrow> sending \<Rightarrow> db \<times> run_feed \<Rightarrow> (exn + unit) \<times> db \<times> run_feed" where
  "serve_stream now identity mt t read later meanwhile outcome s =
     (case open_stream now identity mt t read later s of
        (Inl e, d, f) \<Rightarrow> (Inl e, d, f)
      | (Inr _, d, f) \<Rightarrow> (case send_stream t outcome (meanwhile f) of (res, f') \<Rightarrow> (res, d, f')))"

lemma unsubscribed: "t \<notin> sub_id ` set (fd_subscriptions (unsubscribe t f))"
  by (auto simp: unsubscribe_def)

lemma serve_stream_releases:
  assumes "serve_stream now identity mt t read later meanwhile outcome (d, f) = (res, d', f')"
    and "t \<notin> sub_id ` set (fd_subscriptions f)"
  shows "t \<notin> sub_id ` set (fd_subscriptions f')"
  using assms unsubscribed
  by (auto simp: serve_stream_def open_stream_def send_stream_def Let_def
      split: if_splits sum.splits prod.splits exn.splits option.splits)

section \<open>The listener\<close>

text \<open>
  An attempt fails before it listens, or finds so many of the triggers and then reads batches of
  payloads until it fails or the process stops. \<open>lookup\<close> reads a run.
\<close>

datatype attempt = ConnectFails | Connected nat "string list list" bool

fun listen :: "(uuid \<Rightarrow> exn + run_detail option) \<Rightarrow> string list list \<Rightarrow> run_feed \<Rightarrow> run_feed" where
  "listen lookup [] f = f"
| "listen lookup (b # bs) f =
     (let changes = collect_changes b in listen lookup bs (if changes = [] then f else publish lookup changes f))"

text \<open>The waits between attempts in seconds, and the feed at the end of the list, when the process stops.\<close>

fun listener_run :: "(uuid \<Rightarrow> exn + run_detail option) \<Rightarrow> attempt list \<Rightarrow> nat \<Rightarrow> run_feed \<Rightarrow> nat list \<times> run_feed" where
  "listener_run lookup [] delay f = ([], feed_down f)"
| "listener_run lookup (a # as) delay f =
     (let retry = (\<lambda>delay f. case listener_run lookup as (min (delay * 2) 30) (feed_down f) of (ws, f') \<Rightarrow> (delay # ws, f'))
      in case a of
        ConnectFails \<Rightarrow> retry delay f
      | Connected installed batches failed \<Rightarrow>
          if installed \<noteq> 2 then retry delay f
          else (let f1 = listen lookup batches (feed_up f) in if failed then retry 1 f1 else ([], feed_down f1)))"

lemma feed_down_unavailable: "\<not> fd_available (feed_down f)"
  by (simp add: feed_down_def map_subs_def)

lemma listener_run_waits:
  assumes "listener_run lookup as delay f = (ws, f')" and "1 \<le> delay" and "delay \<le> 30"
  shows "(\<forall>w \<in> set ws. 1 \<le> w \<and> w \<le> 30) \<and> \<not> fd_available f'"
  using assms
proof (induction as arbitrary: delay f ws f')
  case Nil
  then show ?case by (auto simp: feed_down_unavailable)
next
  case (Cons a as)
  let ?again = "\<lambda>d g. listener_run lookup as (min (d * 2) 30) (feed_down g)"
  have retry: ?case if "ws = d # fst (?again d g)" and "f' = snd (?again d g)" and "1 \<le> d" and "d \<le> 30" for d g
    using Cons.IH [of "min (d * 2) 30" "feed_down g" "fst (?again d g)" "snd (?again d g)"] that by simp
  show ?case
  proof (cases a)
    case ConnectFails
    with Cons.prems(1) have "ws = delay # fst (?again delay f)" "f' = snd (?again delay f)"
      by (simp_all add: case_prod_beta)
    with retry Cons.prems(2,3) show ?thesis by blast
  next
    case (Connected installed batches failed)
    let ?f1 = "listen lookup batches (feed_up f)"
    consider "installed \<noteq> 2" | "installed = 2" "failed" | "installed = 2" "\<not> failed" by blast
    then show ?thesis
    proof cases
      case 1
      with Connected Cons.prems(1) have "ws = delay # fst (?again delay f)" "f' = snd (?again delay f)"
        by (simp_all add: case_prod_beta)
      with retry Cons.prems(2,3) show ?thesis by blast
    next
      case 2
      with Connected Cons.prems(1) have "ws = 1 # fst (?again 1 ?f1)" "f' = snd (?again 1 ?f1)"
        by (simp_all add: case_prod_beta Let_def)
      from retry [OF this] show ?thesis by simp
    next
      case 3
      with Connected Cons.prems(1) have "ws = []" "f' = feed_down ?f1" by (simp_all add: Let_def)
      then show ?thesis by (simp add: feed_down_unavailable)
    qed
  qed
qed

lemma listener_fails:
  "fst (listener_run lookup (ConnectFails # as) d f) = d # fst (listener_run lookup as (min (d * 2) 30) (feed_down f))"
  by (simp add: case_prod_beta)

text \<open>While the database stays away the waits double up to half a minute.\<close>

lemma listener_backoff:
  "fst (listener_run lookup [ConnectFails, ConnectFails, ConnectFails, ConnectFails, ConnectFails, ConnectFails, ConnectFails] 1 f)
    = [1, 2, 4, 8, 16, 30, 30]"
  by (simp add: listener_fails del: listener_run.simps(2))

section \<open>The lifespan\<close>

text \<open>
  \<open>create_app\<close> makes the engine and the pool for snapshots; the lifespan starts the listener, serves,
  and stops all three.
\<close>

definition api_lifespan :: "exn + unit \<Rightarrow> 'a act \<Rightarrow> 'a act" where
  "api_lifespan listener_starts served =
     (case listener_starts of
        Inl e \<Rightarrow> (Inl e, [Opened DatabaseEngine, Opened SnapshotPool])
      | Inr _ \<Rightarrow> holding DatabaseEngine (holding SnapshotPool (holding Listener served)))"

lemma api_lifespan_settled: "settled_log (snd served) \<Longrightarrow> settled_log (snd (api_lifespan (Inr ()) served))"
  by (simp add: api_lifespan_def)

end
