(* ===== verification/Commands.thy ===== *)
theory Commands
  imports Operators Delivery Application
begin

text \<open>
  The \<open>main\<close> functions of \<open>src/scripts/release_record.py\<close>, \<open>execution_delivery.py\<close> and
  \<open>deployment_check.py\<close> over the operations of \<open>Release\<close>, \<open>Delivery\<close> and \<open>Operators\<close>. What
  they use of files, the GitHub command and clients is an argument; parsed arguments choose the
  operation.
\<close>

section \<open>The release tool\<close>

datatype release_operation = Discover | Preflight | Publish | Validate

text \<open>
  \<open>append_text\<close> adds a text to the file of a path, \<open>write_record\<close> is \<open>write_text\<close> of the
  record as indented JSON with a newline.
\<close>

record 'w release_files =
  gh_release :: "string \<Rightarrow> string \<Rightarrow> 'w \<Rightarrow> (string + json) \<times> 'w"
  gh_download :: "string \<Rightarrow> string \<Rightarrow> 'w \<Rightarrow> (string + unit) \<times> 'w"
  record_present :: "'w \<Rightarrow> bool"
  record_is_file :: "'w \<Rightarrow> bool"
  record_text :: "'w \<Rightarrow> exn + string"
  write_record :: "json \<Rightarrow> 'w \<Rightarrow> 'w"
  append_text :: "string \<Rightarrow> string \<Rightarrow> 'w \<Rightarrow> 'w"

definition lower_bool :: "bool \<Rightarrow> string" where
  "lower_bool b = (if b then ''true'' else ''false'')"

definition line :: "string \<Rightarrow> string" where
  "line s = s @ [CHR 0x0A]"

definition append_to :: "'w release_files \<Rightarrow> environ \<Rightarrow> string \<Rightarrow> exn + string \<Rightarrow> 'w \<Rightarrow> unit script \<times> 'w" where
  "append_to files env name produced =
     bind_world (pure_world (environ_get env name)) (\<lambda>path.
     bind_world (pure_world produced) (\<lambda>txt w. (Inr (), append_text files path txt w)))"

text \<open>The reference of a role, or the empty text when the record has no such image.\<close>

definition image_ref_of :: "json_dict \<Rightarrow> string \<Rightarrow> exn + string" where
  "image_ref_of images role =
     (case map_of images role of
        None \<Rightarrow> Inr []
      | Some img \<Rightarrow> bind_res (py_get img ''image_ref'' (JStr [])) str_value)"

definition output_lines :: "json_dict \<Rightarrow> exn + string" where
  "output_lines images =
     (case map_of images ''api'' of
        None \<Rightarrow> Inl (KeyError ''api'')
      | Some api \<Rightarrow>
          bind_res (bind_res (py_getitem api ''image_ref'') str_value) (\<lambda>ref.
          bind_res (image_ref_of images ''publisher'') (\<lambda>publisher.
          bind_res (image_ref_of images ''worker'') (\<lambda>worker.
          Inr (line (''image_ref='' @ ref)
             @ line (''execution_available='' @ lower_bool (map_of images ''worker'' \<noteq> None))
             @ line (''publisher_image_ref='' @ publisher) @ line (''worker_image_ref='' @ worker))))))"

definition summary_line :: "string \<times> json \<Rightarrow> exn + string" where
  "summary_line = (\<lambda>(role, img).
     bind_res (bind_res (py_getitem img ''image_ref'') str_value) (\<lambda>ref.
     Inr (line (line (role @ '': `'' @ ref @ ''`'')))))"

definition summary_text :: "string \<Rightarrow> json_dict \<Rightarrow> exn + string" where
  "summary_text tag images =
     bind_res (map_res summary_line images) (\<lambda>rows.
     Inr (line (line (''Release: `'' @ tag @ ''`'')) @ concat rows
        @ (if map_of images ''worker'' = None then line ''Legacy record: execution not deployed or verified.'' else [])))"

definition release_step :: "'w docker \<Rightarrow> 'w release_files \<Rightarrow> environ \<Rightarrow> release_operation \<Rightarrow> string \<Rightarrow> string \<Rightarrow> 'w
    \<Rightarrow> unit script \<times> 'w" where
  "release_step docker files env op tag commit =
     (case op of
        Discover \<Rightarrow>
          bind_world (pure_world (environ_get env ''GITHUB_REPOSITORY'')) (\<lambda>repository.
          bind_world (discover_release (gh_release files repository tag) (gh_download files repository tag) (record_is_file files))
            (\<lambda>required. append_to files env ''GITHUB_OUTPUT'' (Inr (line (''build_required='' @ lower_bool required)))))
      | Preflight \<Rightarrow> bind_world (each_world (check_absent docker tag) repositories) (\<lambda>_ w. (Inr (), w))
      | Publish \<Rightarrow> (\<lambda>w.
          if record_present files w then (Inl (Script (ValueError ''Refusing to replace a release record'')), w)
          else bind_world (publish_release docker tag commit) (\<lambda>record w. (Inr (), write_record files record w)) w)
      | Validate \<Rightarrow>
          bind_world (\<lambda>w. pure_world (bind_res (record_text files w) json_of_text) w) (\<lambda>record.
          bind_world (pure_world (validate_record record tag commit)) (\<lambda>images.
          bind_world (each_world (verify_image docker) images) (\<lambda>_.
          bind_world (append_to files env ''GITHUB_OUTPUT'' (output_lines images)) (\<lambda>_.
          append_to files env ''GITHUB_STEP_SUMMARY'' (summary_text tag images))))))"

definition release_main :: "'w docker \<Rightarrow> 'w release_files \<Rightarrow> environ \<Rightarrow> release_operation \<Rightarrow> 'w \<Rightarrow> unit script \<times> 'w" where
  "release_main docker files env op =
     bind_world (pure_world (environ_get env ''RELEASE_TAG'')) (\<lambda>tag.
     bind_world (pure_world (environ_get env ''COMMIT'')) (\<lambda>commit.
     bind_world (pure_world (validate_identity tag commit)) (\<lambda>_. release_step docker files env op tag commit)))"

text \<open>A record that its validation accepts has every line: the outputs and the summary cannot fail.\<close>

lemma check_image_ref:
  assumes "check_image tag (role, img) = Inr u"
  shows "\<exists>ref. py_getitem img ''image_ref'' = Inr (JStr ref) \<and> py_get img ''image_ref'' (JStr []) = Inr (JStr ref)"
  using assms by (auto simp: check_image_def require_def split: option.splits json.splits if_splits)

lemma validated_images:
  assumes "validate_record record tag commit = Inr images"
  shows "for_each (check_image tag) images = Inr ()" and "''api'' \<in> fst ` set images"
  using assms by (auto simp: validate_record_def record_images_def repositories_def bind_res_Inr_iff
      split: json.splits option.splits if_splits)

lemma validated_output:
  assumes "validate_record record tag commit = Inr images"
  shows "(\<exists>out. output_lines images = Inr out) \<and> (\<exists>summary. summary_text tag images = Inr summary)"
proof -
  have ref: "\<exists>ref. py_getitem img ''image_ref'' = Inr (JStr ref) \<and> py_get img ''image_ref'' (JStr []) = Inr (JStr ref)"
    if "(role, img) \<in> set images" for role img
    using validated_images(1) [OF assms] that check_image_ref by (auto simp: for_each_Inr_iff)
  have optional: "\<exists>r. image_ref_of images role = Inr r" for role
    using ref by (fastforce simp: image_ref_of_def dest: map_of_SomeD split: option.splits)
  from validated_images(2) [OF assms] obtain api where api: "map_of images ''api'' = Some api"
    by (metis image_iff map_of_eq_None_iff not_None_eq)
  from optional [of "''publisher''"] optional [of "''worker''"] ref [OF map_of_SomeD [OF api]] api
  have "\<exists>out. output_lines images = Inr out" by (auto simp: output_lines_def)
  moreover have "\<exists>row. summary_line x = Inr row" if "x \<in> set images" for x
    using ref that by (cases x) (fastforce simp: summary_line_def)
  then have "\<exists>rows. map_res summary_line images = Inr rows" by (meson map_res_map)
  then have "\<exists>summary. summary_text tag images = Inr summary" by (auto simp: summary_text_def)
  ultimately show ?thesis ..
qed

text \<open>An existing record is never replaced and nothing is pushed for it; a written one validates.\<close>

lemma release_keeps_record:
  assumes "record_present files w" and "release_main docker files env Publish w = (res, w')"
  shows "w' = w \<and> (\<exists>e. res = Inl e)"
  using assms by (auto simp: release_main_def release_step_def bind_world_def pure_world_def map_sum_def
      split: sum.splits prod.splits)

lemma release_writes_valid:
  assumes "release_main docker files env Publish w = (Inr u, w')"
  shows "\<exists>tag commit record images w1. env ''RELEASE_TAG'' = Some tag \<and> env ''COMMIT'' = Some commit
    \<and> w' = write_record files record w1 \<and> validate_record record tag commit = Inr images
    \<and> (\<exists>out. output_lines images = Inr out)"
proof -
  from assms obtain tag commit rcd w1 where env: "env ''RELEASE_TAG'' = Some tag" "env ''COMMIT'' = Some commit"
    and p: "publish_release docker tag commit w = (Inr rcd, w1)" and w': "w' = write_record files rcd w1"
    by (auto simp: release_main_def release_step_def world_Inr environ_get_def split: option.splits if_splits)
  from publish_release_Inr [OF p] obtain images where v: "validate_record rcd tag commit = Inr images" by blast
  from env w' v validated_output [OF v] show ?thesis by blast
qed

section \<open>The delivery tool\<close>

datatype delivery_operation = RenderDelivery | PreflightDelivery | VerifyDelivery

text \<open>The arguments that \<open>render\<close> and \<open>preflight\<close> read from files are those of \<open>Delivery\<close>.\<close>

record delivery_files =
  df_root :: string
  df_source :: string
  df_chart :: json
  df_okd :: json
  df_documents :: "json list"

definition delivery_main :: "'w runner \<Rightarrow> (string \<Rightarrow> written \<Rightarrow> 'w \<Rightarrow> 'w) \<Rightarrow> (json \<Rightarrow> exn + string) \<Rightarrow> delivery_files \<Rightarrow> environ
    \<Rightarrow> string \<Rightarrow> delivery_operation \<Rightarrow> 'w \<Rightarrow> unit script \<times> 'w" where
  "delivery_main run write network files env directory op =
     (case op of
        RenderDelivery \<Rightarrow> render_delivery run write network (df_root files) (df_source files) (df_chart files) (df_okd files) env directory
      | PreflightDelivery \<Rightarrow> preflight run env (df_documents files) directory
      | VerifyDelivery \<Rightarrow> bind_world (verify_rollout run env) (\<lambda>_. pure_world (Inr ())))"

text \<open>Only rendering writes; the other operations keep what reading commands keep.\<close>

lemma delivery_main_reads:
  assumes "reading I run" and "op \<noteq> RenderDelivery"
  shows "keeps I (delivery_main run write network files env directory op)"
  using assms by (cases op) (auto simp: delivery_main_def intro: preflight_reads verify_reads keeps_bind keeps_pure)

section \<open>The deployment check\<close>

text \<open>
  The clients of \<open>deployment_check.main\<close>: the engine with its timeouts, the object store and one
  session, each given up in reverse; creating one may raise.
\<close>

definition check_clients :: "environ \<Rightarrow> env_reader \<Rightarrow> (json_dict \<Rightarrow> exn + unit) \<Rightarrow> exn + unit \<Rightarrow> exn + unit \<Rightarrow> unit act" where
  "check_clients env reader engine storage opened =
     (case bind_res (read_database_settings reader) (\<lambda>_. bind_res (connect_args (Some 10000) (Some 3000)) engine) of
        Inl e \<Rightarrow> (Inl e, [])
      | Inr _ \<Rightarrow>
          holding DatabaseEngine
            (case bind_res (map_res (environ_get env) [''ARTIFACT_ENDPOINT'', ''ARTIFACT_ACCESS_KEY'', ''ARTIFACT_SECRET_KEY''])
                 (\<lambda>_. storage) of
               Inl e \<Rightarrow> (Inl e, [])
             | Inr _ \<Rightarrow>
                 holding ObjectStore
                   (case opened of Inl e \<Rightarrow> (Inl e, []) | Inr _ \<Rightarrow> holding DatabaseSession (Inr (), []))))"

text \<open>What happens in the session; \<open>turns\<close> are those of the wait for the submitted run.\<close>

definition check_in_session :: "environ \<Rightarrow> (db \<Rightarrow> db) \<Rightarrow> stamp \<Rightarrow> stamp \<Rightarrow> uuid \<Rightarrow> int \<Rightarrow> (uuid \<Rightarrow> check_turn list) \<Rightarrow> db
    \<Rightarrow> (check_failure + shown_run) option \<times> db" where
  "check_in_session env between st st' new_id start turns d =
     (case environ_get env ''CHECK_MODEL_IMAGE'' of
        Inl e \<Rightarrow> (Some (Inl (Aborted e)), d)
      | Inr model_image \<Rightarrow>
          (case register_and_submit between st st' new_id model_image d of
             (Inl e, d') \<Rightarrow> (Some (Inl (Aborted e)), d')
           | (Inr run_id, d') \<Rightarrow>
               (case environ_get env ''ARTIFACT_BUCKET'' of
                  Inl e \<Rightarrow> (Some (Inl (Aborted e)), d')
                | Inr bucket \<Rightarrow> (wait_for_run bucket (start + 900) (turns run_id), d'))))"

text \<open>The exit code and the log, or \<open>None\<close> while the wait has not ended.\<close>

definition check_main :: "environ \<Rightarrow> env_reader \<Rightarrow> (json_dict \<Rightarrow> exn + unit) \<Rightarrow> exn + unit \<Rightarrow> exn + unit
    \<Rightarrow> (db \<Rightarrow> (check_failure + shown_run) option \<times> db) \<Rightarrow> db \<Rightarrow> (nat \<times> life list) option \<times> db" where
  "check_main env reader engine storage opened body d =
     (case check_clients env reader engine storage opened of
        (Inl e, log) \<Rightarrow> (Some (1, log), d)
      | (Inr _, log) \<Rightarrow>
          (case body d of
             (None, d') \<Rightarrow> (None, d')
           | (Some (Inl _), d') \<Rightarrow> (Some (1, log), d')
           | (Some (Inr _), d') \<Rightarrow> (Some (0, log), d')))"

lemma check_clients_settled: "settled_log (snd (check_clients env reader engine storage opened))"
  unfolding check_clients_def by (auto intro!: settled_holding split: sum.split)

lemma check_main_ok:
  assumes "check_main env reader engine storage opened (check_in_session env between st st' new_id start turns) d = (Some (code, log), d')"
  shows "settled_log log" and "code \<le> 1"
    and "code = 0 \<Longrightarrow> \<exists>run_id bucket t s. t \<in> set (turns run_id) \<and> ct_clock t < start + 900 \<and> env ''ARTIFACT_BUCKET'' = Some bucket
      \<and> ct_shown t = Inr s \<and> verify_result (ct_object t) bucket s = Inr True"
proof -
  obtain r l where c: "check_clients env reader engine storage opened = (r, l)" by fastforce
  with assms check_clients_settled [of env reader engine storage opened] show "settled_log log"
    by (auto simp: check_main_def split: sum.splits option.splits prod.splits)
  show "code \<le> 1" using assms by (auto simp: check_main_def split: sum.splits option.splits prod.splits)
  assume "code = 0"
  with assms c obtain s where "check_in_session env between st st' new_id start turns d = (Some (Inr s), d')"
    by (auto simp: check_main_def split: sum.splits option.splits prod.splits)
  then obtain run_id bucket where "env ''ARTIFACT_BUCKET'' = Some bucket" "wait_for_run bucket (start + 900) (turns run_id) = Some (Inr s)"
    by (auto simp: check_in_session_def environ_get_def split: sum.splits option.splits prod.splits)
  with wait_for_run_Inr show "\<exists>run_id bucket t s. t \<in> set (turns run_id) \<and> ct_clock t < start + 900
      \<and> env ''ARTIFACT_BUCKET'' = Some bucket \<and> ct_shown t = Inr s \<and> verify_result (ct_object t) bucket s = Inr True" by blast
qed

text \<open>It ends as soon as the clock of a turn has reached the deadline.\<close>

lemma check_main_ends:
  assumes "\<And>i. \<exists>t \<in> set (turns i). start + 900 \<le> ct_clock t"
  shows "fst (check_main env reader engine storage opened (check_in_session env between st st' new_id start turns) d) \<noteq> None"
proof -
  have "\<exists>r. wait_for_run bucket (start + 900) (turns i) = Some r" for bucket i
    using assms [of i] wait_for_run_ends by blast
  then have "fst (check_in_session env between st st' new_id start turns d) \<noteq> None"
    by (auto simp: check_in_session_def split: sum.splits prod.splits)
  then show ?thesis by (auto simp: check_main_def split: sum.splits option.splits prod.splits)
qed

section \<open>Answers of the read routes\<close>

definition release_metadata :: "release_summary \<Rightarrow> json" where
  "release_metadata r = JObj [(''id'', JStr (uuid_str (rs_id r))), (''image_digest'', JStr (rs_image_digest r)),
     (''parameters'', rs_parameters r)]"

definition model_metadata :: "model_summary \<Rightarrow> json" where
  "model_metadata m = JObj [(''id'', JStr (ms_id m)), (''display_name'', JStr (ms_display_name m)),
     (''releases'', JList (map release_metadata (ms_releases m)))]"

definition models_route :: "model_release list \<Rightarrow> json" where
  "models_route releases = JList (map model_metadata (list_models releases))"

definition get_run_route :: "(timestamp \<Rightarrow> string) \<Rightarrow> uuid \<Rightarrow> current_user \<Rightarrow> db \<Rightarrow> exn + json" where
  "get_run_route time run_id user d = map_sum id (detail_json time) (get_run find_detail user run_id d)"

text \<open>What a reader is sent determines the stored run.\<close>

lemma get_run_route_exact:
  assumes "inj time" and "get_run_route time i user d = Inr j" and "get_run_route time i' user' d' = Inr j"
  shows "find_detail i d = find_detail i' d'"
  using assms by (auto simp: get_run_route_def get_run_def detail_json_eq split: option.splits if_splits sum.splits)

end
