(* ===== verification/Locks.thy ===== *)
theory Locks
  imports System
begin

text \<open>
  The session-level advisory lock under which a coordinator reconciles a run
  (\<open>SqlAlchemyExecutions.locked\<close>). The server knows who holds a key, what each connection has
  written without committing, and which connections are lost; several coordinators interleave.
\<close>

section \<open>The server\<close>

type_synonym session = nat

text \<open>
  PostgreSQL counts how often a session took a lock; a lost connection loses its locks and its
  open transaction. Pending writes are the function they apply to the committed state.
\<close>

record lock_server =
  ls_db :: db
  ls_held :: "int \<Rightarrow> (session \<times> nat) option"
  ls_pending :: "session \<Rightarrow> (db \<Rightarrow> db) option"
  ls_lost :: "session \<Rightarrow> bool"

definition try_lock :: "session \<Rightarrow> int \<Rightarrow> lock_server \<Rightarrow> bool \<times> lock_server" where
  "try_lock s key v =
     (case ls_held v key of
        None \<Rightarrow> (True, v\<lparr>ls_held := (ls_held v)(key := Some (s, 1))\<rparr>)
      | Some (t, n) \<Rightarrow> if t = s then (True, v\<lparr>ls_held := (ls_held v)(key := Some (s, n + 1))\<rparr>) else (False, v))"

definition unlock :: "session \<Rightarrow> int \<Rightarrow> lock_server \<Rightarrow> lock_server" where
  "unlock s key v =
     (case ls_held v key of
        None \<Rightarrow> v
      | Some (t, n) \<Rightarrow> if t \<noteq> s then v
          else v\<lparr>ls_held := (ls_held v)(key := (if n \<le> 1 then None else Some (s, n - 1)))\<rparr>)"

definition commit_session :: "session \<Rightarrow> lock_server \<Rightarrow> lock_server" where
  "commit_session s v =
     (case ls_pending v s of
        None \<Rightarrow> v
      | Some f \<Rightarrow> v\<lparr>ls_db := f (ls_db v), ls_pending := (ls_pending v)(s := None)\<rparr>)"

definition rollback_session :: "session \<Rightarrow> lock_server \<Rightarrow> lock_server" where
  "rollback_session s v = v\<lparr>ls_pending := (ls_pending v)(s := None)\<rparr>"

definition lose_connection :: "session \<Rightarrow> lock_server \<Rightarrow> lock_server" where
  "lose_connection s v = v\<lparr>ls_held := (\<lambda>k. case ls_held v k of Some (t, n) \<Rightarrow> if t = s then None else Some (t, n) | None \<Rightarrow> None),
     ls_pending := (ls_pending v)(s := None), ls_lost := (ls_lost v)(s := True)\<rparr>"

section \<open>The context manager\<close>

definition enter_locked :: "session \<Rightarrow> uuid \<Rightarrow> lock_server \<Rightarrow> bool \<times> lock_server" where
  "enter_locked s run_id v = (let (acquired, v1) = try_lock s (lock_key run_id) v in (acquired, commit_session s v1))"

text \<open>
  The \<open>finally\<close> block. An invalidated connection is left alone; otherwise the open transaction is
  rolled back first, so that the commit after the unlock has nothing of the body to commit.
\<close>

definition leave_locked :: "session \<Rightarrow> uuid \<Rightarrow> lock_server \<Rightarrow> lock_server" where
  "leave_locked s run_id v =
     (if ls_lost v s then v else commit_session s (unlock s (lock_key run_id) (rollback_session s v)))"

text \<open>The body is given a record (\<open>True\<close>) or \<open>None\<close>; it returns or raises.\<close>

definition locked :: "session \<Rightarrow> uuid \<Rightarrow> (bool \<Rightarrow> lock_server \<Rightarrow> (exn + 'a) \<times> lock_server) \<Rightarrow> lock_server
    \<Rightarrow> (exn + 'a) \<times> lock_server" where
  "locked s run_id body v =
     (case enter_locked s run_id v of
        (False, v1) \<Rightarrow> body False v1
      | (True, v1) \<Rightarrow> (case body True v1 of (res, v2) \<Rightarrow> (res, leave_locked s run_id v2)))"

lemmas lock_defs = try_lock_def unlock_def commit_session_def rollback_session_def lose_connection_def

lemma leave_discards:
  assumes "ls_lost v s = False"
  shows "ls_db (leave_locked s run_id v) = ls_db v" and "ls_pending (leave_locked s run_id v) = (ls_pending v)(s := None)"
  using assms by (auto simp: leave_locked_def lock_defs split: option.splits prod.splits)

text \<open>However the body ends, what it committed stays and what it left open is gone.\<close>

lemma locked_commits:
  assumes "locked s run_id body v = (res, v')" and "enter_locked s run_id v = (True, v1)" and "body True v1 = (r, v2)"
    and "\<not> ls_lost v2 s"
  shows "res = r \<and> ls_db v' = ls_db v2 \<and> ls_pending v' s = None"
  using assms leave_discards [of v2 s run_id] by (auto simp: locked_def)

lemma locked_refused:
  assumes "ls_held v (lock_key run_id) = Some (t, n)" and "t \<noteq> s" and "ls_pending v s = None" and "body False v = (r, v)"
  shows "locked s run_id body v = (r, v)"
  using assms by (simp add: locked_def enter_locked_def lock_defs)

section \<open>Coordinators side by side\<close>

text \<open>
  \<open>co_inside s = Some r\<close>: the coordinator on connection \<open>s\<close> is in the block with a record of run
  \<open>r\<close>. A write extends the open transaction of the connection; everybody else's transactions change
  the committed state at any time. After the block the connection returns to the pool, which
  replaces a lost one.
\<close>

record coordinators =
  co_server :: lock_server
  co_inside :: "session \<Rightarrow> uuid option"

inductive lock_step :: "coordinators \<Rightarrow> coordinators \<Rightarrow> bool" where
  enter_step: "co_inside c s = None \<Longrightarrow> enter_locked s run_id (co_server c) = (True, v) \<Longrightarrow> \<not> ls_lost (co_server c) s \<Longrightarrow>
    lock_step c (c\<lparr>co_server := v, co_inside := (co_inside c)(s := Some run_id)\<rparr>)"
| refused_step: "co_inside c s = None \<Longrightarrow> enter_locked s run_id (co_server c) = (False, v) \<Longrightarrow> \<not> ls_lost (co_server c) s \<Longrightarrow>
    lock_step c (c\<lparr>co_server := v\<rparr>)"
| write_step: "co_inside c s = Some run_id \<Longrightarrow> \<not> ls_lost (co_server c) s \<Longrightarrow>
    lock_step c (c\<lparr>co_server := (co_server c)\<lparr>ls_pending := (ls_pending (co_server c))(s := Some f)\<rparr>\<rparr>)"
| commit_step: "co_inside c s = Some run_id \<Longrightarrow> \<not> ls_lost (co_server c) s \<Longrightarrow>
    lock_step c (c\<lparr>co_server := commit_session s (co_server c)\<rparr>)"
| rollback_step: "co_inside c s = Some run_id \<Longrightarrow> \<not> ls_lost (co_server c) s \<Longrightarrow>
    lock_step c (c\<lparr>co_server := rollback_session s (co_server c)\<rparr>)"
| others_step: "lock_step c (c\<lparr>co_server := (co_server c)\<lparr>ls_db := d\<rparr>\<rparr>)"
| lose_step: "lock_step c (c\<lparr>co_server := lose_connection s (co_server c)\<rparr>)"
| leave_step: "co_inside c s = Some run_id \<Longrightarrow>
    lock_step c (c\<lparr>co_server := (leave_locked s run_id (co_server c))\<lparr>ls_lost := (ls_lost (co_server c))(s := False)\<rparr>,
      co_inside := (co_inside c)(s := None)\<rparr>)"
| reconnect_step: "co_inside c s = None \<Longrightarrow>
    lock_step c (c\<lparr>co_server := (co_server c)\<lparr>ls_lost := (ls_lost (co_server c))(s := False)\<rparr>\<rparr>)"

definition no_coordinator :: "db \<Rightarrow> coordinators" where
  "no_coordinator d = \<lparr>co_server = \<lparr>ls_db = d, ls_held = \<lambda>_. None, ls_pending = \<lambda>_. None, ls_lost = \<lambda>_. False\<rparr>,
     co_inside = \<lambda>_. None\<rparr>"

definition lock_inv :: "coordinators \<Rightarrow> bool" where
  "lock_inv c \<longleftrightarrow>
     (\<forall>s r. co_inside c s = Some r \<longrightarrow> \<not> ls_lost (co_server c) s \<longrightarrow> ls_held (co_server c) (lock_key r) = Some (s, 1))
     \<and> (\<forall>k s n. ls_held (co_server c) k = Some (s, n) \<longrightarrow>
          \<not> ls_lost (co_server c) s \<and> (\<exists>r. co_inside c s = Some r \<and> lock_key r = k))
     \<and> (\<forall>s. ls_pending (co_server c) s \<noteq> None \<longrightarrow> co_inside c s \<noteq> None \<and> \<not> ls_lost (co_server c) s)"

lemma lock_invD:
  assumes "lock_inv c"
  shows "\<And>s r. co_inside c s = Some r \<Longrightarrow> \<not> ls_lost (co_server c) s \<Longrightarrow> ls_held (co_server c) (lock_key r) = Some (s, 1)"
    and "\<And>k s n. ls_held (co_server c) k = Some (s, n) \<Longrightarrow>
      \<not> ls_lost (co_server c) s \<and> (\<exists>r. co_inside c s = Some r \<and> lock_key r = k)"
    and "\<And>s f. ls_pending (co_server c) s = Some f \<Longrightarrow> co_inside c s \<noteq> None \<and> \<not> ls_lost (co_server c) s"
  using assms unfolding lock_inv_def by blast+

lemma lock_invI:
  assumes "\<And>s r. co_inside c s = Some r \<Longrightarrow> \<not> ls_lost (co_server c) s \<Longrightarrow> ls_held (co_server c) (lock_key r) = Some (s, 1)"
    and "\<And>k s n. ls_held (co_server c) k = Some (s, n) \<Longrightarrow>
      \<not> ls_lost (co_server c) s \<and> (\<exists>r. co_inside c s = Some r \<and> lock_key r = k)"
    and "\<And>s f. ls_pending (co_server c) s = Some f \<Longrightarrow> co_inside c s \<noteq> None \<and> \<not> ls_lost (co_server c) s"
  shows "lock_inv c"
  using assms unfolding lock_inv_def by auto

lemma enter_step_inv:
  assumes inv: "lock_inv c" and out: "co_inside c s = None" and e: "enter_locked s run_id (co_server c) = (True, v)"
    and live: "\<not> ls_lost (co_server c) s"
  shows "lock_inv (c\<lparr>co_server := v, co_inside := (co_inside c)(s := Some run_id)\<rparr>)"
proof -
  note i = lock_invD [OF inv]
  have "ls_pending (co_server c) s = None" using i(3) out by fastforce
  moreover have free: "ls_held (co_server c) (lock_key run_id) = None"
  proof (cases "ls_held (co_server c) (lock_key run_id)")
    case (Some p)
    then obtain t n where h: "ls_held (co_server c) (lock_key run_id) = Some (t, n)" by (cases p) auto
    with e i(2) [OF h] out show ?thesis by (auto simp: enter_locked_def try_lock_def split: if_splits)
  qed
  ultimately have v: "v = (co_server c)\<lparr>ls_held := (ls_held (co_server c))(lock_key run_id := Some (s, 1))\<rparr>"
    using e by (simp add: enter_locked_def lock_defs)
  have "ls_held (co_server c) (lock_key r) = Some (t, 1) \<and> lock_key r \<noteq> lock_key run_id"
    if "t \<noteq> s" "co_inside c t = Some r" "\<not> ls_lost (co_server c) t" for t r
    using i(1) [OF that(2,3)] free by auto
  then show ?thesis unfolding v
    by (intro lock_invI) (use i(2,3) out live in \<open>fastforce split: if_splits\<close>)+
qed

lemma leave_step_inv:
  assumes inv: "lock_inv c" and ins: "co_inside c s = Some run_id"
  shows "lock_inv (c\<lparr>co_server := (leave_locked s run_id (co_server c))\<lparr>ls_lost := (ls_lost (co_server c))(s := False)\<rparr>,
      co_inside := (co_inside c)(s := None)\<rparr>)"
proof (cases "ls_lost (co_server c) s")
  case True
  note i = lock_invD [OF inv]
  have others: "t \<noteq> s" if "ls_held (co_server c) k = Some (t, n)" for k t n using i(2) [OF that] True by auto
  have "u \<noteq> s" if "ls_pending (co_server c) u = Some f" for u f using i(3) [OF that] True by auto
  with True i others show ?thesis by (intro lock_invI) (auto simp: leave_locked_def split: if_splits)
next
  case False
  note i = lock_invD [OF inv]
  from i(1) False ins have held: "ls_held (co_server c) (lock_key run_id) = Some (s, 1)" by simp
  have v: "leave_locked s run_id (co_server c) = (co_server c)\<lparr>ls_pending := (ls_pending (co_server c))(s := None),
      ls_held := (ls_held (co_server c))(lock_key run_id := None)\<rparr>"
    using False held by (simp add: leave_locked_def lock_defs)
  have "lock_key r \<noteq> lock_key run_id" if "t \<noteq> s" "co_inside c t = Some r" "\<not> ls_lost (co_server c) t" for t r
    using i(1) [OF that(2,3)] held that(1) by auto
  moreover have "t \<noteq> s" if "ls_held (co_server c) k = Some (t, n)" "k \<noteq> lock_key run_id" for k t n
    using i(2) [OF that(1)] ins that(2) by auto
  ultimately show ?thesis unfolding v
    by (intro lock_invI) (use i in \<open>auto split: if_splits\<close>)
qed

lemma lock_step_inv:
  assumes "lock_step c c'" and inv: "lock_inv c"
  shows "lock_inv c'"
  using assms(1)
proof cases
  case (enter_step s run_id v)
  with enter_step_inv [OF inv] show ?thesis by simp
next
  case (refused_step s run_id v)
  have "ls_pending (co_server c) s = None" using lock_invD(3) [OF inv] refused_step(2) by fastforce
  with refused_step(3) have "v = co_server c"
    by (auto simp: enter_locked_def lock_defs split: option.splits prod.splits if_splits)
  with refused_step(1) inv show ?thesis by simp
next
  case (write_step s run_id f)
  with lock_invD [OF inv] show ?thesis by (intro lock_invI) (auto split: if_splits)
next
  case (commit_step s run_id)
  with lock_invD [OF inv] show ?thesis by (intro lock_invI) (auto simp: commit_session_def split: option.splits if_splits)
next
  case (rollback_step s run_id)
  with lock_invD [OF inv] show ?thesis by (intro lock_invI) (auto simp: rollback_session_def split: if_splits)
next
  case (others_step d)
  with lock_invD [OF inv] show ?thesis by (intro lock_invI) auto
next
  case (lose_step s)
  with lock_invD [OF inv] show ?thesis
    by (intro lock_invI) (auto simp: lose_connection_def split: option.splits if_splits prod.splits)
next
  case (leave_step s run_id)
  with leave_step_inv [OF inv] show ?thesis by simp
next
  case (reconnect_step s)
  with lock_invD [OF inv] show ?thesis by (intro lock_invI) (auto split: if_splits)
qed

lemma lock_reachable: "lock_step\<^sup>*\<^sup>* (no_coordinator d) c \<Longrightarrow> lock_inv c"
proof (induction rule: rtranclp_induct)
  case base
  show ?case by (simp add: lock_inv_def no_coordinator_def)
next
  case (step y z)
  then show ?case by (blast intro: lock_step_inv)
qed

lemma lock_exclusive:
  assumes "lock_inv c" and "co_inside c s = Some r" and "co_inside c t = Some r'" and "lock_key r = lock_key r'"
    and "\<not> ls_lost (co_server c) s" and "\<not> ls_lost (co_server c) t"
  shows "s = t"
proof -
  from lock_invD(1) [OF assms(1,2,5)] lock_invD(1) [OF assms(1,3,6)] assms(4) show ?thesis by simp
qed

text \<open>A coordinator outside the block holds no lock and has no open transaction.\<close>

lemma lock_outside:
  assumes "lock_inv c" and "co_inside c s = None"
  shows "ls_held (co_server c) k \<noteq> Some (s, n)" and "ls_pending (co_server c) s = None"
proof -
  show "ls_held (co_server c) k \<noteq> Some (s, n)" using lock_invD(2) [OF assms(1), of k s n] assms(2) by auto
  show "ls_pending (co_server c) s = None"
    using lock_invD(3) [OF assms(1), of s] assms(2) by (cases "ls_pending (co_server c) s") auto
qed

end
