(* ===== verification/Integrity.thy ===== *)
theory Integrity
  imports System Schema
begin

text \<open>
  The rows of the database as SQL values, what it means that they satisfy a table's definition
  (types, nulls, keys, references, checks), and the proof that every reachable database satisfies
  the schema the migrations create.
\<close>

section \<open>What the constraints add\<close>

text \<open>
  Beyond \<open>wf_db\<close> and \<open>wf_users\<close>: the formats, ranges and lengths of columns, the owner of a run
  and the keys of the tables of rejections and roles.
\<close>

definition run_columns :: "db \<Rightarrow> run_row \<Rightarrow> bool" where
  "run_columns d r \<longleftrightarrow> length (r_fingerprint r) = 64 \<and> list_all lower_hex (r_fingerprint r)
     \<and> (\<forall>u. r_requested_by r = Some u \<longrightarrow> u \<in> u_id ` set (users_t d))"

definition rejected_columns :: "rejected_row \<Rightarrow> bool" where
  "rejected_columns r \<longleftrightarrow> - (2 ^ 31) \<le> rj_partition r \<and> rj_partition r < 2 ^ 31 \<and> - (2 ^ 63) \<le> rj_offset r
     \<and> rj_offset r < 2 ^ 63 \<and> length (rj_reason_code r) \<le> 64 \<and> length (rj_diagnostic r) \<le> 256"

definition wf_columns :: "db \<Rightarrow> bool" where
  "wf_columns d \<longleftrightarrow> (\<forall>r \<in> set (runs_t d). run_columns d r)
     \<and> (\<forall>a \<in> set (artifacts_t d). ar_size_bytes a < 2 ^ 63)
     \<and> distinct (map location_key (rejected_t d)) \<and> (\<forall>r \<in> set (rejected_t d). rejected_columns r)
     \<and> (\<forall>i \<in> set (identities_t d). length (i_subject i) \<le> 255)
     \<and> distinct (map ro_name (roles_t d)) \<and> (\<forall>r \<in> set (roles_t d). length (ro_name r) \<le> 50)"

named_theorems columns \<open>operations that keep the column constraints\<close>

text \<open>Tables no constraint of \<open>wf_columns\<close> speaks of.\<close>

lemma wf_columns_unrelated [simp]:
  "wf_columns (d\<lparr>models_t := m\<rparr>) = wf_columns d" "wf_columns (d\<lparr>releases_t := rel\<rparr>) = wf_columns d"
  "wf_columns (d\<lparr>outbox_t := ob\<rparr>) = wf_columns d" "wf_columns (d\<lparr>user_roles_t := ur\<rparr>) = wf_columns d"
  by (simp_all add: wf_columns_def run_columns_def)

lemma update_run_columns:
  assumes "wf_columns d" and "\<And>r. r_fingerprint (f r) = r_fingerprint r" and "\<And>r. r_requested_by (f r) = r_requested_by r"
  shows "wf_columns (update_run i f d)"
  using assms by (auto simp: wf_columns_def run_columns_def update_run_def update_by_def)

lemma insert_artifacts_bound:
  "insert_artifacts i as d = Inr d' \<Longrightarrow> a \<in> set as \<Longrightarrow> a_size_bytes a < 2 ^ 63"
  by (induction as arbitrary: d) (auto simp: insert_artifact_def not_le split: if_splits)

lemma finish_row_columns [columns]:
  assumes wf: "wf_columns d" and fin: "finish_row st r code as d = Inr d'"
  shows "wf_columns d'"
proof (cases "terminal r")
  case True
  with wf fin show ?thesis by (simp add: finish_row_terminal)
next
  case False
  from fin False obtain d1 d2 where "insert_artifacts (r_id r) as d1 = Inr d2" by (auto simp: finish_row_def Let_def)
  note insert_artifacts_bound [OF this]
  moreover have "wf_columns (update_run (r_id r) (finished st code) d)"
    by (rule update_run_columns [OF wf]) (simp_all add: finished_def)
  ultimately show ?thesis
    unfolding finish_row_effect(1) [OF fin False]
    by (auto simp: wf_columns_def run_columns_def update_run_def artifact_row_of_def)
qed

lemma register_release_columns [columns]:
  assumes wf: "wf_columns d" and reg: "register_release (register st) config d = (res, d')" shows "wf_columns d'"
proof -
  have ins: "insert_release st k img ex d1 = Inr (row, d2) \<Longrightarrow> wf_columns d2 = wf_columns d1" for k img ex d1 row d2
    by (auto simp: insert_release_def Let_def split: if_splits)
  have store: "store_release st def d1 = Inr (row, d2) \<Longrightarrow> wf_columns d2 = wf_columns d1" for def d1 row d2
    by (auto simp: store_release_def Let_def split: option.splits dest: ins)
  have "register st def d = (res, d') \<Longrightarrow> wf_columns d'" for def
    using wf by (cases res)
      (auto simp: register_def transaction_commit transaction_raise register_body_def Let_def
        rename_model_def upsert_model_def split: option.splits if_splits dest!: store)
  with reg wf show ?thesis by (auto simp: register_release_def split: sum.splits)
qed

lemma submit_columns [columns]:
  assumes wf: "wf_columns d" and s: "submit limits st i rid p owner d = (res, d')" shows "wf_columns d'"
proof (cases res)
  case (Inl e)
  with wf sql_submissions.submit_atomic [OF s [unfolded submit_def]] show ?thesis by simp
next
  case (Inr q)
  from sql_submissions.submit_parameters [OF s [unfolded submit_def Inr]] have
    "save_requested limits st q d = (Inr (), d')" by metis
  with wf show ?thesis
    by (auto simp: save_requested_Inr wf_columns_def run_columns_def run_row_of_def requester_known_def
        find_by_None split: option.splits)
qed

lemma execute_with_outcome_columns [columns]:
  assumes wf: "wf_columns d" and ex: "execute_with_outcome st i d = (res, d')" shows "wf_columns d'"
proof (cases res)
  case (Inl e)
  with wf ex show ?thesis by (auto dest: execute_with_outcome_rollback)
next
  case (Inr a)
  from ex [unfolded Inr] wf show ?thesis
    by (cases rule: execute_with_outcome_cases) (auto intro!: update_run_columns intro: finish_row_columns)
qed

lemma reject_columns [columns]:
  assumes wf: "wf_columns d" and r: "reject (record_rejection st) l rej d = (res, d')" shows "wf_columns d'"
proof -
  have "record_rejection st l rej d = (x, d1) \<Longrightarrow> wf_columns d1" for x d1
    using wf by (auto simp: record_rejection_def transaction.simps record_body_def wf_columns_def run_columns_def
        rejected_columns_def location_key_def split: if_splits sum.splits)
  with r show ?thesis by (auto simp: reject_def split: prod.splits sum.splits)
qed

lemma consume_columns [columns]:
  assumes wf: "wf_columns d" and c: "consume st l req d = (res, d')" shows "wf_columns d'"
proof (cases req)
  case (Inr rej)
  with wf c show ?thesis by (auto simp: consume_def consume_request_def intro: columns)
next
  case (Inl i)
  obtain r d1 where acc: "execute_with_outcome st i d = (r, d1)" by (cases "execute_with_outcome st i d")
  have "wf_columns d1" by (rule execute_with_outcome_columns [OF wf acc])
  with c Inl acc show ?thesis
    by (auto simp: consume_def consume_request_def split: sum.splits exn.splits intro: reject_columns)
qed

lemma publish_columns [columns]:
  assumes "wf_columns d" and "sql_publish_outbox locked clock commit publish n (d, w) = (res, d', w')" shows "wf_columns d'"
  by (rule sql_publish_outbox_keeps [OF assms(2), where P = wf_columns]) (simp_all add: assms(1) mark_published_def)

lemma save_job_uid_columns [columns]: "wf_columns d \<Longrightarrow> save_job_uid i u d = (res, d') \<Longrightarrow> wf_columns d'"
  by (auto simp: save_job_uid_def transaction.simps split: option.splits if_splits intro!: update_run_columns)

lemma finish_columns [columns]: "wf_columns d \<Longrightarrow> finish st i code as d = (res, d') \<Longrightarrow> wf_columns d'"
  by (auto simp: finish_def transaction.simps split: option.splits sum.splits intro: finish_row_columns)

lemma claim_columns [columns]:
  "wf_columns d \<Longrightarrow> transaction (claim_locked st ns c) d = (res, d') \<Longrightarrow> wf_columns d'"
  by (cases res) (auto simp: transaction_raise transaction_commit claim_locked_def start_row_def
      split: option.splits if_splits intro!: update_run_columns intro: finish_row_columns)

lemma create_columns:
  assumes wf: "wf_columns d" and c: "create_with_identity_and_role st i role d = Inr (a, d')" shows "wf_columns d'"
proof -
  have "length (vi_subject i) \<le> 255"
    using c by (auto simp: create_with_identity_and_role_def insert_identity_def Let_def split: if_splits sum.splits)
  with wf show ?thesis unfolding create_Inr(4) [OF c] by (auto simp: wf_columns_def run_columns_def)
qed

lemma current_user_columns [columns]:
  assumes wf: "wf_columns d" and c: "current_user_of st st' (\<lambda>d. d) (\<lambda>d. d) i d = (res, d')" shows "wf_columns d'"
proof -
  have ids: "u_id ` set (update_by u_id k (update_user_row t u) rows) = u_id ` set rows" for k t u rows
    using arg_cong [OF update_by_keys [of u_id "update_user_row t u" k rows], of set] by (simp add: update_user_row_def)
  have sync: "synchronize_profile (update_profile t) a i x = Inr (b, y) \<Longrightarrow> wf_columns x \<Longrightarrow> wf_columns y" for t a x b y
    by (auto simp: synchronize_profile_def update_profile_def Let_def wf_columns_def run_columns_def ids split: if_splits)
  have once: "resolve_once find_by_identity (create_with_identity_and_role st) (update_profile st) i x y = Inr (c, z)
      \<Longrightarrow> wf_columns y \<Longrightarrow> wf_columns z" for x y z c
    by (auto simp: resolve_once_def and_current_def split: option.splits dest: create_columns sync)
  have again: "resolve_again find_by_identity (update_profile st') i x y = Inr (c, z) \<Longrightarrow> wf_columns y \<Longrightarrow> wf_columns z" for x y z c
    by (auto simp: resolve_again_def and_current_def split: option.splits dest: sync)
  show ?thesis
    using c wf once again
    by (auto simp: current_user_of_def resolve_current_user_def transaction.simps split: sum.splits exn.splits prod.splits)
qed

lemma grant_columns [columns]: "wf_columns d \<Longrightarrow> grant_admin st u d = (res, d') \<Longrightarrow> wf_columns d'"
  by (cases res) (auto simp: grant_admin_def transaction_raise transaction_commit grant_body_def add_role_def
      insert_user_role_def split: option.splits if_splits)

lemma sys_step_columns: "sys_step capacity s s' \<Longrightarrow> wf_columns (sys_db s) \<Longrightarrow> wf_columns (sys_db s')"
  by (erule sys_step.cases) (auto intro: columns)

lemma sys_steps_columns:
  "(sys_step capacity)\<^sup>*\<^sup>* initial_system s \<Longrightarrow> wf_columns (sys_db s)"
proof (induction rule: rtranclp_induct)
  case base
  show ?case by (simp add: initial_system_def empty_db_def wf_columns_def seeded_roles_def)
next
  case (step y z)
  then show ?case by (blast intro: sys_step_columns)
qed

section \<open>Rows as SQL values\<close>

type_synonym sql_row = "(string \<times> sql_value) list"

fun opt_value :: "('a \<Rightarrow> sql_value) \<Rightarrow> 'a option \<Rightarrow> sql_value" where
  "opt_value f None = SNull"
| "opt_value f (Some x) = f x"

definition cell :: "sql_row \<Rightarrow> string \<Rightarrow> sql_value" where
  "cell row c = (case map_of row c of None \<Rightarrow> SNull | Some v \<Rightarrow> v)"

definition user_values :: "user_row \<Rightarrow> sql_row" where
  "user_values r = [(''id'', SUuid (u_id r)), (''email'', opt_value SText (u_email r)),
     (''display_name'', opt_value SText (u_display_name r)), (''is_active'', SBool (u_is_active r)),
     (''created_at'', STime (u_created_at r)), (''updated_at'', STime (u_updated_at r))]"

definition identity_values :: "identity_row \<Rightarrow> sql_row" where
  "identity_values r = [(''issuer'', SText (i_issuer r)), (''subject'', SText (i_subject r)),
     (''user_id'', SUuid (i_user_id r)), (''created_at'', STime (i_created_at r))]"

definition role_values :: "role_row \<Rightarrow> sql_row" where
  "role_values r = [(''name'', SText (ro_name r)), (''description'', SText (ro_description r)),
     (''created_at'', STime (ro_created_at r))]"

definition user_role_values :: "user_role_row \<Rightarrow> sql_row" where
  "user_role_values r = [(''user_id'', SUuid (ur_user_id r)), (''role_name'', SText (ur_role_name r)),
     (''assigned_at'', STime (ur_assigned_at r))]"

definition model_values :: "model_row \<Rightarrow> sql_row" where
  "model_values r = [(''id'', SText (m_id r)), (''display_name'', SText (m_display_name r))]"

definition release_values :: "release_row \<Rightarrow> sql_row" where
  "release_values r = [(''id'', SUuid (rel_id r)), (''model_id'', SText (rel_model_id r)),
     (''image_digest'', SText (rel_image_digest r)), (''execution_definition'', SJson (rel_execution_definition r)),
     (''created_at'', STime (rel_created_at r))]"

definition run_values :: "run_row \<Rightarrow> sql_row" where
  "run_values r = [(''id'', SUuid (r_id r)), (''model_release_id'', SUuid (r_model_release_id r)),
     (''requested_by'', opt_value SUuid (r_requested_by r)), (''parameters'', SJson (r_parameters r)),
     (''fingerprint'', SText (r_fingerprint r)), (''status'', SText (status_str (r_status r))),
     (''accepted_at'', opt_value STime (r_accepted_at r)), (''failure_code'', opt_value SText (r_failure_code r)),
     (''dispatch_started_at'', opt_value STime (r_dispatch_started_at r)),
     (''finished_at'', opt_value STime (r_finished_at r)), (''job_namespace'', opt_value SText (r_job_namespace r)),
     (''job_uid'', opt_value SText (r_job_uid r)), (''created_at'', STime (r_created_at r))]"

definition artifact_values :: "artifact_row \<Rightarrow> sql_row" where
  "artifact_values r = [(''run_id'', SUuid (ar_run_id r)), (''object_key'', SText (ar_object_key r)),
     (''bucket'', SText (ar_bucket r)), (''size_bytes'', SInt (ar_size_bytes r))]"

definition outbox_values :: "outbox_row \<Rightarrow> sql_row" where
  "outbox_values r = [(''id'', SUuid (ob_id r)), (''run_id'', SUuid (ob_run_id r)),
     (''event_type'', SText (ob_event_type r)), (''created_at'', STime (ob_created_at r)),
     (''published_at'', opt_value STime (ob_published_at r))]"

definition rejected_values :: "rejected_row \<Rightarrow> sql_row" where
  "rejected_values r = [(''topic'', SText (rj_topic r)), (''partition'', SInt (rj_partition r)),
     (''offset'', SInt (rj_offset r)), (''reason_code'', SText (rj_reason_code r)),
     (''diagnostic'', SText (rj_diagnostic r)), (''recorded_at'', STime (rj_recorded_at r))]"

lemmas row_values = user_values_def identity_values_def role_values_def user_role_values_def model_values_def
  release_values_def run_values_def artifact_values_def outbox_values_def rejected_values_def

definition tables_of :: "db \<Rightarrow> (string \<times> sql_row list) list" where
  "tables_of d = [(''users'', map user_values (users_t d)), (''user_identities'', map identity_values (identities_t d)),
     (''roles'', map role_values (roles_t d)), (''user_roles'', map user_role_values (user_roles_t d)),
     (''models'', map model_values (models_t d)), (''model_releases'', map release_values (releases_t d)),
     (''runs'', map run_values (runs_t d)), (''run_artifacts'', map artifact_values (artifacts_t d)),
     (''outbox_events'', map outbox_values (outbox_t d)), (''rejected_messages'', map rejected_values (rejected_t d))]"

definition rows_of :: "db \<Rightarrow> string \<Rightarrow> sql_row list" where
  "rows_of d t = (case map_of (tables_of d) t of None \<Rightarrow> [] | Some rows \<Rightarrow> rows)"

section \<open>Satisfying a table\<close>

definition column_ok :: "sql_row \<Rightarrow> column_def \<Rightarrow> bool" where
  "column_ok row c \<longleftrightarrow> cell row (col_name c) = SNull \<and> col_nullable c \<or> has_type (col_type c) (cell row (col_name c))"

definition reference_held :: "db \<Rightarrow> sql_row \<Rightarrow> foreign_key \<Rightarrow> bool" where
  "reference_held d row k \<longleftrightarrow> cell row (fk_column k) = SNull
     \<or> cell row (fk_column k) \<in> (\<lambda>r. cell r (fk_target k)) ` set (rows_of d (fk_table k))"

definition row_ok :: "db \<Rightarrow> table_def \<Rightarrow> sql_row \<Rightarrow> bool" where
  "row_ok d t row \<longleftrightarrow> set (map fst row) = set (column_names t) \<and> (\<forall>c \<in> set (tb_columns t). column_ok row c)
     \<and> (\<forall>k \<in> set (tb_foreign t). reference_held d row k)
     \<and> (\<forall>(n, c) \<in> set (tb_checks t). cond_value (cell row) c \<noteq> Some False)"

definition table_satisfied :: "db \<Rightarrow> table_def \<Rightarrow> bool" where
  "table_satisfied d t \<longleftrightarrow> (\<forall>row \<in> set (rows_of d (tb_name t)). row_ok d t row)
     \<and> distinct (map (\<lambda>row. map (cell row) (snd (tb_primary t))) (rows_of d (tb_name t)))"

definition schema_satisfied :: "db \<Rightarrow> schema \<Rightarrow> bool" where
  "schema_satisfied d s \<longleftrightarrow> (\<forall>t \<in> set (sc_tables s). table_satisfied d t)
     \<and> map (\<lambda>r. (ro_name r, ro_description r)) (roles_t d) = sc_roles s"

lemma same_table_satisfied: "same_table a b \<Longrightarrow> table_satisfied d a = table_satisfied d b"
  unfolding same_table_def table_satisfied_def row_ok_def column_names_def by (simp only: set_map)

lemma mapped_schema_table:
  assumes m: "mapped_schema s" and x: "x \<in> set (sc_tables s)"
  obtains t where "t \<in> set orm_tables" and "same_table t x"
proof -
  let ?names = "tb_name ` set (sc_tables s)" and ?orm = "tb_name ` set orm_tables"
  from m have d: "distinct (map tb_name (sc_tables s))" and l: "length (sc_tables s) = length orm_tables"
    and f: "\<And>t. t \<in> set orm_tables \<Longrightarrow> \<exists>y. find_table (tb_name t) s = Some y \<and> same_table t y"
    by (auto simp: mapped_schema_def list_all_iff split: option.splits)
  have "?orm \<subseteq> ?names" using f by (auto dest!: f find_by_Some intro: rev_image_eqI)
  moreover have "card ?names = card ?orm"
    using distinct_card [OF d] distinct_card [OF orm_names] l by simp
  ultimately have "?orm = ?names" by (simp add: card_subset_eq)
  with x obtain t where t: "t \<in> set orm_tables" "tb_name t = tb_name x" by (metis imageE image_eqI)
  from f [OF t(1)] t(2) find_by_distinct [OF d x] have "same_table t x" by auto
  with t(1) that show thesis by blast
qed

section \<open>The invariants are the constraints\<close>

lemma rows_of_simps:
  "rows_of d ''users'' = map user_values (users_t d)" "rows_of d ''user_identities'' = map identity_values (identities_t d)"
  "rows_of d ''roles'' = map role_values (roles_t d)" "rows_of d ''user_roles'' = map user_role_values (user_roles_t d)"
  "rows_of d ''models'' = map model_values (models_t d)" "rows_of d ''model_releases'' = map release_values (releases_t d)"
  "rows_of d ''runs'' = map run_values (runs_t d)" "rows_of d ''run_artifacts'' = map artifact_values (artifacts_t d)"
  "rows_of d ''outbox_events'' = map outbox_values (outbox_t d)"
  "rows_of d ''rejected_messages'' = map rejected_values (rejected_t d)"
  by (simp_all add: rows_of_def tables_of_def)

text \<open>The values a reference may take.\<close>

lemma targets:
  "(\<lambda>r. cell r ''id'') ` set (rows_of d ''users'') = SUuid ` u_id ` set (users_t d)"
  "(\<lambda>r. cell r ''name'') ` set (rows_of d ''roles'') = SText ` ro_name ` set (roles_t d)"
  "(\<lambda>r. cell r ''id'') ` set (rows_of d ''models'') = SText ` m_id ` set (models_t d)"
  "(\<lambda>r. cell r ''id'') ` set (rows_of d ''model_releases'') = SUuid ` rel_id ` set (releases_t d)"
  "(\<lambda>r. cell r ''id'') ` set (rows_of d ''runs'') = SUuid ` r_id ` set (runs_t d)"
  by (simp_all add: rows_of_simps image_image cell_def row_values)

lemma nullable_value [simp]:
  "opt_value SUuid x = SNull \<or> has_type TUuid (opt_value SUuid x)"
  "opt_value SText y = SNull \<or> has_type TText (opt_value SText y)"
  "opt_value STime z = SNull \<or> has_type TTimestamp (opt_value STime z)"
  by (cases x; cases y; cases z; simp)+

lemma value_in_image: "SUuid i \<in> SUuid ` A \<longleftrightarrow> i \<in> A" "SText s \<in> SText ` B \<longleftrightarrow> s \<in> B"
  by auto

lemma distinct_map_finer:
  assumes "distinct (map g xs)" and "\<And>x y. f x = f y \<Longrightarrow> g x = g y"
  shows "distinct (map f xs)"
proof -
  have "x = y" if "x \<in> set xs" and "y \<in> set xs" and "f x = f y" for x y
    using that assms(1) assms(2) [OF that(3)] by (simp add: distinct_map inj_on_def)
  with assms(1) show ?thesis unfolding distinct_map inj_on_def by blast
qed

lemmas table_items = build_table_def not_null_def nullable_def with_default_def primary_def restricted_def created_at_def
lemma cell_simps:
  "cell [] c = SNull" "cell ((k, v) # row) c = (if c = k then v else cell row c)"
  by (simp_all add: cell_def)

lemmas table_checks = row_ok_def column_ok_def column_names_def reference_held_def targets value_in_image row_values cell_simps

lemma table_satisfiedI:
  assumes "rows_of d (tb_name t) = map f xs" and "\<And>r. r \<in> set xs \<Longrightarrow> row_ok d t (f r)"
    and "distinct (map (\<lambda>r. map (cell (f r)) (snd (tb_primary t))) xs)"
  shows "table_satisfied d t"
  using assms by (simp add: table_satisfied_def o_def)

lemma users_satisfied:
  assumes "wf_users d" shows "table_satisfied d users_table"
proof (rule table_satisfiedI [where f = user_values and xs = "users_t d"])
  fix r
  assume r: "r \<in> set (users_t d)"
  show "row_ok d users_table (user_values r)"
    by (simp add: users_table_def table_items table_checks)
qed (use wf_usersD(1) [OF assms] in \<open>auto simp: users_table_def table_items rows_of_simps row_values cell_simps elim!: distinct_map_finer\<close>)

lemma identities_satisfied:
  assumes "wf_users d" and "wf_columns d" shows "table_satisfied d user_identities_table"
proof (rule table_satisfiedI [where f = identity_values and xs = "identities_t d"])
  fix r
  assume r: "r \<in> set (identities_t d)"
  have "length (i_subject r) \<le> 255" "i_user_id r \<in> u_id ` set (users_t d)"
    using r wf_usersD(4) [OF assms(1)] assms(2) by (auto simp: wf_columns_def)
  then show "row_ok d user_identities_table (identity_values r)"
    by (simp add: user_identities_table_def table_items table_checks)
qed (use wf_usersD(2) [OF assms(1)] in \<open>auto simp: user_identities_table_def table_items rows_of_simps row_values cell_simps identity_key_def elim!: distinct_map_finer\<close>)

lemma roles_satisfied:
  assumes "wf_columns d" shows "table_satisfied d roles_table"
proof (rule table_satisfiedI [where f = role_values and xs = "roles_t d"])
  fix r
  assume r: "r \<in> set (roles_t d)"
  from r assms have "length (ro_name r) \<le> 50" by (simp add: wf_columns_def)
  then show "row_ok d roles_table (role_values r)"
    by (simp add: roles_table_def table_items table_checks)
qed (use assms in \<open>auto simp: roles_table_def table_items rows_of_simps row_values cell_simps wf_columns_def elim!: distinct_map_finer\<close>)

lemma user_roles_satisfied:
  assumes "wf_users d" and "wf_columns d" shows "table_satisfied d user_roles_table"
proof (rule table_satisfiedI [where f = user_role_values and xs = "user_roles_t d"])
  fix r
  assume r: "r \<in> set (user_roles_t d)"
  from r wf_usersD(5,6) [OF assms(1)] have fk: "ur_role_name r \<in> ro_name ` set (roles_t d)" "ur_user_id r \<in> u_id ` set (users_t d)"
    by auto
  with assms(2) have "length (ur_role_name r) \<le> 50" by (auto simp: wf_columns_def)
  with fk show "row_ok d user_roles_table (user_role_values r)"
    by (simp add: user_roles_table_def table_items table_checks)
qed (use wf_usersD(3) [OF assms(1)] in \<open>auto simp: user_roles_table_def table_items rows_of_simps row_values cell_simps user_role_key_def elim!: distinct_map_finer\<close>)

lemma models_satisfied:
  assumes "wf_catalog d" shows "table_satisfied d models_table"
proof (rule table_satisfiedI [where f = model_values and xs = "models_t d"])
  fix r
  assume r: "r \<in> set (models_t d)"
  show "row_ok d models_table (model_values r)"
    by (simp add: models_table_def table_items table_checks)
qed (use assms in \<open>auto simp: models_table_def table_items rows_of_simps row_values cell_simps wf_catalog_def elim!: distinct_map_finer\<close>)

lemma releases_satisfied:
  assumes "wf_catalog d" shows "table_satisfied d model_releases_table"
proof (rule table_satisfiedI [where f = release_values and xs = "releases_t d"])
  fix r
  assume r: "r \<in> set (releases_t d)"
  have "is_object j" if "definition_from_dict j = Inr ex" for j ex using that by (cases j) (auto simp: is_object_def)
  with r assms have "rel_model_id r \<in> m_id ` set (models_t d)" "is_object (rel_execution_definition r)"
    by (auto simp: wf_catalog_def)
  then show "row_ok d model_releases_table (release_values r)"
    by (simp add: model_releases_table_def table_items table_checks)
qed (use assms in \<open>auto simp: model_releases_table_def table_items rows_of_simps row_values cell_simps wf_catalog_def elim!: distinct_map_finer\<close>)

lemma runs_satisfied:
  assumes "wf_db d" and "wf_columns d" shows "table_satisfied d runs_table"
proof (rule table_satisfiedI [where f = run_values and xs = "runs_t d"])
  fix r
  assume r: "r \<in> set (runs_t d)"
  have "status_str (r_status r) \<in> {''queued'', ''running'', ''succeeded'', ''failed''}" by (cases "r_status r") simp_all
  moreover from r assms have "r_model_release_id r \<in> rel_id ` set (releases_t d)" "is_object (r_parameters r)"
    and cols: "run_columns d r" by (auto simp: wf_db_def wf_catalog_def wf_columns_def is_object_def)
  moreover from cols have "opt_value SUuid (r_requested_by r) = SNull \<or> opt_value SUuid (r_requested_by r) \<in> SUuid ` u_id ` set (users_t d)"
    by (cases "r_requested_by r") (simp_all add: run_columns_def)
  ultimately show "row_ok d runs_table (run_values r)"
    by (simp add: runs_table_def table_items table_checks run_columns_def)
qed (use wf_runsD(1) [OF wf_dbD(1) [OF assms(1)]] in \<open>auto simp: runs_table_def table_items rows_of_simps row_values cell_simps elim!: distinct_map_finer\<close>)

lemma artifacts_satisfied:
  assumes "wf_runs d" and "wf_columns d" shows "table_satisfied d run_artifacts_table"
proof (rule table_satisfiedI [where f = artifact_values and xs = "artifacts_t d"])
  fix r
  assume r: "r \<in> set (artifacts_t d)"
  from wf_runsD(5,6) [OF assms(1) r] have "0 \<le> ar_size_bytes r" "ar_run_id r \<in> r_id ` set (runs_t d)"
    by (simp_all) (metis imageI)
  moreover from r assms(2) have "ar_size_bytes r < 2 ^ 63" by (simp add: wf_columns_def)
  ultimately show "row_ok d run_artifacts_table (artifact_values r)"
    by (simp add: run_artifacts_table_def table_items table_checks)
qed (use wf_runsD(3) [OF assms(1)] in \<open>auto simp: run_artifacts_table_def table_items rows_of_simps row_values cell_simps artifact_key_def elim!: distinct_map_finer\<close>)

lemma outbox_satisfied:
  assumes "wf_runs d" shows "table_satisfied d outbox_events_table"
proof (rule table_satisfiedI [where f = outbox_values and xs = "outbox_t d"])
  fix r
  assume r: "r \<in> set (outbox_t d)"
  from r wf_runsD(4) [OF assms] have "ob_run_id r \<in> r_id ` set (runs_t d)" by auto
  then show "row_ok d outbox_events_table (outbox_values r)"
    by (simp add: outbox_events_table_def table_items table_checks)
qed (use wf_runsD(2) [OF assms] in \<open>auto simp: outbox_events_table_def table_items rows_of_simps row_values cell_simps elim!: distinct_map_finer\<close>)

lemma rejected_satisfied:
  assumes "wf_columns d" shows "table_satisfied d rejected_messages_table"
proof (rule table_satisfiedI [where f = rejected_values and xs = "rejected_t d"])
  fix r
  assume r: "r \<in> set (rejected_t d)"
  from r assms have "rejected_columns r" by (simp add: wf_columns_def)
  then show "row_ok d rejected_messages_table (rejected_values r)"
    by (simp add: rejected_messages_table_def table_items table_checks rejected_columns_def)
qed (use assms in \<open>auto simp: rejected_messages_table_def table_items rows_of_simps row_values cell_simps wf_columns_def location_key_def elim!: distinct_map_finer\<close>)

lemma orm_satisfied:
  assumes "wf_db d" and "wf_users d" and "wf_columns d" and "t \<in> set orm_tables"
  shows "table_satisfied d t"
  using assms(4) users_satisfied [OF assms(2)] identities_satisfied [OF assms(2,3)] roles_satisfied [OF assms(3)]
    user_roles_satisfied [OF assms(2,3)] models_satisfied [OF wf_dbD(2) [OF assms(1)]]
    releases_satisfied [OF wf_dbD(2) [OF assms(1)]] runs_satisfied [OF assms(1,3)]
    artifacts_satisfied [OF wf_dbD(1) [OF assms(1)] assms(3)] outbox_satisfied [OF wf_dbD(1) [OF assms(1)]]
    rejected_satisfied [OF assms(3)]
  by (auto simp: orm_tables_def)

section \<open>Every reachable database satisfies the migrated schema\<close>

lemma current_user_roles:
  assumes c: "current_user_of st st' (\<lambda>d. d) (\<lambda>d. d) i d = (res, d')" shows "roles_t d' = roles_t d"
proof -
  have sync: "synchronize_profile (update_profile t) a i x = Inr (b, y) \<Longrightarrow> roles_t y = roles_t x" for t a x b y
    by (auto simp: synchronize_profile_def update_profile_def Let_def split: if_splits)
  have create: "create_with_identity_and_role st i role x = Inr (a, y) \<Longrightarrow> roles_t y = roles_t x" for role x a y
    by (auto dest: create_Inr(4))
  have once: "resolve_once find_by_identity (create_with_identity_and_role st) (update_profile st) i x y = Inr (c, z)
      \<Longrightarrow> roles_t z = roles_t y" for x y z c
    by (auto simp: resolve_once_def and_current_def split: option.splits dest: create sync)
  have again: "resolve_again find_by_identity (update_profile st') i x y = Inr (c, z) \<Longrightarrow> roles_t z = roles_t y" for x y z c
    by (auto simp: resolve_again_def and_current_def split: option.splits dest: sync)
  show ?thesis
    using c once again
    by (auto simp: current_user_of_def resolve_current_user_def transaction.simps split: sum.splits exn.splits prod.splits)
qed

lemma grant_roles: "grant_admin st u d = (res, d') \<Longrightarrow> roles_t d' = roles_t d"
  by (cases res) (auto simp: grant_admin_def transaction_raise transaction_commit grant_body_def add_role_def
      insert_user_role_def split: option.splits if_splits)

lemma frame_roles: "users_frame d d' \<Longrightarrow> roles_t d' = roles_t d"
  by (simp add: users_frame_def)

lemma sys_step_roles: "sys_step capacity s s' \<Longrightarrow> roles_t (sys_db s') = roles_t (sys_db s)"
  by (erule sys_step.cases) (auto intro: frame_roles frame current_user_roles grant_roles)

lemma sys_steps_roles: "(sys_step capacity)\<^sup>*\<^sup>* initial_system s \<Longrightarrow> roles_t (sys_db s) = seeded_roles 0 0"
proof (induction rule: rtranclp_induct)
  case base
  show ?case by (simp add: initial_system_def empty_db_def)
next
  case (step y z)
  then show ?case by (simp add: sys_step_roles)
qed

lemma reachable_satisfied:
  assumes "0 \<le> capacity" and "(sys_step capacity)\<^sup>*\<^sup>* initial_system s"
  shows "schema_satisfied (sys_db s) (stage (length revisions))"
proof -
  have six: "length revisions = 6" by (simp add: revisions_def)
  from head_ok_stage have m: "mapped_schema (stage 6)" and r: "sc_roles (stage 6) = map (\<lambda>r. (ro_name r, ro_description r)) (seeded_roles 0 0)"
    by (simp_all only: head_ok_def seeded_def)
  from sys_reachable [OF assms(2,1)] have wf: "wf_db (sys_db s)" "wf_users (sys_db s)" by (simp_all add: sys_inv_def)
  have "table_satisfied (sys_db s) x" if x: "x \<in> set (sc_tables (stage 6))" for x
  proof -
    obtain t where t: "t \<in> set orm_tables" "same_table t x" by (rule mapped_schema_table [OF m x])
    from orm_satisfied [OF wf sys_steps_columns [OF assms(2)] t(1)] same_table_satisfied [OF t(2)] show ?thesis by simp
  qed
  then show ?thesis unfolding six by (simp add: schema_satisfied_def r sys_steps_roles [OF assms(2)])
qed

text \<open>The partial indexes hold exactly the rows the loops look for.\<close>

lemma dispatch_index_rows: "cond_value (cell (run_values r)) dispatchable = Some True \<longleftrightarrow> accepted_unfinished r"
  by (cases "r_accepted_at r"; cases "r_status r")
    (simp_all add: dispatchable_def run_values_def cell_simps accepted_unfinished_def active_statuses_def)

lemma unpublished_index_rows:
  "cond_value (cell (outbox_values x)) (IsNull ''published_at'') = Some (ob_published_at x = None)"
  by (cases "ob_published_at x") (simp_all add: outbox_values_def cell_simps)

end
