(* ===== verification/Installation.thy ===== *)
theory Installation
  imports Encounters Commands Locks Integrity
begin

text \<open>
  A concrete environment for the settings, an application built from it, a worker's start and two
  coordinators, on which the properties of configuration, lifecycle and locks are applied.
\<close>

definition demo_env :: env_reader where
  "demo_env = \<lparr>er_text = map_of [(''db_host'', ''db''), (''db_name'', ''mic3''), (''db_user'', ''mic3''), (''db_password'', ''s''),
       (''oidc_issuer_url'', ''https://id''), (''oidc_audience'', ''mic3''), (''execution_namespace'', ''models''),
       (''artifact_endpoint'', ''http://s3''), (''artifact_bucket'', ''b''), (''artifact_access_key'', ''k''),
       (''artifact_secret_key'', ''s'')],
     er_int = \<lambda>_. None, er_number = \<lambda>_. None, er_list = \<lambda>_. None, er_file_exists = \<lambda>_. False\<rparr>"

lemma demo_env_fields:
  "er_text demo_env ''db_host'' = Some ''db''" "er_text demo_env ''db_port'' = None"
  "read_field p demo_env ''run_max_active_per_user'' (Some x) ok = Inr x"
  by (simp_all add: demo_env_def read_field_def)

definition demo_app :: "unit app_state" where
  "demo_app = (case create_app demo_env None None of Inr a \<Rightarrow> a | Inl _ \<Rightarrow> undefined)"

lemma demo_create: "create_app demo_env None None = Inr demo_app \<and> as_run_max_active_per_user (ap_settings demo_app) = 5
    \<and> as_run_max_active_global (ap_settings demo_app) = 20"
proof -
  have issuer: "validate_oidc_issuer_url ''https://id'' = Inr ''https://id''" by code_simp
  have audience: "validate_oidc_audience ''mic3'' = Inr ''mic3''" by code_simp
  have algorithms: "validate_oidc_algorithms [''RS256''] = Inr [''RS256'']" by code_simp
  have oidc: "\<exists>o'. read_oidc_settings demo_env = Inr o'"
    by (simp add: read_oidc_settings_def read_field_def demo_env_def make_oidc_settings_def issuer audience algorithms require_def)
  have "\<exists>s. read_settings demo_env = Inr s \<and> as_run_max_active_per_user s = 5 \<and> as_run_max_active_global s = 20"
    using oidc by (auto simp: read_settings_def read_database_settings_def read_field_def demo_env_def)
  then show ?thesis by (auto simp: demo_app_def create_app_def)
qed

definition demo_body :: submit_run_request where
  "demo_body = \<lparr>sq_model_release_id = 10, sq_parameters = mode_params ''fast''\<rparr>"

definition demo_owner :: current_user where
  "demo_owner = \<lparr>cu_id = 5, cu_email = Some ''a@b'', cu_display_name = None, cu_roles = [''member'']\<rparr>"

lemma demo_submit_endpoint:
  "\<exists>r. submit_endpoint demo_app (at 200 30) 20 demo_body demo_owner owned_registered = (Inr r, owned_submitted)"
proof -
  have "admit (Some \<lparr>per_user = 5, global_total = 20\<rparr>) q owned_registered = Inr ()" if "q_requested_by q = Some 5" for q
    using that by (simp add: admit_def check_limits_def owned_active_count_def active_count_def owned_registered_def demo_users_def empty_db_def)
  from owned_submit_any [OF this] show ?thesis
    by (simp add: submit_endpoint_def get_submit_run_def demo_create make_limits_def post_run_def demo_body_def demo_owner_def)
qed

section \<open>A worker\<close>

definition demo_consumer :: consumer_start where
  "demo_consumer = \<lparr>cs_create = Inr (), cs_topic = Inr None, cs_subscribe = Inr ()\<rparr>"

definition demo_worker :: worker_start where
  "demo_worker = \<lparr>wm_environment = demo_env, wm_engine = \<lambda>_. Inr (), wm_jobs = Inr (), wm_store = Inr (), wm_execution = Inr 0\<rparr>"

lemma demo_accept_loop:
  "accept_loop decode True [(demo_consumer, 0, [])] d = ((Inr 0, [Opened KafkaConsumer, Closed KafkaConsumer]), d)"
  by (simp add: accept_loop_def factory_of_def open_consumer_def demo_consumer_def check_topic_def worker_attempt_def attempt_log_def)

lemma demo_worker_main:
  "worker_main False (demo_worker\<lparr>wm_execution := Inr (fst (run_execution [] ()))\<rparr>) (Inr 0, [Opened KafkaConsumer, Closed KafkaConsumer])
    = (0, [Opened DatabaseEngine, Opened SignalHandlers, Opened KafkaConsumer, Closed KafkaConsumer, Closed SignalHandlers,
        Closed DatabaseEngine])"
proof -
  have "\<exists>s. read_worker_settings demo_env = Inr s \<and> ws_statement_timeout_ms s = 10000 \<and> ws_lock_timeout_ms s = 5000"
    by (auto simp: read_worker_settings_def read_kafka_settings_def read_tls_def read_database_settings_def optional_field_def
        read_field_def demo_env_def validate_tls_identity_def tls_files_def)
  then obtain s where s: "read_worker_settings demo_env = Inr s" "ws_statement_timeout_ms s = 10000" "ws_lock_timeout_ms s = 5000" by blast
  have "\<exists>x. connect_args (Some 10000) (Some 5000) = Inr x"
    by (simp add: connect_args_def timeout_option_def)
  with s show ?thesis
    by (auto simp: worker_main_def worker_settings_of_def demo_worker_def holding_def exit_code_def)
qed

lemma demo_publisher_main:
  "publisher_main demo_env (\<lambda>_. Inr ()) (\<lambda>_. Inr ()) (\<lambda>n. (fst (publisher_run send n True [] (d, v)), []))
    = (Inr 0, [Opened DatabaseEngine, Opened KafkaProducer, Opened SignalHandlers, Closed SignalHandlers, Closed KafkaProducer,
        Closed DatabaseEngine])"
proof -
  have "\<exists>s. read_publisher_settings demo_env = Inr s"
    by (auto simp: read_publisher_settings_def read_kafka_settings_def read_tls_def read_database_settings_def optional_field_def
        read_field_def demo_env_def validate_tls_identity_def tls_files_def)
  then obtain s where s: "read_publisher_settings demo_env = Inr s" by blast
  have "\<exists>x. connect_args None None = Inr x" by (simp add: connect_args_def timeout_option_def)
  with s show ?thesis
    by (auto simp: publisher_main_def publisher_body_def holding_def)
qed

section \<open>Coordinators\<close>

definition demo_coordinators :: coordinators where
  "demo_coordinators = \<lparr>co_server = \<lparr>ls_db = demo_running, ls_held = (\<lambda>_. None)(lock_key 20 := Some (0, 1)),
     ls_pending = \<lambda>_. None, ls_lost = \<lambda>_. False\<rparr>, co_inside = (\<lambda>_. None)(0 := Some 20)\<rparr>"

lemma demo_coordinators_reached: "lock_step\<^sup>*\<^sup>* (no_coordinator demo_running) demo_coordinators"
proof -
  have "enter_locked 0 20 (co_server (no_coordinator demo_running)) = (True, co_server demo_coordinators)"
    by (simp add: enter_locked_def lock_defs no_coordinator_def demo_coordinators_def)
  from enter_step [OF _ this] show ?thesis by (simp add: no_coordinator_def demo_coordinators_def r_into_rtranclp)
qed

lemma demo_second_refused: "fst (enter_locked 1 20 (co_server demo_coordinators)) = False"
  by (simp add: enter_locked_def lock_defs demo_coordinators_def)

end
