(* ===== verification/Spec2Isabelle.thy ===== *)
theory Spec2Isabelle
  imports Installation
begin

text \<open>
  MIC3 API: a verification development.

  \<^bold>\<open>The program.\<close> MIC3 runs scientific models as Kubernetes Jobs. A catalog holds model
  releases (an image pinned by digest and an execution definition with named modes). A user
  submits a run of a release through the HTTP API; the run and a request event are stored in one
  PostgreSQL transaction. A publisher process sends unpublished events of the outbox to Kafka. A
  worker process consumes the requests, accepts or rejects each run and, with \<open>--execute\<close>,
  claims accepted runs up to a capacity, creates or adopts one Job per run, and records the
  outcome and the artifacts it finds in the object store. Triggers notify the API of changed runs,
  which it streams to their owners as server-sent events. The processes share only the database,
  Kafka, the cluster and the object store.

  \<^bold>\<open>Theories and sources\<close> (paths under \<open>src/src/mic3_api/\<close> unless said otherwise).

  \<^item> \<open>Prelude\<close>: results of code that may raise, transactions, tables as lists of rows.
  \<^item> \<open>PyText\<close>: what the code uses of Python strings, regular expressions, POSIX paths, numbers
    and UUIDs as text.
  \<^item> \<open>Errors\<close>: \<open>application/errors.py\<close>, \<open>application/*/errors.py\<close>, \<open>api/errors.py\<close>,
    \<open>infrastructure/retry.py\<close>.
  \<^item> \<open>Json\<close>, \<open>Json_Read\<close>, \<open>Sha256\<close>, \<open>Fingerprint\<close>: \<open>json.dumps\<close>, \<open>json.loads\<close> on
    bytes, SHA-256 on 32-bit words, and \<open>application/runs/fingerprint.py\<close>.
  \<^item> \<open>Model_Execution\<close>, \<open>Catalog\<close>, \<open>Model_Catalog\<close>: \<open>application/models/\<close> and
    \<open>infrastructure/persistence/model_catalog.py\<close>.
  \<^item> \<open>Database\<close>, \<open>Run_State\<close>, \<open>Run_Outcomes\<close>: the tables of
    \<open>infrastructure/persistence/execution.py\<close> and of the migrations under \<open>src/alembic\<close>, the
    consistency invariant \<open>wf_db\<close>, and \<open>run_outcomes.py\<close>.
  \<^item> \<open>Schema\<close>: the operations of the six migrations and what they do to a schema, the plan
    Alembic makes of them, and the mapped classes with the naming policy of
    \<open>infrastructure/persistence/base.py\<close>. \<open>Integrity\<close>: the rows of the model as SQL values and
    what the schema demands of them, kept by every step.
  \<^item> \<open>Submission\<close>, \<open>Acceptance\<close>, \<open>Consumption\<close>, \<open>Publication\<close>, \<open>Execution\<close>: the use
    cases of \<open>application/runs/\<close> over their SQL, Kafka and record ports.
  \<^item> \<open>Envelope\<close>: \<open>infrastructure/request_envelope.py\<close>.
  \<^item> \<open>Users\<close>: \<open>application/users/\<close> and the user repositories.
  \<^item> \<open>System\<close>: the step relation \<open>sys_step\<close> of all processes over one database; a step is one
    transaction, and a claim is two steps because other commits fall between its check and its
    update.
  \<^item> \<open>Queries\<close>, \<open>Feed\<close>, \<open>Notifications\<close>, \<open>Live\<close>: reading runs, the feed of
    \<open>application/runs/feed.py\<close>, the triggers and the listener, and the relation \<open>live_step\<close> that
    interleaves system commits with notifications, reads, snapshots and streams.
  \<^item> \<open>Kubernetes\<close>: \<open>infrastructure/kubernetes_jobs.py\<close>, \<open>job_renderer.py\<close>,
    \<open>model_jobs.py\<close>, \<open>s3_artifacts.py\<close>.
  \<^item> \<open>Oidc\<close>, \<open>Access\<close>: \<open>infrastructure/authentication/oidc.py\<close>, \<open>core/\<close>,
    \<open>api/dependencies/\<close>, \<open>api/routes/\<close>.
  \<^item> \<open>Processes\<close>: \<open>worker.py\<close>, \<open>publisher.py\<close>, \<open>execution_loop.py\<close>,
    \<open>infrastructure/kafka_consumption.py\<close>.
  \<^item> \<open>Locks\<close>: \<open>SqlAlchemyExecutions.locked\<close> in \<open>infrastructure/persistence/run_execution.py\<close>,
    a server of session locks with open transactions and lost connections, and the relation
    \<open>lock_step\<close> of its coordinators.
  \<^item> \<open>Configuration\<close>: the settings classes of \<open>core/\<close>, the database URL, the options of the
    engine (\<open>infrastructure/database.py\<close>) and of the Kafka clients.
  \<^item> \<open>Lifecycle\<close>: \<open>process.py\<close>, \<open>execution_runtime.py\<close>, the \<open>main\<close> functions of
    \<open>worker.py\<close> and \<open>publisher.py\<close> and the online migration of \<open>src/alembic/env.py\<close>; each
    returns its result with the log of what it opened and closed.
  \<^item> \<open>Application\<close>: \<open>main.py\<close>, \<open>api/router.py\<close>, \<open>api/dependencies/\<close>,
    \<open>api/schemas/runs.py\<close>, the end of a stream and the reconnecting listener of
    \<open>infrastructure/run_notifications.py\<close>.
  \<^item> \<open>Release\<close>, \<open>Delivery\<close>: \<open>src/scripts/release_record.py\<close>,
    \<open>execution_delivery.py\<close>, \<open>bootstrap_execution_identity.py\<close>.
  \<^item> \<open>Operators\<close>: \<open>cli.py\<close>, \<open>cli_runs.py\<close> and \<open>src/scripts/deployment_check.py\<close>.
  \<^item> \<open>Commands\<close>: the \<open>main\<close> functions of the three scripts under \<open>src/scripts/\<close> that take
    part in a delivery, and the JSON of the model listing and of a run that is read.
  \<^item> \<open>Scenario\<close>, \<open>Encounters\<close>, \<open>Installation\<close>: one run followed through the system,
    concrete surroundings for the adapters, and a concrete environment with its application, worker
    and coordinators; they give the properties concrete inputs.

  \<^bold>\<open>Correspondence.\<close> A class or dataclass is a record, an enum a datatype, a UUID a 128-bit
  word, a time its instant in microseconds, a \<open>dict\<close> an association list where order matters. An
  exception is the left value of a sum. A session's transaction is a function on the database
  record that either commits or leaves it as it was. A call to code outside the repository
  (PyJWT, the Kubernetes client, Helm, boto3, librdkafka, Docker) is an argument of the definition
  that makes it. Interfaces between components are locales (the release store of the catalog, the
  submission store, the acceptance transaction, the rejection store and consumer, the outbox and
  publisher, the execution record, the feed's store), each interpreted on the SQL or Kafka
  definitions that provide it.

  \<^bold>\<open>What is shown.\<close> C1 to C5: every interleaving of the processes keeps the database
  consistent and within its schema, respects the capacity, only moves runs forward, records exactly
  one terminal event, and starts the oldest run. C6 and C7: the migrations build the schema the mapped
  classes declare, and every downgrade undoes its upgrade. C8 and C9: the catalog. C10 to C12:
  fingerprints, submission and the limits an installation configures. C13 to C18: acceptance,
  consumption, publication and the wire format. C19 to C21: execution and the lock of a
  coordinator. C22 to C24: users and errors. C25 to C29: reading runs and the live feed. C30 to C34:
  the adapters and the HTTP boundary. C35 to C37: the worker and the publisher, loops and
  lifecycle. C38 to C40: releases and delivery. Library lemmas without a number cover the remaining
  operations: reading a release back, role grants, the bootstrap, the deployment check, the routes,
  the JSON of a run and the waits of the listener.

  \<^bold>\<open>Bounds and loops.\<close> The loops of the processes and of a stream run over the list of what
  their turns meet; the end of the list is the stop event, so there is no fuel. Waiting for the
  broker ends at its deadline (C17), and so does the deployment check. SHA-256 is defined on all strings.
  The JSON scanner has fuel of twice the length of its text plus two, with which its result no longer
  depends on the fuel (\<open>scan_fuel\<close>); reading what \<open>dumps\<close> wrote succeeds (\<open>loads_dumps\<close>).

  \<^bold>\<open>Abstractions.\<close> Text holds code points below 256 and is ordered by code point; JSONB is
  kept as written; the session time zone is UTC; a float is its \<open>repr\<close>; token expiry is
  integral; bracketed hosts of URLs are taken as valid; row locks and transaction locks are
  atomic steps; notification triggers fire once per transaction for the net change of a run.

  \<^bold>\<open>Not modelled.\<close> Parsing of command line arguments, the text of what is printed or logged,
  response headers, and the constructors and providers that only hand their arguments to a library.
  How pydantic reads a field from text, what a broker, a cluster or a database answers, the delivery
  of signals and the scheduling of threads are arguments. The offline migration only prints SQL. The
  parsers of dates and of network addresses and the YAML reader are arguments.
\<close>

section \<open>The system as a whole\<close>

text \<open>
  C1. Every state the interleaved processes can reach is consistent: identifiers are unique, each
  run's timestamps, failure code and Job identity agree with its status, its outbox holds its
  request and exactly one terminal event once it is finished, artifacts belong to finished runs,
  stored releases decode, and accepted unfinished runs still match their release. Read as SQL values
  it satisfies the schema the migrations create: every type, null, key, reference and check.
\<close>

theorem reachable_consistent:
  assumes "0 \<le> capacity" and "(sys_step capacity)\<^sup>*\<^sup>* initial_system s"
    and "upgrade_all revisions empty_schema = Some head"
  shows "wf_db (sys_db s) \<and> schema_satisfied (sys_db s) head"
proof -
  from assms(3) upgrade_all_mset [OF refl] have "head = stage (length revisions)" by simp
  with reachable_satisfied [OF assms(1,2)] sys_reachable [OF assms(2,1)] show ?thesis by (simp add: sys_inv_def)
qed

theorem reachable_consistent_witness:
  "\<exists>head. upgrade_all revisions empty_schema = Some head
    \<and> wf_db (sys_db \<lparr>sys_db = demo_running, claiming = None\<rparr>) \<and> schema_satisfied (sys_db \<lparr>sys_db = demo_running, claiming = None\<rparr>) head"
proof -
  from upgrade_all_mset [OF refl] obtain head where h: "upgrade_all revisions empty_schema = Some head" by blast
  from reachable_consistent [OF _ demo_reach_running h] h show ?thesis by simp
qed

text \<open>
  C2. The number of running runs never exceeds the capacity, although other transactions commit
  between the check of the capacity and the start of the run.
\<close>

theorem capacity_respected:
  assumes "0 \<le> capacity" and "(sys_step capacity)\<^sup>*\<^sup>* initial_system s"
  shows "int (running_count (sys_db s)) \<le> capacity"
  using sys_reachable [OF assms(2,1)] by (simp add: sys_inv_def)

theorem capacity_respected_witness: "int (running_count demo_running) \<le> 1 \<and> running_count demo_running = 1"
  using capacity_respected [OF _ demo_reach_running] by (simp add: running_count_def demo_defs)

text \<open>
  C3. From any reachable state, whatever happens next, a run keeps what was requested, its status
  only moves up in the lifecycle order, a decided acceptance and a recorded Job identity stay, and
  a finished run's row never changes again.
\<close>

theorem runs_only_advance:
  assumes "0 \<le> capacity" and "(sys_step capacity)\<^sup>*\<^sup>* initial_system s" and "(sys_step capacity)\<^sup>*\<^sup>* s s'"
    and "find_run i (sys_db s) = Some r"
  shows "\<exists>r'. find_run i (sys_db s') = Some r' \<and> same_request r r' \<and> r_status r \<le> r_status r'
    \<and> (r_accepted_at r \<noteq> None \<longrightarrow> r_accepted_at r' = r_accepted_at r)
    \<and> (r_job_uid r \<noteq> None \<longrightarrow> r_job_uid r' = r_job_uid r)
    \<and> (r_status r \<in> set terminal_statuses \<longrightarrow> r' = r)"
proof -
  have "sys_inv capacity s" using sys_reachable [OF assms(2,1)] by blast
  from sys_steps_keep [OF assms(3) this] assms(4) obtain r' where
    "find_run i (sys_db s') = Some r'" and "row_advance r r'" by (auto simp: runs_advance_def)
  then show ?thesis by (auto simp: row_advance_def)
qed

theorem runs_only_advance_witness:
  "\<exists>r'. find_run 20 demo_accepted = Some r' \<and> same_request demo_run r' \<and> QUEUED \<le> r_status r'"
proof -
  have "find_run 20 (sys_db \<lparr>sys_db = demo_submitted, claiming = None\<rparr>) = Some demo_run"
    by (simp add: find_by_def demo_defs)
  from runs_only_advance [OF _ demo_reach_submitted demo_steps_accepted this]
  show ?thesis by (auto simp: demo_run_def)
qed

text \<open>
  C4. In every reachable state the outbox tells each run's story exactly: its request, followed by
  one terminal event naming its final status once it is finished, and nothing else.
\<close>

theorem outbox_tells_the_run:
  assumes "0 \<le> capacity" and "(sys_step capacity)\<^sup>*\<^sup>* initial_system s" and "find_run i (sys_db s) = Some r"
  shows "run_events (sys_db s) i = ''run.requested'' #
    (if r_status r \<in> set terminal_statuses then [''run.'' @ status_str (r_status r)] else [])"
proof -
  from sys_reachable [OF assms(2,1)] have "wf_runs (sys_db s)" by (simp add: sys_inv_def wf_dbD)
  with find_by_Some [OF assms(3)] show ?thesis by (auto dest: wf_runsD(8) simp: expected_events_def)
qed

theorem outbox_tells_the_run_witness:
  "run_events demo_running 20 = [''run.requested''] \<and> find_run 20 demo_running \<noteq> None"
proof -
  have "find_run 20 (sys_db \<lparr>sys_db = demo_running, claiming = None\<rparr>)
      = Some (demo_run\<lparr>r_accepted_at := Some 300, r_status := RUNNING, r_dispatch_started_at := Some 400,
          r_job_namespace := Some ''models''\<rparr>)"
    by (simp add: demo_defs)
  from outbox_tells_the_run [OF _ demo_reach_running this] this show ?thesis
    by (simp add: terminal_statuses_def)
qed

text \<open>
  C5. In every reachable state with a free slot and an accepted queued run, a claim starts a run:
  the oldest one by creation time and identifier. It is never failed for a changed definition.
\<close>

theorem claim_starts_oldest:
  assumes "0 \<le> capacity" and "(sys_step capacity)\<^sup>*\<^sup>* initial_system s"
    and "int (running_count (sys_db s)) < capacity"
    and "x \<in> set (runs_t (sys_db s))" and "r_status x = QUEUED" and "r_accepted_at x \<noteq> None"
  shows "\<exists>c d'. claim_next st ns capacity (\<lambda>d. d) (sys_db s) = (Inr (Some (r_id c)), d')
    \<and> c \<in> set (runs_t (sys_db s)) \<and> run_order c \<le> run_order x
    \<and> find_run (r_id c) d' = Some (start_row st ns c) \<and> int (running_count d') \<le> capacity"
proof -
  from sys_reachable [OF assms(2,1)] have wf: "wf_db (sys_db s)" by (simp add: sys_inv_def)
  let ?q = "filter (\<lambda>r. r_status r = QUEUED \<and> r_accepted_at r \<noteq> None) (runs_t (sys_db s))"
  have "x \<in> set ?q" using assms(4-6) by simp
  from first_of_sort [OF this, of run_order] obtain c where c: "claim_candidate capacity (sys_db s) = Some c"
    using assms(3) by (auto simp: claim_candidate_def)
  note k = claim_candidate_Some [OF c]
  have row: "find_run (r_id c) (sys_db s) = Some c"
    by (rule find_run_mem [OF wf_runsD(1) [OF wf_dbD(1) [OF wf]] k(2)])
  have "claim_next st ns capacity (\<lambda>d. d) (sys_db s)
      = (Inr (Some (r_id c)), update_run (r_id c) (start_row st ns) (sys_db s))"
    using claim_locked_eq [OF wf row refl, of st ns] k(3,4) c by (simp add: claim_next_def transaction_commit)
  moreover have "find_run (r_id c) (update_run (r_id c) (start_row st ns) (sys_db s)) = Some (start_row st ns c)"
    using row by (simp add: find_run_update_run start_row_def)
  moreover have "int (running_count (update_run (r_id c) (start_row st ns) (sys_db s))) \<le> capacity"
    using start_row_keeps(3) [OF wf row k(3,4), of st ns] k(1) by simp
  ultimately show ?thesis using k(2,5) assms(4-6) by blast
qed

theorem claim_starts_oldest_witness:
  "\<exists>(c :: run_row) d'. claim_next (at 400 32) ''models'' 1 (\<lambda>d. d) demo_accepted = (Inr (Some (r_id c)), d')"
proof -
  let ?s = "\<lparr>sys_db = demo_accepted, claiming = None\<rparr>" and ?x = "demo_run\<lparr>r_accepted_at := Some 300\<rparr>"
  have "int (running_count (sys_db ?s)) < 1" "?x \<in> set (runs_t (sys_db ?s))" "r_status ?x = QUEUED" "r_accepted_at ?x \<noteq> None"
    by (simp_all add: running_count_def demo_defs)
  from claim_starts_oldest [OF zero_le_one demo_reach_accepted this, of "at 400 32" "''models''"]
  show ?thesis by (simp only: system.simps) blast
qed

section \<open>The schema\<close>

text \<open>
  C6. In whatever order the migration files are listed, upgrading an empty database succeeds and
  creates the tables, keys, references, checks and indexes that the mapped classes declare, seeds
  the two roles and no assignment, and installs the notification triggers of runs and artifacts.
\<close>

theorem migrations_build_mapped_schema:
  assumes "mset rs = mset revisions"
  shows "\<exists>head. upgrade_all rs empty_schema = Some head \<and> mapped_schema head
    \<and> sc_roles head = map (\<lambda>r. (ro_name r, ro_description r)) (seeded_roles t1 t2) \<and> sc_user_roles head = []
    \<and> map (\<lambda>g. (tg_table g, tg_function g)) (sc_triggers head)
        = [(''runs'', ''mic3_notify_run_change''), (''run_artifacts'', ''mic3_notify_run_change'')]"
proof -
  have six: "length revisions = 6" by (simp add: revisions_def)
  from head_ok_stage have "mapped_schema (stage 6) \<and> seeded (stage 6)" by (simp only: head_ok_def)
  with upgrade_all_mset [OF assms, unfolded six] show ?thesis by (auto simp: seeded_def seeded_roles_def)
qed

theorem migrations_build_mapped_schema_witness:
  "\<exists>head. upgrade_all (rev revisions) empty_schema = Some head \<and> mapped_schema head"
  using migrations_build_mapped_schema [of "rev revisions"] by auto

text \<open>
  C7. Every downgrade undoes its upgrade exactly, whatever roles users hold by then: dropping the
  first schema drops the assignments, removing the administrator role removes its assignments
  before it, and every later downgrade leaves assignments alone.
\<close>

theorem downgrade_undoes_upgrade:
  assumes "k < length revisions"
  shows "migrate (rev_upgrade (revisions ! k)) (stage k) = Some (stage (Suc k))
    \<and> migrate (rev_downgrade (revisions ! k)) ((stage (Suc k))\<lparr>sc_user_roles := held\<rparr>)
        = Some ((stage k)\<lparr>sc_user_roles := (if k = 0 then [] else if k = 1 then filter (\<lambda>(u, r). r \<noteq> ''admin'') held else held)\<rparr>)"
  using stage_Suc [OF assms] downgrade_stage [OF assms, of held]
  by (simp add: assign_def remaining_assignments_def ADMIN_ROLE_def)

theorem downgrade_undoes_upgrade_witness:
  "migrate downgrade_0002 ((stage 2)\<lparr>sc_user_roles := [(7, ''member''), (7, ''admin'')]\<rparr>)
    = Some ((stage 1)\<lparr>sc_user_roles := [(7, ''member'')]\<rparr>)"
  using downgrade_undoes_upgrade [of 1 "[(7, ''member''), (7, ''admin'')]"]
  by (simp add: revisions_def revision_0002_def numeral_2_eq_2)

section \<open>The catalog\<close>

text \<open>
  C8. Registering a release, whatever its configuration and outcome, leaves every accepted
  unfinished run with a release that still computes its fingerprint.
\<close>

theorem registration_protects_runs:
  assumes "0 \<le> capacity" and "(sys_step capacity)\<^sup>*\<^sup>* initial_system s"
    and "register_release (register st) config (sys_db s) = (res, d')"
    and "r \<in> set (runs_t (sys_db s))" and "r_accepted_at r \<noteq> None" and "r_status r \<in> set active_statuses"
  shows "\<exists>rel def. find_release (r_model_release_id r) d' = Some rel \<and> load_release_definition d' rel = Inr def
    \<and> matches_fingerprint def (r_parameters r) (r_fingerprint r) = Inr True"
proof -
  from sys_reachable [OF assms(2,1)] have "wf_db (sys_db s)" by (simp add: sys_inv_def)
  from sql_catalog.register_release_inv [OF this, of st config] assms(3) have "protected_runs d'" by (simp add: wf_dbD)
  with assms(4-6) register_release_runs [OF assms(3)] show ?thesis
    by (simp add: protected_runs_def accepted_unfinished_def run_compatible_def)
qed

theorem registration_protects_runs_witness:
  "\<exists>rel def d'. d' = snd (register_release (register (at 600 11)) JNull demo_running)
    \<and> find_release 10 d' = Some rel \<and> load_release_definition d' rel = Inr def
    \<and> matches_fingerprint def (mode_params ''fast'') demo_digest = Inr True"
proof -
  let ?r = "demo_run\<lparr>r_accepted_at := Some 300, r_status := RUNNING, r_dispatch_started_at := Some 400,
      r_job_namespace := Some ''models''\<rparr>"
  have "?r \<in> set (runs_t (sys_db \<lparr>sys_db = demo_running, claiming = None\<rparr>))" "r_accepted_at ?r \<noteq> None"
      "r_status ?r \<in> set active_statuses"
    by (simp_all add: demo_defs active_statuses_def)
  from registration_protects_runs [OF _ demo_reach_running prod.collapse [symmetric] this, of "at 600 11" JNull]
  show ?thesis by (simp add: demo_run_def)
qed

text \<open>
  C9. A required output that passes validation stays inside the output prefix: it is relative,
  has no wildcard or control character, and none of its components is empty, \<open>.\<close> or \<open>..\<close>.
\<close>

theorem required_output_confined:
  assumes "outputs_from_list j = Inr reqs" and "p \<in> set (required_files reqs)"
  shows "p \<noteq> [] \<and> hd p \<noteq> CHR ''/'' \<and> (\<forall>c \<in> set (split_on CHR ''/'' p). c \<notin> {[], ''.'', ''..''})
    \<and> (\<forall>c \<in> set p. 32 \<le> ord c \<and> c \<notin> set wildcard_chars)"
proof -
  from assms have wf: "wf_output_path p" by (auto simp: outputs_from_list_Inr list_all_iff)
  then have ok: "p \<noteq> []" "\<not> posix_is_absolute p" "posix_str p = p" "p \<noteq> ''.''" "''..'' \<notin> set (posix_parts p)"
    and chars: "\<forall>c \<in> set p. 32 \<le> ord c \<and> c \<notin> set wildcard_chars"
    by (auto simp: wf_output_path_def bad_output_path_def list_ex_iff not_less)
  note comp = posix_normal_components [OF ok(2,3,4)]
  have "hd p \<noteq> CHR ''/''"
    using ok(1,2) by (cases p) (auto simp: posix_is_absolute_def posix_root_def starts_with_def)
  with ok(1,5) comp chars show ?thesis by auto
qed

theorem required_output_confined_witness:
  "outputs_from_list (JList [JStr ''maps/depth.tif'']) = Inr \<lparr>required_files = [''maps/depth.tif'']\<rparr>
   \<and> hd ''maps/depth.tif'' \<noteq> CHR ''/'' \<and> {[], ''.'', ''..''} \<inter> set (split_on CHR ''/'' ''maps/depth.tif'') = {}"
proof -
  have ok: "outputs_from_list (JList [JStr ''maps/depth.tif'']) = Inr \<lparr>required_files = [''maps/depth.tif'']\<rparr>"
    by code_simp
  from required_output_confined [OF ok, of "''maps/depth.tif''"] ok show ?thesis by (simp del: split_on.simps) blast
qed

section \<open>Fingerprints and submission\<close>

text \<open>
  C10. Unless SHA-256 collides on the two canonical texts, two runs have the same fingerprint only
  if they select the same mode of the same model and image with the same arguments and directories;
  required outputs play no part in it.
\<close>

theorem fingerprint_identifies_computation:
  assumes "fingerprint r (mode_params m) = Inr f" and "fingerprint r' (mode_params m') = Inr f"
    and "map_of (modes (rd_execution_definition r)) m = Some i"
    and "map_of (modes (rd_execution_definition r')) m' = Some i'"
    and no_collision: "sha256_hexdigest (run_text (rd_model_id r) (rd_image_digest r) i m)
        = sha256_hexdigest (run_text (rd_model_id r') (rd_image_digest r') i' m') \<Longrightarrow>
      run_text (rd_model_id r) (rd_image_digest r) i m = run_text (rd_model_id r') (rd_image_digest r') i' m'"
  shows "rd_model_id r = rd_model_id r' \<and> rd_image_digest r = rd_image_digest r' \<and> m = m'
    \<and> computation_dict i = computation_dict i'"
proof -
  have "run_text (rd_model_id r) (rd_image_digest r) i m = run_text (rd_model_id r') (rd_image_digest r') i' m'"
    using assms by (simp add: fingerprint_mode_params run_digest_def)
  then show ?thesis by (simp add: run_text_inject computation_dict_def)
qed

theorem fingerprint_identifies_computation_witness:
  "computation_dict demo_invocation = computation_dict (demo_invocation\<lparr>output_requirements := \<lparr>required_files = []\<rparr>\<rparr>)"
proof -
  let ?r = "demo_release\<lparr>rd_execution_definition := \<lparr>modes = [(''fast'', demo_invocation\<lparr>output_requirements := \<lparr>required_files = []\<rparr>\<rparr>)]\<rparr>\<rparr>"
  have same: "run_text ''flood'' demo_image (demo_invocation\<lparr>output_requirements := \<lparr>required_files = []\<rparr>\<rparr>) ''fast''
      = run_text ''flood'' demo_image demo_invocation ''fast''"
    by (rule run_text_ignores_requirements)
  have "fingerprint ?r (mode_params ''fast'') = Inr demo_digest"
    by (simp add: fingerprint_mode_params demo_release_def demo_digest_def run_digest_def same)
  from fingerprint_identifies_computation [OF demo_fingerprint this, of demo_invocation] show ?thesis
    by (simp add: demo_release_def demo_execution_def same)
qed

text \<open>
  C11. A submission commits a queued run together with its request event, or changes nothing.
\<close>

theorem submission_atomic:
  assumes "submit limits st i rid params owner d = (res, d')"
  shows "case res of
      Inl e \<Rightarrow> d' = d
    | Inr q \<Rightarrow> i \<notin> r_id ` set (runs_t d) \<and> q_requested_by q = owner
        \<and> runs_t d' = runs_t d @ [run_row_of st q] \<and> r_status (run_row_of st q) = QUEUED
        \<and> outbox_t d' = outbox_t d @ [outbox_row_of st i ''run.requested'']"
proof (cases res)
  case (Inl e)
  with sql_submissions.submit_atomic [OF assms [unfolded submit_def]] show ?thesis by simp
next
  case (Inr q)
  with submit_rows [OF assms [unfolded Inr]] show ?thesis by (simp add: run_row_of_def)
qed

theorem submission_atomic_witness:
  "runs_t demo_submitted = runs_t demo_registered @ [demo_run] \<and> 20 \<notin> r_id ` set (runs_t demo_registered)"
  using submission_atomic [OF demo_submit] by (simp add: run_row_of_def demo_run_def at_def)

text \<open>
  C12. An application started from its environment carries out its limits: a posted run that is
  answered leaves its owner and the platform within the configured numbers, and the event feed has
  room for at least one stream and one pending run. Execution settings that are read name a usable
  cluster access, valid engine timeouts and between 1 and 100 slots.
\<close>

theorem configured_limits_hold:
  assumes "create_app env None validator = Inr app" and "submit_endpoint app st i body user d = (Inr r, d')"
  shows "read_settings env = Inr (ap_settings app)
    \<and> int (owned_active_count (Some (cu_id user)) d') \<le> as_run_max_active_per_user (ap_settings app)
    \<and> int (active_count d') \<le> as_run_max_active_global (ap_settings app)
    \<and> 0 < fd_per_user (ap_feed app) \<and> 0 < fd_total (ap_feed app) \<and> 0 < fd_pending_limit (ap_feed app)
    \<and> (\<forall>x. read_execution_settings env = Inr x \<longrightarrow> 1 \<le> xs_capacity x \<and> xs_capacity x \<le> 100
        \<and> (\<exists>k. connect_config (xs_kubeconfig x) (xs_context x) = Inr k)
        \<and> (\<exists>args. connect_args (Some (ws_statement_timeout_ms (xs_worker x))) (Some (ws_lock_timeout_ms (xs_worker x))) = Inr args))"
proof -
  have "1 \<le> xs_capacity x \<and> xs_capacity x \<le> 100 \<and> (\<exists>k. connect_config (xs_kubeconfig x) (xs_context x) = Inr k)
      \<and> (\<exists>args. connect_args (Some (ws_statement_timeout_ms (xs_worker x))) (Some (ws_lock_timeout_ms (xs_worker x))) = Inr args)"
    if x: "read_execution_settings env = Inr x" for x
  proof -
    from read_worker_Inr [OF read_execution_Inr(8) [OF x]] have
      "timeout_ms_ok (ws_statement_timeout_ms (xs_worker x))" "timeout_ms_ok (ws_lock_timeout_ms (xs_worker x))" by blast+
    from connect_args_ok [OF this] read_execution_Inr(1,2,7) [OF x] show ?thesis by blast
  qed
  with create_app_Inr(3-5,7) [OF assms(1)] submit_endpoint_bounded [OF assms] show ?thesis by blast
qed

theorem configured_limits_hold_witness:
  "int (owned_active_count (Some 5) owned_submitted) \<le> 5 \<and> int (active_count owned_submitted) \<le> 20"
proof -
  from demo_submit_endpoint obtain r where
    "submit_endpoint demo_app (at 200 30) 20 demo_body demo_owner owned_registered = (Inr r, owned_submitted)" by blast
  from configured_limits_hold [OF conjunct1 [OF demo_create] this] show ?thesis by (simp add: demo_owner_def demo_create)
qed

section \<open>Acceptance and consumption\<close>

text \<open>
  C13. Acceptance decides a queued run by its fingerprint: it is accepted if its release still
  computes it, failed otherwise, and a run already decided is left alone.
\<close>

theorem acceptance_decides:
  assumes "execute_with_outcome st i d = (Inr a, d')"
  shows "\<exists>r. find_run i d = Some r \<and> (
      ac_outcome a = ''unchanged'' \<and> d' = d \<and> (r_accepted_at r \<noteq> None \<or> r_status r \<noteq> QUEUED)
    \<or> ac_outcome a = ''accepted'' \<and> run_compatible d r \<and> r_status r = QUEUED \<and> r_accepted_at r = None
        \<and> (\<exists>r'. find_run i d' = Some r' \<and> r_status r' = QUEUED \<and> r_accepted_at r' = Some (st_clock st))
    \<or> ac_outcome a = ''failed-run'' \<and> \<not> run_compatible d r \<and> r_status r = QUEUED \<and> r_accepted_at r = None
        \<and> (\<exists>r'. find_run i d' = Some r' \<and> r_status r' = FAILED
              \<and> r_failure_code r' = Some ''execution_definition_changed''))"
  using assms
proof (cases rule: execute_with_outcome_cases)
  case (unchanged row)
  then show ?thesis by blast
next
  case (accepted row)
  from find_by_Some [OF accepted(1)] have "r_id row = i" by blast
  with accepted show ?thesis by (simp add: find_run_update_run)
next
  case (failed row d1)
  from find_by_Some [OF failed(1)] have "r_id row = i" by blast
  with failed finish_row_find_run [OF failed(6), of i] show ?thesis
    by (simp add: find_run_update_run terminal_statuses_def) (simp add: finished_def outcome_status_def truthy_def)
qed

theorem acceptance_decides_witness:
  "\<exists>a r'. execute_with_outcome (at 300 31) 20 demo_submitted = (Inr a, demo_accepted)
    \<and> find_run 20 demo_accepted = Some r' \<and> r_accepted_at r' = Some 300"
proof -
  from demo_accept_run obtain a where a: "execute_with_outcome (at 300 31) 20 demo_submitted = (Inr a, demo_accepted)"
    "ac_outcome a = ''accepted''" by blast
  from acceptance_decides [OF a(1)] a show ?thesis by (auto simp: at_def)
qed

text \<open>
  C14. Delivering a handled record again changes nothing in the database, whatever the later
  clock and identifiers: a rejected record is rejected again, any other reports \<open>unchanged\<close>.
  A record whose handling raised left no trace.
\<close>

theorem redelivery_harmless:
  assumes "consume st loc req d = (res, d')"
  shows "case res of
      Inl e \<Rightarrow> d' = d
    | Inr out \<Rightarrow> consume st' loc req d' = (Inr (if out = ''rejected'' then out else ''unchanged''), d')"
proof (cases res)
  case (Inl e)
  with sql_consumer.consume_fail [OF assms [unfolded consume_def Inl]] show ?thesis by simp
next
  case (Inr out)
  with sql_consumer.redelivery [OF assms [unfolded consume_def Inr], of st'] show ?thesis
    by (simp add: consume_def)
qed

theorem redelivery_harmless_witness:
  "consume (at 900 77) demo_location (Inl 20) demo_accepted = (Inr ''unchanged'', demo_accepted)"
  using redelivery_harmless [OF demo_consume, of "at 900 77"] by simp

section \<open>Publication\<close>

text \<open>
  C15. The outbox is published at least once: if every marked event has been acknowledged by the
  broker before a round of the publisher, the same holds after it, whichever event fails and
  whether or not the commit succeeds; a failed round leaves the database as it was.
\<close>

theorem publication_at_least_once:
  assumes "\<And>i. i \<in> marked_events d \<Longrightarrow> \<exists>e. ev_id e = i \<and> kafka_message rt et e \<in> set (acknowledged w)"
    and "sql_publish_outbox taken clock commit (kafka_publish rt et deadline) n (d, w) = (res, d', w')"
  shows "(\<forall>i \<in> marked_events d'. \<exists>e. ev_id e = i \<and> kafka_message rt et e \<in> set (acknowledged w'))
    \<and> (case res of Inl e \<Rightarrow> d' = d | Inr k \<Rightarrow> k = length (fst (claim_outbox taken n d)))"
proof -
  note p = assms(2) [unfolded sql_publish_outbox_def]
  have "sql_outbox.confirmed rt et d w" using assms(1) by (simp add: sql_outbox.confirmed_def)
  from sql_outbox.publish_outbox_confirmed [OF this p] have "sql_outbox.confirmed rt et d' w'" .
  moreover have "case res of Inl e \<Rightarrow> d' = d | Inr k \<Rightarrow> k = length (fst (claim_outbox taken n d))"
    using sql_outbox.publish_outbox_fail [of taken clock commit rt et deadline n d w _ d' w']
      sql_outbox.publish_outbox_ok [of taken clock commit rt et deadline n d w _ d' w'] p
    by (cases res) auto
  ultimately show ?thesis by (simp add: sql_outbox.confirmed_def)
qed

theorem publication_at_least_once_witness:
  "\<exists>d' w'. sql_publish_outbox (\<lambda>_. False) (\<lambda>_. 700) (\<lambda>_. None) (kafka_publish ''req'' ''ev'' 10) 5
      (demo_submitted, \<lparr>acknowledged = [], responses = [Polls [(1, Some Acknowledged)]]\<rparr>) = (Inr 1, d', w')
    \<and> marked_events d' = {30} \<and> (\<exists>e. ev_id e = 30 \<and> kafka_message ''req'' ''ev'' e \<in> set (acknowledged w'))"
proof -
  let ?w = "\<lparr>acknowledged = [], responses = [Polls [(1, Some Acknowledged)]]\<rparr>"
  let ?r = "sql_publish_outbox (\<lambda>_. False) (\<lambda>_. 700) (\<lambda>_. None) (kafka_publish ''req'' ''ev'' 10) 5 (demo_submitted, ?w)"
  have "marked_events demo_submitted = {}" by (simp add: marked_events_def demo_defs)
  then have "\<And>i. i \<in> marked_events demo_submitted \<Longrightarrow>
      \<exists>e. ev_id e = i \<and> kafka_message ''req'' ''ev'' e \<in> set (acknowledged ?w)" by simp
  note ok = publication_at_least_once [OF this]
  have "fst ?r = Inr 1 \<and> marked_events (fst (snd ?r)) = {30}"
    by (simp add: sql_publish_outbox_def publish_outbox_def claim_outbox_def unpublished_def event_of_row_def
        kafka_publish_def supported_event_types_def mark_published_def update_by_def marked_events_def demo_defs) force
  with ok [where taken = "\<lambda>_. False" and clock = "\<lambda>_. 700" and commit = "\<lambda>_. None" and deadline = 10 and n = 5
      and res = "fst ?r" and d' = "fst (snd ?r)" and w' = "snd (snd ?r)"] show ?thesis
    by (intro exI [of _ "fst (snd ?r)"] exI [of _ "snd (snd ?r)"]) (simp add: prod_eq_iff)
qed

text \<open>
  C16. What the publisher writes the worker reads: a message Kafka acknowledged decodes, key and
  value, to the run it requests, and a terminal event is rejected as unsupported rather than
  executed. The message goes to the requests topic exactly for a request. The runtime is assumed
  to read back the event's own timestamp.
\<close>

theorem wire_roundtrip:
  assumes "kafka_publish rt et deadline e w = (Inr u, w')"
    and "parse_time (isoformat (ev_created_at e)) = Some True" and "1 \<le> max_depth"
  shows "\<exists>topic k v. acknowledged w' = acknowledged w @ [(topic, k, v)]
    \<and> topic = (if ev_event_type e = ''run.requested'' then rt else et)
    \<and> decode_request parse_time max_depth (Some k) (Some v)
      = (if ev_event_type e = ''run.requested'' then Inl (ev_run_id e) else Inr bad_event)"
  using kafka_publish_acknowledged [OF assms(1)] decode_payload [of max_depth parse_time e] assms(2,3)
  by (simp add: event_topic_def)

theorem wire_roundtrip_witness:
  "\<exists>w'. kafka_publish ''requests'' ''events'' 5 demo_event demo_broker = (Inr (), w')
    \<and> (\<exists>k v. acknowledged w' = [(''requests'', k, v)] \<and> decode_request demo_time 100 (Some k) (Some v) = Inl 20)"
proof -
  have "fst (kafka_publish ''requests'' ''events'' 5 demo_event demo_broker) = Inr ()"
    by (simp add: kafka_publish_def demo_broker_def demo_event_def supported_event_types_def)
  then obtain w' where w: "kafka_publish ''requests'' ''events'' 5 demo_event demo_broker = (Inr (), w')"
    by (metis prod.collapse)
  show ?thesis
    using w wire_roundtrip [OF w, of demo_time 100] by (auto simp: demo_broker_def demo_event_def)
qed

text \<open>
  C17. Waiting for the broker ends: as soon as one poll happens at or after the deadline the wait
  has returned, with an acknowledgement or a publication error.
\<close>

theorem await_delivery_ends:
  assumes "p \<in> set polls" and "deadline \<le> fst p"
  shows "\<exists>r. await_delivery deadline polls = Some r \<and> (r = Inr () \<or> (\<exists>m. r = Inl (PublicationError m)))"
proof -
  from await_delivery_bounded [OF assms] obtain r where r: "await_delivery deadline polls = Some r" by blast
  then show ?thesis by (cases r) (auto dest: await_delivery_error)
qed

theorem await_delivery_ends_witness:
  "await_delivery 10 [(3, None), (11, None)] = Some (Inl (PublicationError ''Kafka acknowledgement timed out.''))
   \<and> (\<exists>r. await_delivery 10 [(3, None), (11, None)] = Some r)"
  using await_delivery_ends [of "(11, None)" "[(3, None), (11, None)]" 10] by auto

text \<open>
  C18. Every Kafka record, whatever its bytes, is a run identifier that its key repeats or one of
  the five rejections, and a rejection is always recorded durably under the record's location:
  its code and diagnostic fit their columns. No record can stop the worker for good.
\<close>

theorem every_record_settles:
  assumes "0 \<le> l_partition l" "l_partition l < 2 ^ 31" "0 \<le> l_offset l" "l_offset l < 2 ^ 63"
  shows "case decode_request parse_time max_depth key body of
      Inl i \<Rightarrow> key = Some (uuid_str i)
    | Inr rej \<Rightarrow> rej \<in> set envelope_rejections \<and> (\<exists>d'. consume st l (Inr rej) d = (Inr ''rejected'', d')
        \<and> (l_topic l, l_partition l, l_offset l) \<in> location_key ` set (rejected_t d'))"
proof (cases "decode_request parse_time max_depth key body")
  case (Inl i)
  then show ?thesis by (simp add: decode_request_key)
next
  case (Inr rej)
  then have rej: "rej \<in> set envelope_rejections" by (rule decode_request_rejection)
  obtain d' where "record_rejection st l rej d = (Inr (), d')"
    "(l_topic l, l_partition l, l_offset l) \<in> location_key ` set (rejected_t d')"
    using record_rejection_total [OF assms] envelope_rejections_fit [OF rej] by blast
  then show ?thesis using rej Inr by (auto simp: consume_def consume_request_def reject_def)
qed

theorem every_record_settles_witness:
  "decode_request demo_time 100 None None = Inr not_an_object
   \<and> (\<exists>d'. consume (at 300 31) demo_location (Inr not_an_object) demo_submitted = (Inr ''rejected'', d'))"
proof -
  have "decode_request demo_time 100 None None = Inr not_an_object"
    by (simp add: decode_request_def envelope_object_def)
  then show ?thesis
    using every_record_settles [where l = demo_location and parse_time = demo_time and max_depth = 100
        and key = None and body = None and st = "at 300 31" and d = demo_submitted]
    by (auto simp: demo_location_def)
qed

section \<open>Execution\<close>

text \<open>
  C19. Reconciliation moves a running run to succeeded only if the cluster reported its Job as
  succeeded and the inventory under the run's own prefix holds every required output, none of
  them empty; exactly the inventory is recorded as the run's artifacts. The cluster and the
  inventory are only assumed to name the failures they raise.
\<close>

theorem success_is_verified:
  assumes "\<And>work w as. fst (observe work w) \<noteq> Inl (ExecutionFailure [] as)"
    and "\<And>p w as. inventory p w \<noteq> Inl (ExecutionFailure [] as)"
    and "find_run i d = Some r" and "r_status r = RUNNING"
    and "reconcile acquired (\<lambda>d. d) st observe inventory i d w = (res, d', w')"
    and "find_run i d' = Some r'" and "r_status r' = SUCCEEDED"
  shows "\<exists>work ob prefix inv as. record_load i d = Inr (Some work) \<and> observe work w = (Inr ob, w')
    \<and> o_state ob = ''succeeded'' \<and> output_prefix work = Inr prefix \<and> inventory prefix w' = Inr as
    \<and> resolve (rd_execution_definition (w_release work)) (w_parameters work) = Inr inv
    \<and> (\<forall>path \<in> set (required_files (output_requirements inv)).
         \<exists>a \<in> set as. a_object_key a = prefix @ path \<and> 0 < a_size_bytes a)
    \<and> (\<exists>a \<in> set as. 0 < a_size_bytes a)
    \<and> artifacts_t d' = artifacts_t d @ map (artifact_row_of i) as"
proof -
  have "run_is RUNNING i d" "run_is SUCCEEDED i d'" using assms(3,4,6,7) by (auto simp: run_is_def)
  from reconcile_success [OF assms(1,2) this assms(5)] obtain work ob as where
    w: "record_load i d = Inr (Some work)" "observe work w = (Inr ob, w')" "o_state ob = ''succeeded''"
      "artifacts_t d' = artifacts_t d @ map (artifact_row_of i) as"
    and c: "collect (\<lambda>p. inventory p w') work = Inr as" by blast
  from collect_Inr [OF c] w show ?thesis by (metis size_of_pos)
qed

theorem success_is_verified_witness:
  "\<exists>d'. reconcile True (\<lambda>d. d) (at 500 31)
      (\<lambda>_ w. (Inr \<lparr>o_uid = ''uid-1'', o_state = ''succeeded'', o_failure_code = None\<rparr>, w :: unit))
      (\<lambda>_ _. Inr [demo_output]) 20 demo_running () = (Inr (), d', ())
    \<and> artifacts_t d' = [artifact_row_of 20 demo_output]"
proof -
  let ?obs = "\<lambda>_ w. (Inr \<lparr>o_uid = ''uid-1'', o_state = ''succeeded'', o_failure_code = None\<rparr>, w :: unit)"
  obtain r' where rec: "reconcile True (\<lambda>d. d) (at 500 31) ?obs (\<lambda>_ _. Inr [demo_output]) 20 demo_running ()
      = (Inr (), demo_succeeded, ())" and r': "find_run 20 demo_succeeded = Some r'" "r_status r' = SUCCEEDED"
    using demo_reconcile by blast
  have "find_run 20 demo_running = Some (demo_run\<lparr>r_accepted_at := Some 300, r_status := RUNNING,
      r_dispatch_started_at := Some 400, r_job_namespace := Some ''models''\<rparr>)" by (simp add: demo_defs)
  from success_is_verified [OF _ _ this _ rec r'] have "artifacts_t demo_succeeded = artifacts_t demo_running @ [artifact_row_of 20 demo_output]"
    by auto
  with rec show ?thesis by (simp add: demo_defs)
qed

text \<open>
  C20. The outputs of different runs never share a location: no object key lies under the output
  prefixes of two runs of validated releases.
\<close>

theorem outputs_isolated:
  assumes "release_config c = Inr (w_release v)" and "release_config c' = Inr (w_release w)"
    and "w_id v \<noteq> w_id w"
  shows "\<exists>p q. output_prefix v = Inr p \<and> output_prefix w = Inr q \<and> (\<forall>x y. p @ x \<noteq> q @ y)"
proof -
  note wf = release_config_wf [OF assms(1)] release_config_wf [OF assms(2)]
  from output_prefix_wf [OF wf(1)] obtain p where p: "output_prefix v = Inr p" by metis
  from output_prefix_wf [OF wf(2)] obtain q where q: "output_prefix w = Inr q" by metis
  from output_prefix_disjoint [OF wf p q] assms(3) p q show ?thesis by blast
qed

theorem outputs_isolated_witness:
  "\<exists>p q. output_prefix \<lparr>w_id = 1, w_release = demo_release, w_parameters = JNull, w_fingerprint = [], w_namespace = None, w_job_uid = None\<rparr> = Inr p
    \<and> output_prefix \<lparr>w_id = 2, w_release = demo_release, w_parameters = JNull, w_fingerprint = [], w_namespace = None, w_job_uid = None\<rparr> = Inr q
    \<and> p \<noteq> q"
  using outputs_isolated [of demo_config "\<lparr>w_id = 1, w_release = demo_release, w_parameters = JNull, w_fingerprint = [], w_namespace = None, w_job_uid = None\<rparr>"
      demo_config "\<lparr>w_id = 2, w_release = demo_release, w_parameters = JNull, w_fingerprint = [], w_namespace = None, w_job_uid = None\<rparr>"] demo_config_ok
  by (simp, metis append_Nil2)

text \<open>
  C21. However coordinators, lost connections and other transactions interleave, at most one
  coordinator with a live connection is inside the block of a run; a coordinator outside holds no
  lock and has nothing uncommitted; and leaving the block commits nothing the body left open.
\<close>

theorem one_coordinator_per_run:
  assumes "lock_step\<^sup>*\<^sup>* (no_coordinator d) c"
  shows "(\<forall>s t r. co_inside c s = Some r \<and> co_inside c t = Some r \<and> \<not> ls_lost (co_server c) s \<and> \<not> ls_lost (co_server c) t \<longrightarrow> s = t)
    \<and> (\<forall>s k n. co_inside c s = None \<longrightarrow> ls_held (co_server c) k \<noteq> Some (s, n) \<and> ls_pending (co_server c) s = None)
    \<and> (\<forall>s r. co_inside c s = Some r \<and> \<not> ls_lost (co_server c) s \<longrightarrow>
         ls_db (leave_locked s r (co_server c)) = ls_db (co_server c)
         \<and> ls_pending (leave_locked s r (co_server c)) s = None \<and> ls_held (leave_locked s r (co_server c)) (lock_key r) = None)"
proof -
  note inv = lock_reachable [OF assms]
  have "ls_held (leave_locked s r (co_server c)) (lock_key r) = None"
    if "co_inside c s = Some r" "\<not> ls_lost (co_server c) s" for s r
    using lock_invD(1) [OF inv that] that(2) by (simp add: leave_locked_def lock_defs)
  then show ?thesis using lock_exclusive [OF inv] lock_outside [OF inv] by (auto simp: leave_discards)
qed

theorem one_coordinator_per_run_witness:
  "co_inside demo_coordinators 0 = Some 20 \<and> fst (enter_locked 1 20 (co_server demo_coordinators)) = False
    \<and> ls_held (leave_locked 0 20 (co_server demo_coordinators)) (lock_key 20) = None"
proof -
  have "co_inside demo_coordinators 0 = Some 20" "\<not> ls_lost (co_server demo_coordinators) 0" by (simp_all add: demo_coordinators_def)
  with one_coordinator_per_run [OF demo_coordinators_reached] demo_second_refused show ?thesis by blast
qed

section \<open>Users and errors\<close>

text \<open>
  C22. Resolving an identity yields the stored account: a known identity keeps its user and roles,
  a new one becomes a user with exactly the member role; resolving it again returns the same user
  and changes nothing.
\<close>

theorem resolve_user_stable:
  assumes "wf_users d" and "current_user_of st st' (\<lambda>d. d) (\<lambda>d. d) i d = (Inr c, d')"
    and "find_by_identity (vi_issuer i) (vi_subject i) d = old"
  shows "wf_users d' \<and> current_user_of st2 st3 (\<lambda>d. d) (\<lambda>d. d) i d' = (Inr c, d')
    \<and> (case old of None \<Rightarrow> cu_roles c = [''member''] | Some a \<Rightarrow> cu_id c = ua_id a \<and> cu_roles c = sorted_list_of_set (ua_roles a))"
proof -
  have no_conflict: "resolve_once find_by_identity (create_with_identity_and_role st) (update_profile st) i d d
      \<noteq> Inl IdentityAlreadyAssignedError" if "old \<noteq> None"
    using that assms(3)
    by (auto simp: resolve_once_def synchronize_profile_def update_profile_def and_current_def as_current_user_def
        Let_def bind_res_Inl_iff split: if_splits)
  have none: "find_by_identity (vi_issuer i) (vi_subject i) d = None \<Longrightarrow>
      resolve_again find_by_identity (update_profile st') i d d = Inl IdentityProvisioningError"
    by (simp add: resolve_again_def)
  have once: "resolve_once find_by_identity (create_with_identity_and_role st) (update_profile st) i d d = Inr (c, d')"
    using assms(2,3) no_conflict none
    by (cases old) (auto simp: current_user_of_def resolve_current_user_def transaction.simps
        split: sum.splits prod.splits exn.splits)
  from sql_users.resolve_once_ok [OF assms(1) once] assms(3) obtain a where wf: "wf_users d'"
    and a: "find_by_identity (vi_issuer i) (vi_subject i) d' = Some a" "as_current_user a = Inr c"
      "\<not> has_changes (profile_updates a i)"
    and roles: "case old of None \<Rightarrow> ua_roles a = {MEMBER_ROLE} | Some a0 \<Rightarrow> ua_id a = ua_id a0 \<and> ua_roles a = ua_roles a0"
    by blast
  have "current_user_of st2 st3 (\<lambda>d. d) (\<lambda>d. d) i d' = (Inr c, d')"
    using a by (simp add: current_user_of_def resolve_current_user_def transaction.simps resolve_once_def
        synchronize_profile_def and_current_def a(2) [unfolded as_current_user_Inr, THEN conjunct1])
  with wf roles a(2) show ?thesis by (auto simp: as_current_user_Inr MEMBER_ROLE_def split: option.splits)
qed

theorem resolve_user_stable_witness:
  "\<exists>c d'. current_user_of (at 1 5) (at 1 6) (\<lambda>d. d) (\<lambda>d. d) demo_identity empty_db = (Inr c, d')
    \<and> cu_roles c = [''member''] \<and> current_user_of (at 2 7) (at 2 8) (\<lambda>d. d) (\<lambda>d. d) demo_identity d' = (Inr c, d')"
proof -
  from demo_resolve obtain c d' where r: "current_user_of (at 1 5) (at 1 6) (\<lambda>d. d) (\<lambda>d. d) demo_identity empty_db = (Inr c, d')"
    by blast
  have n: "find_by_identity (vi_issuer demo_identity) (vi_subject demo_identity) empty_db = None"
    by (simp add: find_by_identity_def empty_db_def)
  from resolve_user_stable [OF demo_users_wf r n, of "at 2 7" "at 2 8"] r show ?thesis by simp
qed

text \<open>
  C23. However the requests of one identity interleave, resolving a user never elevates anyone: the
  role assignments afterwards are those other transactions left, or those plus the member role of
  the account just created.
\<close>

theorem provisioning_never_elevates:
  assumes "current_user_of st st' during1 during2 i d = (res, d')"
  shows "\<exists>d0 \<in> {during1 d, during2 (during1 d)}. \<forall>u. roles_of u d' = roles_of u d0 \<or>
    u = st_uuid st \<and> u \<notin> u_id ` set (users_t d0) \<and> roles_of u d' = insert ''member'' (roles_of u d0)"
proof -
  from current_user_of_roles [OF assms] obtain d0 where d0: "d0 \<in> {during1 d, during2 (during1 d)}"
    and roles: "user_roles_t d' = user_roles_t d0 \<or> (st_uuid st \<notin> u_id ` set (users_t d0) \<and> user_roles_t d' = user_roles_t d0 @
      [\<lparr>ur_user_id = st_uuid st, ur_role_name = ''member'', ur_assigned_at = st_txtime st\<rparr>])" by blast
  from roles have "\<forall>u. roles_of u d' = roles_of u d0 \<or>
      u = st_uuid st \<and> u \<notin> u_id ` set (users_t d0) \<and> roles_of u d' = insert ''member'' (roles_of u d0)"
  proof
    assume "user_roles_t d' = user_roles_t d0"
    then show ?thesis by (simp add: roles_of_def)
  next
    assume new: "st_uuid st \<notin> u_id ` set (users_t d0) \<and> user_roles_t d' = user_roles_t d0 @
      [\<lparr>ur_user_id = st_uuid st, ur_role_name = ''member'', ur_assigned_at = st_txtime st\<rparr>]"
    with roles_of_snoc [of d' d0] show ?thesis by simp
  qed
  with d0 show ?thesis by blast
qed

theorem provisioning_never_elevates_witness:
  "\<exists>d'. snd (current_user_of (at 1 5) (at 1 6) (\<lambda>d. d) (\<lambda>d. d) demo_identity empty_db) = d'
    \<and> (\<forall>u. roles_of u d' = roles_of u empty_db \<or> u = 5 \<and> roles_of u d' = insert ''member'' (roles_of u empty_db))"
  using provisioning_never_elevates [of "at 1 5" "at 1 6" "\<lambda>d. d" "\<lambda>d. d" demo_identity empty_db, OF prod.collapse [symmetric]]
  by (auto simp: at_def)



section \<open>Reading runs\<close>

text \<open>
  C25. A run is shown to its owner and to administrators, as it is stored; anyone else is told 403
  and a run that does not exist is a 404.
\<close>

theorem run_read_authorized:
  assumes "distinct (map r_id (runs_t d))" and "get_run find_detail user i d = res"
  shows "case res of
      Inr x \<Rightarrow> (\<exists>r. find_run i d = Some r \<and> x = run_detail_of r (artifacts_of i d)
        \<and> (r_requested_by r = Some (cu_id user) \<or> ''admin'' \<in> set (cu_roles user)))
    | Inl e \<Rightarrow> fst (http_answer e) = (if find_run i d = None then 404 else 403)
        \<and> (\<forall>r. find_run i d = Some r \<longrightarrow> r_requested_by r \<noteq> Some (cu_id user) \<and> ''admin'' \<notin> set (cu_roles user))"
  using assms(2) unfolding get_run_def find_detail_eq [OF assms(1)]
  by (cases "find_run i d") (auto simp: ADMIN_ROLE_def http_answer_def split: if_splits)

theorem run_read_authorized_witness:
  "\<exists>e. get_run find_detail \<lparr>cu_id = 6, cu_email = None, cu_display_name = None, cu_roles = [''member'']\<rparr> 20 owned_submitted = Inl e
    \<and> fst (http_answer e) = 403"
proof -
  let ?u = "\<lparr>cu_id = 6, cu_email = None, cu_display_name = None, cu_roles = [''member'']\<rparr> :: current_user"
  have d: "distinct (map r_id (runs_t owned_submitted))" and r: "find_run 20 owned_submitted = Some owned_run"
    by (simp_all add: owned_submitted_def owned_run_def demo_run_def)
  have n: "r_requested_by owned_run \<noteq> Some 6" by (simp add: owned_run_def)
  from run_read_authorized [OF d refl, where user = ?u and i = 20] r n show ?thesis
    by (cases "get_run find_detail ?u 20 owned_submitted") auto
qed

text \<open>
  C26. Successive pages of a user's history tile it: put together they are exactly the user's own
  runs, newest first, each once, whatever roles the user has.
\<close>

theorem history_pages_tile:
  assumes "1 \<le> n" and "n \<le> 100" and "count_where (\<lambda>r. r_requested_by r = Some (cu_id user)) (runs_t d) \<le> m * n"
  shows "\<exists>pages. (\<forall>k < m. list_own_runs list_owned user (int n) (int (k * n)) d = Inr (pages k))
    \<and> concat (map pages [0..<m]) = map run_summary_of (newest_first (filter (\<lambda>r. r_requested_by r = Some (cu_id user)) (runs_t d)))"
proof (intro exI [of _ "\<lambda>k. list_owned (cu_id user) n (k * n) d"] conjI allI impI)
  show "list_own_runs list_owned user (int n) (int (k * n)) d = Inr (list_owned (cu_id user) n (k * n) d)" for k
    using assms(1,2) by (simp add: list_own_runs_def del: of_nat_mult)
  show "concat (map (\<lambda>k. list_owned (cu_id user) n (k * n) d) [0..<m])
      = map run_summary_of (newest_first (filter (\<lambda>r. r_requested_by r = Some (cu_id user)) (runs_t d)))"
    by (rule list_owned_pages) (use assms(3) in \<open>simp add: count_where_def\<close>)
qed

theorem history_pages_tile_witness:
  "\<exists>page. list_own_runs list_owned \<lparr>cu_id = 5, cu_email = None, cu_display_name = None, cu_roles = []\<rparr> 10 0 owned_submitted
    = Inr page \<and> page = [run_summary_of owned_run]"
proof -
  have "count_where (\<lambda>r. r_requested_by r = Some 5) (runs_t owned_submitted) \<le> 1 * 10"
    and own: "newest_first (filter (\<lambda>r. r_requested_by r = Some 5) (runs_t owned_submitted)) = [owned_run]"
    by (simp_all add: owned_submitted_def owned_run_def newest_first_def)
  with history_pages_tile [of 10 "\<lparr>cu_id = 5, cu_email = None, cu_display_name = None, cu_roles = []\<rparr>" owned_submitted 1]
  show ?thesis by auto
qed

text \<open>
  C27. The snapshot a stream starts with, which one joined query and two dictionaries produce, is
  what reading each run on its own would give: all unfinished runs of the user and the fifty newest
  finished ones, newest first.
\<close>

theorem snapshot_equals_reads:
  assumes "distinct (map r_id (runs_t d))"
  shows "\<exists>xs. feed_snapshot u d = Inr xs \<and> map Some xs = map (\<lambda>r. find_detail (r_id r) d)
    (newest_first (filter (\<lambda>r. r_requested_by r = Some u \<and> (r_status r \<in> set active_statuses
       \<or> r \<in> set (take 50 (newest_first (filter (\<lambda>r. r_requested_by r = Some u \<and> r_status r \<in> set terminal_statuses) (runs_t d))))))
     (runs_t d)))"
proof -
  have inj: "r_id r \<in> r_id ` set (recent_terminal u d) \<longleftrightarrow> r \<in> set (recent_terminal u d)" if "r \<in> set (runs_t d)" for r
  proof
    assume "r_id r \<in> r_id ` set (recent_terminal u d)"
    then obtain x where x: "x \<in> set (recent_terminal u d)" "r_id x = r_id r" by auto
    then have "x \<in> set (runs_t d)" by (auto simp: recent_terminal_def dest!: in_set_takeD)
    with x that assms show "r \<in> set (recent_terminal u d)" by (metis distinct_map inj_onD)
  qed simp
  have runs: "snapshot_runs u d = newest_first (filter (\<lambda>r. r_requested_by r = Some u \<and> (r_status r \<in> set active_statuses
       \<or> r \<in> set (recent_terminal u d))) (runs_t d))"
    unfolding snapshot_runs_def using inj by (intro arg_cong [where f = newest_first] filter_cong) auto
  have "find_detail (r_id r) d = Some (run_detail_of r (artifacts_of (r_id r) d))" if "r \<in> set (snapshot_runs u d)" for r
    using that find_by_distinct [OF assms, of r] by (simp add: find_detail_eq [OF assms] snapshot_runs_def)
  then have "map Some (map (\<lambda>r. run_detail_of r (artifacts_of (r_id r) d)) (snapshot_runs u d))
      = map (\<lambda>r. find_detail (r_id r) d) (snapshot_runs u d)" by simp
  with feed_snapshot_eq [OF assms, of u] show ?thesis
    unfolding runs by (simp add: recent_terminal_def SNAPSHOT_TERMINAL_RUNS_def)
qed

theorem snapshot_equals_reads_witness:
  "\<exists>xs. feed_snapshot 5 owned_submitted = Inr xs \<and> map Some xs = [find_detail 20 owned_submitted]"
proof -
  have d: "distinct (map r_id (runs_t owned_submitted))" by (simp add: owned_submitted_def)
  from snapshot_equals_reads [OF this, of 5] demo_snapshot show ?thesis by auto
qed

section \<open>The live feed\<close>

text \<open>
  C28. Whatever the threads do, the feed keeps its limits: streams in total and per user, pending
  updates per stream. A stream holds and has been shown only runs of its own user, and one with
  pending updates has been woken.
\<close>

theorem streams_bounded_and_isolated:
  assumes "0 \<le> capacity" and "(live_step capacity)\<^sup>*\<^sup>* (initial_live (make_feed p t n)) w"
    and "0 \<le> p" and "0 \<le> t" and "0 \<le> n" and "s \<in> set (fd_subscriptions (lv_feed w))"
  shows "int (length (fd_subscriptions (lv_feed w))) \<le> t
    \<and> int (count_where (\<lambda>x. sub_user x = sub_user s) (fd_subscriptions (lv_feed w))) \<le> p
    \<and> int (length (sub_pending s)) \<le> n
    \<and> (sub_pending s \<noteq> [] \<longrightarrow> sub_changed s \<or> 0 < sub_scheduled s)
    \<and> (\<forall>i x. (i, x) \<in> set (sub_pending s) \<longrightarrow> rn_requested_by x = Some (sub_user s))
    \<and> (\<forall>v i x. lv_views w (sub_id s) = Some v \<longrightarrow> v i = Some x \<longrightarrow> rn_id x = i \<and> rn_requested_by x = Some (sub_user s))"
proof -
  from live_reachable [OF assms(2,1)] have inv: "live_inv capacity w" .
  note f = live_invD(2) [OF inv, unfolded feed_ok_def]
  from live_limits [OF assms(2)] have l: "fd_per_user (lv_feed w) = p" "fd_total (lv_feed w) = t" "fd_pending_limit (lv_feed w) = n"
    by (simp_all add: feed_limits_def initial_live_def make_feed_def)
  from f l assms(6) have ok: "sub_ok n s" by (auto simp: list_all_iff)
  have counts: "int (length (fd_subscriptions (lv_feed w))) \<le> t"
    "int (count_where (\<lambda>x. sub_user x = sub_user s) (fd_subscriptions (lv_feed w))) \<le> p"
    using f l assms(3,4) by (simp_all add: max_def)
  from live_invD(6) [OF inv assms(6)] have "\<forall>v i x. lv_views w (sub_id s) = Some v \<longrightarrow> v i = Some x \<longrightarrow>
      rn_id x = i \<and> rn_requested_by x = Some (sub_user s)" by (auto simp: sub_inv_def owned_view_def)
  with counts ok assms(5) show ?thesis by (auto simp: sub_ok_def max_def)
qed

theorem streams_bounded_and_isolated_witness:
  "rn_requested_by demo_detail = Some 5 \<and> int (length (fd_subscriptions (lv_feed demo_stream))) \<le> 100"
proof -
  let ?s = "new_subscription 0 5"
  have s: "?s \<in> set (fd_subscriptions (lv_feed demo_stream))" and v: "lv_views demo_stream (sub_id ?s) = Some [20 \<mapsto> demo_detail]"
    by (simp_all add: demo_stream_def demo_feed_def initial_live_def new_subscription_def make_feed_def)
  from streams_bounded_and_isolated [OF _ demo_stream_reach _ _ _ s] v show ?thesis
    by (simp add: new_subscription_def)
qed

text \<open>
  C29. The live view follows the database: in every reachable state in which the listener is
  connected and nothing is under way, what a healthy stream has been shown is what a query would
  return now, and every unfinished run of its user is among it. Notifications may interleave with
  commits, reads, snapshots and other streams in any order.
\<close>

theorem live_view_converges:
  assumes "0 \<le> capacity" and "(live_step capacity)\<^sup>*\<^sup>* (initial_live (make_feed p t n)) w"
    and "s \<in> set (fd_subscriptions (lv_feed w))" and "lv_views w (sub_id s) = Some v"
    and "lv_link w = Up" and "sub_error s = None" and "sub_pending s = []"
    and "lv_queue w = []" and "lv_batch w = []" and "lv_inflight w = None"
  shows "(\<forall>i x. v i = Some x \<longrightarrow> find_detail i (lv_db w) = Some x)
    \<and> (\<forall>i x. find_detail i (lv_db w) = Some x \<longrightarrow> rn_requested_by x = Some (sub_user s) \<longrightarrow>
         rn_status x \<in> set active_statuses \<longrightarrow> v i = Some x)"
  using quiet_view_exact [OF live_reachable [OF assms(2,1)] assms(3,5,6,4,7-)] by blast

theorem live_view_converges_witness:
  "find_detail 20 (lv_db demo_stream) = Some demo_detail \<and> lv_views demo_stream 0 = Some [20 \<mapsto> demo_detail]"
proof -
  let ?s = "new_subscription 0 5"
  have s: "?s \<in> set (fd_subscriptions (lv_feed demo_stream))" and v: "lv_views demo_stream (sub_id ?s) = Some [20 \<mapsto> demo_detail]"
    by (simp_all add: demo_stream_def demo_feed_def initial_live_def new_subscription_def make_feed_def)
  from live_view_converges [OF _ demo_stream_reach s v] v show ?thesis
    by (simp add: demo_stream_def initial_live_def new_subscription_def)
qed

section \<open>The adapters of execution\<close>

text \<open>
  C30. With the repository's own adapters, a run that becomes succeeded had a Job under its own
  name, read from or created in the configured namespace, whose spec contains the rendered one,
  with condition Complete and not Failed; its artifacts are exactly what the object store lists.
\<close>

theorem success_has_its_job:
  assumes "find_run i d = Some r" and "r_status r = RUNNING" and "find_run i d' = Some r'" and "r_status r' = SUCCEEDED"
    and "reconcile acquired (\<lambda>d. d) st (observe_or_create api ns (render_job helm binary chart vf))
      (\<lambda>p w. s3_list (pages w) bucket p) i d w = (res, d', w')"
  shows "\<exists>work expected actual w1 w2 spec wanted cs prefix as. record_load i d = Inr (Some work) \<and> w_namespace work = Some ns
    \<and> render_job helm binary chart vf work = Inr expected
    \<and> (read_job api (job_name work) ns w1 = (Inr actual, w2) \<or> create_job api ns expected w1 = (Inr actual, w2))
    \<and> py_getitem actual ''spec'' = Inr spec \<and> py_getitem expected ''spec'' = Inr wanted \<and> contains spec wanted
    \<and> true_conditions actual = Inr cs \<and> ''Complete'' \<in> set cs \<and> ''Failed'' \<notin> set cs
    \<and> output_prefix work = Inr prefix \<and> s3_list (pages w') bucket prefix = Inr as
    \<and> artifacts_t d' = artifacts_t d @ map (artifact_row_of i) as"
proof -
  have "run_is RUNNING i d" "run_is SUCCEEDED i d'" using assms(1-4) by (auto simp: run_is_def)
  from adapters_success [OF this assms(5)] obtain work expected actual w1 spec wanted cs as where
    a: "record_load i d = Inr (Some work)" "w_namespace work = Some ns" "render_job helm binary chart vf work = Inr expected"
      "find_or_create api ns work expected w = (Inr actual, w1)"
    and b: "py_getitem actual ''spec'' = Inr spec" "py_getitem expected ''spec'' = Inr wanted" "contains spec wanted"
      "true_conditions actual = Inr cs" "''Complete'' \<in> set cs" "''Failed'' \<notin> set cs"
    and c: "collect (s3_list (pages w') bucket) work = Inr as" "artifacts_t d' = artifacts_t d @ map (artifact_row_of i) as" .
  from find_or_create_Inr [OF a(4)] obtain w2 w3 where
    "read_job api (job_name work) ns w2 = (Inr actual, w3) \<or> create_job api ns expected w2 = (Inr actual, w3)" by blast
  moreover from collect_Inr [OF c(1)] obtain prefix where "output_prefix work = Inr prefix" "s3_list (pages w') bucket prefix = Inr as"
    by metis
  ultimately show ?thesis using a(1-3) b c(2) by blast
qed

theorem success_has_its_job_witness:
  "\<exists>actual w1 w2. read_job demo_cluster (job_name demo_work) ''models'' w1 = (Inr actual, w2)
    \<and> artifacts_t demo_succeeded = [artifact_row_of 20 demo_output]"
proof -
  have r: "find_run 20 demo_running = Some (demo_run\<lparr>r_accepted_at := Some 300, r_status := RUNNING,
      r_dispatch_started_at := Some 400, r_job_namespace := Some ''models''\<rparr>)" by (simp add: demo_defs)
  have r': "find_run 20 demo_succeeded = Some (demo_run\<lparr>r_accepted_at := Some 300, r_status := SUCCEEDED,
      r_dispatch_started_at := Some 400, r_job_namespace := Some ''models'', r_job_uid := Some ''uid-1'', r_finished_at := Some 500\<rparr>)"
    by (simp add: demo_succeeded_def demo_run_def)
  have st: "r_status (demo_run\<lparr>r_accepted_at := Some 300, r_status := s, r_dispatch_started_at := Some 400,
      r_job_namespace := Some ''models''\<rparr>) = s" for s by simp
  from success_has_its_job [OF r st r' _ demo_adapters] obtain work expected actual w1 w2 where
    "read_job demo_cluster (job_name work) ''models'' w1 = (Inr actual, w2)
      \<or> create_job demo_cluster ''models'' expected w1 = (Inr actual, w2)" by fastforce
  then have "read_job demo_cluster (job_name demo_work) ''models'' w1 = (Inr actual, w2)" by (simp add: demo_cluster_def)
  then show ?thesis by (auto simp: demo_succeeded_def)
qed

text \<open>
  C31. Once a Job's identity is recorded the run's Job is never created again: observing makes no
  use of creation, a Job that is gone is reported lost, and an observation is of the recorded Job.
\<close>

theorem job_never_recreated:
  assumes "truthy (w_job_uid work)"
  shows "observe_or_create (api\<lparr>create_job := c\<rparr>) ns render work w = observe_or_create api ns render work w
    \<and> (\<forall>ob w'. observe_or_create api ns render work w = (Inr ob, w') \<longrightarrow> w_job_uid work = Some (o_uid ob))
    \<and> (\<forall>expected w'. w_namespace work = Some ns \<longrightarrow> render work = Inr expected \<longrightarrow>
         read_job api (job_name work) ns w = (Inl (ApiException 404), w') \<longrightarrow>
         observe_or_create api ns render work w = (Inl (ExecutionFailure ''job_lost'' []), w'))"
proof (intro conjI allI impI)
  fix ob w' expected
  show "observe_or_create (api\<lparr>create_job := c\<rparr>) ns render work w = observe_or_create api ns render work w"
    by (rule observe_recorded [OF assms])
  show "w_job_uid work = Some (o_uid ob)" if "observe_or_create api ns render work w = (Inr ob, w')"
    by (rule observe_identity [OF assms that])
  show "observe_or_create api ns render work w = (Inl (ExecutionFailure ''job_lost'' []), w')"
    if "w_namespace work = Some ns" "render work = Inr expected" "read_job api (job_name work) ns w = (Inl (ApiException 404), w')"
    using that assms by (simp add: observe_or_create_def find_or_create_def get_job_def)
qed

theorem job_never_recreated_witness:
  "\<exists>api. observe_or_create api ''models'' (\<lambda>_. Inr demo_manifest) (demo_work\<lparr>w_job_uid := Some ''uid-1''\<rparr>) (0 :: nat)
    = (Inl (ExecutionFailure ''job_lost'' []), 0)"
proof -
  let ?work = "demo_work\<lparr>w_job_uid := Some ''uid-1''\<rparr>"
  let ?api = "demo_cluster\<lparr>read_job := \<lambda>_ _ w. (Inl (ApiException 404), w)\<rparr>"
  have "truthy (w_job_uid ?work)" "w_namespace ?work = Some ''models''"
    "read_job ?api (job_name ?work) ''models'' 0 = (Inl (ApiException 404), 0)"
    by (simp_all add: truthy_def demo_work_def)
  with job_never_recreated [of ?work _ ?api "''models''" "\<lambda>_. Inr demo_manifest" 0] show ?thesis by blast
qed

section \<open>The boundary\<close>

text \<open>
  C32. An identity the validator returns comes from a token signed with an asymmetric algorithm,
  verified with a key of the provider's published set for the configured audience and issuer; its
  subject fits the column and its profile claims are not blank. PyJWT is assumed to return only
  claims of the issuer it was asked to check.
\<close>

theorem token_identity_sound:
  assumes "make_oidc_settings issuer audience algs skew cache = Inr c"
    and "validate_token env c token client = (Inr i, client')"
    and "\<And>token key algs aud iss leeway req claims. jwt_decode env token key algs aud iss leeway req = Inr claims
      \<Longrightarrow> map_of claims ''iss'' = Some (JStr iss)"
  shows "vi_issuer i = os_issuer_url c \<and> vi_subject i \<noteq> [] \<and> length (vi_subject i) \<le> 255
    \<and> (\<forall>e. vi_email i = Some e \<or> vi_display_name i = Some e \<longrightarrow> py_strip e \<noteq> [])
    \<and> (\<exists>header alg uri key claims. unverified_header env token = Inr header \<and> map_of header ''alg'' = Some (JStr alg)
         \<and> alg \<in> set asymmetric_algorithms \<and> client' = Some uri \<and> (client = None \<longrightarrow> discover_jwks_uri env c = Inr uri)
         \<and> signing_key env uri token = Inr key
         \<and> jwt_decode env token key (os_allowed_algorithms c) (os_audience c) (os_issuer_url c) (os_clock_skew_seconds c)
             [''iss'', ''sub'', ''aud'', ''exp''] = Inr claims
         \<and> map_of claims ''sub'' = Some (JStr (vi_subject i)))"
proof -
  from validate_token_Inr [OF assms(2)] obtain header alg uri key claims where
    h: "unverified_header env token = Inr header" "map_of header ''alg'' = Some (JStr alg)" "alg \<in> set (os_allowed_algorithms c)"
    and u: "client' = Some uri" "client = Some uri \<or> client = None \<and> discover_jwks_uri env c = Inr uri"
      "signing_key env uri token = Inr key"
    and k: "jwt_decode env token key (os_allowed_algorithms c) (os_audience c) (os_issuer_url c) (os_clock_skew_seconds c)
      [''iss'', ''sub'', ''aud'', ''exp''] = Inr claims" and i: "identity_of_claims claims = Inr i" .
  note id = identity_of_claims_Inr [OF i]
  from id(2) assms(3) [OF k] have "vi_issuer i = os_issuer_url c" by simp
  moreover have "alg \<in> set asymmetric_algorithms" using validated_settings(1) [OF assms(1)] h(3) by blast
  ultimately show ?thesis using id h(1,2) u k by blast
qed

theorem token_identity_sound_witness:
  "\<exists>i. validate_token demo_oidc demo_settings ''token'' None = (Inr i, Some ''https://id/keys'')
    \<and> vi_issuer i = ''https://id'' \<and> vi_subject i = ''u-1''"
proof -
  from token_identity_sound [OF demo_settings_ok demo_validate] demo_oidc_issuer
  show ?thesis using demo_validate by (auto simp: demo_settings_def demo_identity_def)
qed



text \<open>
  C34. A stream sends its snapshot and each update only after a check that found the account
  active and the token unexpired; it reports one error at most, as its last frame; and a turn at
  or after the token's expiry ends it.
\<close>

theorem stream_respects_access:
  assumes "stream retry expires ck opened snap turns = frames"
  shows "(\<forall>xs. RunsSnapshot xs \<in> set frames \<longrightarrow> xs = snap \<and> ck_active ck = Inr True \<and> ck_after ck < expires)
    \<and> (\<forall>x. RunUpdated x \<in> set frames \<longrightarrow> (\<exists>tn \<in> set turns. x \<in> set (tn_updates tn) \<and> tn_error tn = None
         \<and> ck_active (tn_check tn) = Inr True \<and> ck_after (tn_check tn) < expires \<and> tn_time tn < expires))
    \<and> (\<forall>code. StreamError code \<in> set frames \<longrightarrow>
         (\<exists>fs. frames = fs @ [StreamError code] \<and> (\<forall>c. StreamError c \<notin> set fs)))
    \<and> ((\<exists>tn \<in> set turns. expires \<le> tn_time tn) \<longrightarrow> (\<exists>code. last frames = StreamError code))"
proof (cases "access_error expires ck")
  case (Some code)
  with assms have "frames = [Retry retry] @ [StreamError code]" by (simp add: stream_def)
  then show ?thesis by auto
next
  case None
  let ?loop = "stream_loop expires (opened + HEARTBEAT_SECONDS) turns"
  from None assms have f: "frames = [Retry retry, RunsSnapshot snap] @ ?loop" by (simp add: stream_def)
  have err: "\<exists>fs. frames = fs @ [StreamError code] \<and> (\<forall>c. StreamError c \<notin> set fs)" if "StreamError code \<in> set frames" for code
  proof -
    from that f have "StreamError code \<in> set ?loop" by simp
    from stream_loop_error_last [OF this] obtain fs where "?loop = fs @ [StreamError code]" "\<forall>c. StreamError c \<notin> set fs" by blast
    with f show ?thesis by (intro exI [of _ "[Retry retry, RunsSnapshot snap] @ fs"]) simp
  qed
  moreover have "\<exists>code. last frames = StreamError code" if tn: "tn \<in> set turns" "expires \<le> tn_time tn" for tn
  proof -
    from stream_loop_expires [OF tn] f obtain code where "StreamError code \<in> set frames" by auto
    from err [OF this] show ?thesis by auto
  qed
  moreover have "RunsSnapshot xs \<in> set frames \<Longrightarrow> xs = snap" for xs using f stream_loop_no_snapshot by auto
  moreover have "\<exists>tn \<in> set turns. x \<in> set (tn_updates tn) \<and> tn_error tn = None \<and> ck_active (tn_check tn) = Inr True
      \<and> ck_after (tn_check tn) < expires \<and> tn_time tn < expires" if "RunUpdated x \<in> set frames" for x
    using that f stream_loop_updates [of x expires "opened + HEARTBEAT_SECONDS" turns] by auto
  moreover from None have "ck_active ck = Inr True \<and> ck_after ck < expires" by (simp add: access_error_None)
  ultimately show ?thesis by blast
qed

theorem stream_respects_access_witness:
  "\<exists>frames code. stream 3000 1000 demo_check 0 [demo_detail] [demo_turn 10, demo_turn 1000] = frames
    \<and> RunUpdated demo_detail \<in> set frames \<and> last frames = StreamError code"
proof -
  let ?frames = "stream 3000 1000 demo_check 0 [demo_detail] [demo_turn 10, demo_turn 1000]"
  have "\<exists>tn \<in> set [demo_turn 10, demo_turn 1000]. 1000 \<le> tn_time tn" by (simp add: demo_turn_def)
  with stream_respects_access [OF refl [of ?frames]] have "\<exists>code. last ?frames = StreamError code" by blast
  moreover have "RunUpdated demo_detail \<in> set ?frames"
    by (simp add: stream_def access_error_def turn_error_def demo_check_def demo_turn_def HEARTBEAT_SECONDS_def Let_def)
  ultimately show ?thesis by blast
qed

section \<open>The processes\<close>

text \<open>
  C35. The worker asks Kafka to commit an offset only for a record that is settled in the database
  by then, so that delivering it again changes nothing; within a session the committed records are
  the first ones delivered, in order, so no record before a committed one is left unhandled. This
  holds whatever the broker answers and other processes commit meanwhile.
\<close>

theorem worker_commits_only_settled:
  assumes "worker_run decode once ts d = (code, css, d')" and "k < length css"
  shows "code \<le> 1 \<and> (\<exists>n. map (\<lambda>(_, r, _). r) (css ! k) = take n (records_of (wt_polls (ts ! k))))
    \<and> (\<forall>(l, r, dc) \<in> set (css ! k). l = committed_offset r
         \<and> (\<forall>st. \<exists>outcome. consume st (kr_location r) (decode (kr_key r) (kr_value r)) dc = (Inr outcome, dc)))"
  using worker_run_commits [OF assms(1)] assms(2) by (auto simp: settled_def handle_record_def)

theorem worker_commits_only_settled_witness:
  "\<exists>outcome. worker_run demo_decode True [demo_worker_turn] demo_submitted
      = (0, [[(committed_offset demo_record, demo_record, demo_accepted)]], demo_accepted)
    \<and> consume (at 900 9) demo_location (Inl 20) demo_accepted = (Inr outcome, demo_accepted)"
proof -
  have "kr_location demo_record = demo_location" by (simp add: demo_record_def)
  moreover from worker_commits_only_settled [OF demo_worker_run, of 0]
  have "\<forall>st. \<exists>outcome. consume st (kr_location demo_record) (demo_decode (kr_key demo_record) (kr_value demo_record)) demo_accepted
      = (Inr outcome, demo_accepted)" by simp
  ultimately obtain outcome where "consume (at 900 9) demo_location (Inl 20) demo_accepted = (Inr outcome, demo_accepted)"
    unfolding demo_decoded by auto
  with demo_worker_run show ?thesis by (intro exI conjI)
qed

text \<open>
  C36. From every reachable state, when the broker acknowledges each message in time and the
  publisher works alone, as many rounds as the outbox has batches publish everything: each
  unpublished event exactly once, oldest first, and nothing stays unpublished.
\<close>

theorem publisher_drains_outbox:
  assumes "0 \<le> capacity" and "(sys_step capacity)\<^sup>*\<^sup>* initial_system s" and "1 \<le> n" and "n \<le> 100"
    and "answers deadline (length (unpublished (sys_db s))) w" and "length (unpublished (sys_db s)) \<le> length rounds * n"
    and "\<forall>r \<in> set rounds. pr_others r = (\<lambda>d. d) \<and> pr_locked r = (\<lambda>_. False) \<and> pr_commit r = (\<lambda>_. None)"
  shows "\<exists>d' w'. publisher_run (kafka_publish rt et deadline) (int n) False rounds (sys_db s, w) = (Inr 0, d', w')
    \<and> unpublished d' = []
    \<and> acknowledged w' = acknowledged w @ map (\<lambda>e. (event_topic rt et e, uuid_str (ev_run_id e), event_payload e))
        (map event_of_row (unpublished (sys_db s)))"
proof -
  from sys_reachable [OF assms(2,1)] have "wf_runs (sys_db s)" by (simp add: sys_inv_def wf_dbD)
  from publisher_run_drains [OF this assms(3-7)] show ?thesis .
qed

theorem publisher_drains_outbox_witness:
  "\<exists>d' w'. publisher_run (kafka_publish ''requests'' ''events'' 10) 1 False [demo_round] (demo_submitted, demo_broker) = (Inr 0, d', w')
    \<and> unpublished d' = [] \<and> length (acknowledged w') = 1"
proof -
  let ?s = "\<lparr>sys_db = demo_submitted, claiming = None\<rparr>"
  have one: "length (unpublished (sys_db ?s)) = 1" by (simp add: unpublished_def demo_defs)
  have "answers 10 (length (unpublished (sys_db ?s))) demo_broker" unfolding one by (simp add: answers_def demo_broker_def)
  from publisher_drains_outbox [OF _ demo_reach_submitted _ _ this, of 1 "[demo_round]" "''requests''" "''events''"] one
  show ?thesis by (auto simp: demo_round_def demo_broker_def)
qed



section \<open>Releases and delivery\<close>

text \<open>
  C38. A published release record is one its own validation accepts: it pins each of the three
  images to a digest under the released version. A publication refused by its checks (a tag that
  exists, a registry that cannot be asked, a local image of another source) pushes nothing.
\<close>

theorem published_record_pinned:
  assumes "publish_release docker tag commit w = (res, w')"
  shows "(\<forall>record. res = Inr record \<longrightarrow> (\<exists>images. validate_record record tag commit = Inr images
      \<and> list_all2 (\<lambda>(role, repository) (name, image). name = role \<and> (\<exists>digest. fullmatch digest_rx digest
          \<and> image = JObj [(''image_repository'', JStr repository),
              (''image_ref'', JStr (image_reference repository tag @ ''@'' @ digest))])) repositories images))
    \<and> (\<forall>e w1. before_push docker tag commit w = (Inl e, w1) \<longrightarrow>
         res = Inl e \<and> (\<forall>f. publish_release (docker\<lparr>push_image := f\<rparr>) tag commit w = (res, w')))"
proof (intro conjI allI impI)
  fix rcd
  assume "res = Inr rcd"
  with assms have "publish_release docker tag commit w = (Inr rcd, w')" by simp
  from publish_release_Inr [OF this] obtain images where "list_all2 (pinned_image tag) repositories images"
    "validate_record rcd tag commit = Inr images" .
  then show "\<exists>images. validate_record rcd tag commit = Inr images
      \<and> list_all2 (\<lambda>(role, repository) (name, image). name = role \<and> (\<exists>digest. fullmatch digest_rx digest
          \<and> image = JObj [(''image_repository'', JStr repository),
              (''image_ref'', JStr (image_reference repository tag @ ''@'' @ digest))])) repositories images"
    unfolding pinned_image_def by blast
next
  fix e w1 f
  assume refused: "before_push docker tag commit w = (Inl e, w1)"
  from before_push_refused [OF refused, of "push_image docker"] assms show "res = Inl e" by simp
  from before_push_refused [OF refused, of f] before_push_refused [OF refused, of "push_image docker"] assms
  show "publish_release (docker\<lparr>push_image := f\<rparr>) tag commit w = (res, w')" by simp
qed

theorem published_record_pinned_witness:
  "\<exists>images. validate_record (release_json ''v1.10.0'' demo_commit demo_images) ''v1.10.0'' demo_commit = Inr images
    \<and> length images = 3"
proof -
  from published_record_pinned [OF demo_publish_release] obtain images where
    "validate_record (release_json ''v1.10.0'' demo_commit demo_images) ''v1.10.0'' demo_commit = Inr images"
    "length repositories = length images" by (auto dest: list_all2_lengthD)
  then show ?thesis by (auto simp: repositories_def)
qed

text \<open>
  C39. A delivery that passes its gate never goes back: the live version, compared number by
  number, is at most the target's; when they are equal the texts are equal too, and the live image
  and source are the target's. A finished rollout runs the target version.
\<close>

theorem delivery_never_downgrades:
  assumes "check_deployment doc role target_version img commit deployed = Inr ()"
  shows "\<exists>metadata annotations s live target images. py_getitem doc ''metadata'' = Inr metadata
    \<and> py_get metadata ''annotations'' (JObj []) = Inr annotations
    \<and> py_get annotations ''delivery.mic3.io/version'' JNull = Inr (JStr s)
    \<and> version (JStr s) = Inr live \<and> version (JStr target_version) = Inr target \<and> length live = 3 \<and> length target = 3
    \<and> live \<le> target \<and> (live = target \<longleftrightarrow> s = target_version) \<and> container_images doc = Inr images
    \<and> (live = target \<longrightarrow> live_image images role = Some (JStr img)
         \<and> py_get annotations ''delivery.mic3.io/commit'' JNull = Inr (JStr commit))
    \<and> (deployed \<longrightarrow> live = target)"
proof -
  from check_deployment_Inr [OF assms] obtain metadata annotations s live target images where
    r: "py_getitem doc ''metadata'' = Inr metadata" "py_get metadata ''annotations'' (JObj []) = Inr annotations"
      "py_get annotations (ANNOTATION @ ''version'') JNull = Inr (JStr s)" "version (JStr s) = Inr live"
      "version (JStr target_version) = Inr target" "live \<le> target" "container_images doc = Inr images"
    and same: "s = target_version \<Longrightarrow> live_image images role = Some (JStr img)
        \<and> py_get annotations (ANNOTATION @ ''commit'') JNull = Inr (JStr commit)"
    and finished: "deployed \<Longrightarrow> s = target_version \<and> check_rollout doc role True = Inr ()" by metis
  from r(4,5) version_text have eq: "live = target \<longleftrightarrow> s = target_version" by auto
  show ?thesis
    using r same finished eq version_length [OF r(4)] version_length [OF r(5)] by (auto simp: ANNOTATION_def simp del: version.simps)
qed

theorem delivery_never_downgrades_witness:
  "\<exists>live target. version (JStr ''1.9.0'') = Inr live \<and> version (JStr ''1.10.0'') = Inr target \<and> live \<le> target
    \<and> check_deployment demo_deployment ''worker'' ''1.10.0'' ''new'' demo_commit False = Inr ()"
proof -
  from delivery_never_downgrades [OF demo_check_deployment] obtain metadata annotations s live target where
    r: "py_getitem demo_deployment ''metadata'' = Inr metadata" "py_get metadata ''annotations'' (JObj []) = Inr annotations"
      "py_get annotations ''delivery.mic3.io/version'' JNull = Inr (JStr s)"
    and v: "version (JStr s) = Inr live" "version (JStr ''1.10.0'') = Inr target" "live \<le> target" by (auto simp del: version.simps)
  from r have "s = ''1.9.0''" by (auto simp: demo_deployment_def)
  with v demo_check_deployment show ?thesis by blast
qed



end
